theory Spec2Isabelle
  imports Complex_Main "HOL-Library.Sublist" "HOL-Library.Word" "HOL-Library.Multiset"
begin

unbundle bit_operations_syntax

section \<open>Strings\<close>

text \<open>
  A Go string is a byte sequence; it is modelled as a \<^typ>\<open>string\<close>, one \<^typ>\<open>char\<close> per
  byte. The functions of Go's \<^verbatim>\<open>strings\<close> package that the program calls are written out
  here. \<^verbatim>\<open>strings.ToLower\<close> and \<^verbatim>\<open>strings.ToUpper\<close> are modelled on ASCII input, where Go
  maps \<^verbatim>\<open>'A'..'Z'\<close> to \<^verbatim>\<open>'a'..'z'\<close> (and back) by adding (subtracting) 32, that is by
  setting (clearing) bit 5; bytes outside these ranges are kept. No theorem below depends on
  how the two functions treat a particular byte.
\<close>

definition is_upper :: "char \<Rightarrow> bool" where
  "is_upper c = (65 \<le> (of_char c :: nat) \<and> (of_char c :: nat) \<le> 90)"

definition is_lower :: "char \<Rightarrow> bool" where
  "is_lower c = (97 \<le> (of_char c :: nat) \<and> (of_char c :: nat) \<le> 122)"

definition lower_char :: "char \<Rightarrow> char" where
  "lower_char c =
     (if is_upper c
      then Char (digit0 c) (digit1 c) (digit2 c) (digit3 c) (digit4 c) True (digit6 c) (digit7 c)
      else c)"

definition upper_char :: "char \<Rightarrow> char" where
  "upper_char c =
     (if is_lower c
      then Char (digit0 c) (digit1 c) (digit2 c) (digit3 c) (digit4 c) False (digit6 c) (digit7 c)
      else c)"

definition ToLower :: "string \<Rightarrow> string" where
  "ToLower s = map lower_char s"

definition ToUpper :: "string \<Rightarrow> string" where
  "ToUpper s = map upper_char s"

text \<open>\<^verbatim>\<open>strings.Contains(s, substr)\<close>: \<^verbatim>\<open>substr\<close> occurs in \<^verbatim>\<open>s\<close> as a contiguous block.\<close>

fun Contains :: "string \<Rightarrow> string \<Rightarrow> bool" where
  "Contains [] sub = (sub = [])"
| "Contains (c # s) sub = (prefix sub (c # s) \<or> Contains s sub)"

text \<open>\<^verbatim>\<open>strings.HasPrefix(s, p)\<close> and \<^verbatim>\<open>strings.HasSuffix(s, p)\<close>.\<close>

definition HasPrefix :: "string \<Rightarrow> string \<Rightarrow> bool" where
  "HasPrefix s p = prefix p s"

definition HasSuffix :: "string \<Rightarrow> string \<Rightarrow> bool" where
  "HasSuffix s p = prefix (rev p) (rev s)"

section \<open>Category rules\<close>

record CategoryRule =
  Category :: string
  Keywords :: "string list"
  Exclusions :: "string list"
  Priority :: int
  Confidence :: real

text \<open>
  The rule table, in the order of the source. \<^verbatim>\<open>float64\<close> weights are modelled as exact
  reals; rounding is not modelled.
\<close>

definition rule_drone :: CategoryRule where
  "rule_drone = \<lparr>Category = ''SFX_Drone'', Keywords = [''drone''], Exclusions = [],
     Priority = 10, Confidence = 0.8\<rparr>"

definition rule_loop :: CategoryRule where
  "rule_loop = \<lparr>Category = ''Music'', Keywords = [''loop''], Exclusions = [],
     Priority = 10, Confidence = 0.8\<rparr>"

definition rule_riser :: CategoryRule where
  "rule_riser = \<lparr>Category = ''SFX_Riser'', Keywords = [''riser''], Exclusions = [],
     Priority = 10, Confidence = 0.8\<rparr>"

definition rule_time :: CategoryRule where
  "rule_time = \<lparr>Category = ''SFX_Time'',
     Keywords = [''slowmotion'', ''slow motion'', ''slow-motion'', ''timelapse'', ''time lapse'',
       ''time-lapse''],
     Exclusions = [], Priority = 10, Confidence = 0.8\<rparr>"

definition rule_transition :: CategoryRule where
  "rule_transition = \<lparr>Category = ''SFX_Transition'', Keywords = [''transition''],
     Exclusions = [], Priority = 10, Confidence = 0.7\<rparr>"

definition rule_whoosh :: CategoryRule where
  "rule_whoosh = \<lparr>Category = ''SFX_Whoosh'', Keywords = [''whoosh''], Exclusions = [],
     Priority = 10, Confidence = 0.8\<rparr>"

definition rule_voice :: CategoryRule where
  "rule_voice = \<lparr>Category = ''SFX_Voice'',
     Keywords = [''scream'', ''voice'', ''dialogue'', ''speech'', ''male'', ''female'', ''grunt'',
       ''groan''],
     Exclusions = [], Priority = 8, Confidence = 0.8\<rparr>"

definition rule_creature :: CategoryRule where
  "rule_creature = \<lparr>Category = ''SFX_Creature'',
     Keywords = [''creature'', ''monster'', ''animal'', ''beast'', ''roar'', ''growl'', ''howl'',
       ''moan'', ''cat'', ''dog'', ''cow'', ''rooster'', ''monkey'', ''meow'', ''bark'', ''moo'',
       ''pur''],
     Exclusions = [], Priority = 8, Confidence = 0.8\<rparr>"

definition rule_ambient :: CategoryRule where
  "rule_ambient = \<lparr>Category = ''Ambient'',
     Keywords = [''wind'', ''rain'', ''thunder'', ''storm'', ''water'', ''ocean'', ''forest'',
       ''nature'', ''atmos'', ''atmosphere'', ''ambient'', ''ambience'', ''flame'', ''flames'',
       ''burning'', ''ember'', ''campfire'', ''bonfire'', ''jungle'', ''rainforest'', ''insect'',
       ''cicada'', ''cricket'', ''frog'', ''waterfall'', ''river'', ''stream'', ''wave'',
       ''beach'', ''underwater'', ''monsoon'', ''downpour'', ''raindrop'', ''lightning'',
       ''wind chime'', ''windchime'', ''city'', ''urban'', ''traffic'', ''crowd'', ''market'',
       ''construction'', ''airport'', ''station'', ''restaurant'', ''kitchen'', ''street'',
       ''highway'', ''freeway'', ''intersection'', ''walla'', ''room tone'', ''roomtone''],
     Exclusions = [], Priority = 9, Confidence = 0.8\<rparr>"

definition rule_weapon :: CategoryRule where
  "rule_weapon = \<lparr>Category = ''SFX_Weapon'',
     Keywords = [''gun'', ''weapon'', ''shot'', ''bullet'', ''sword'', ''slash'', ''punch'',
       ''combat'', ''gunfire'', ''firearm'', ''samurai'', ''kung fu'', ''karate''],
     Exclusions = [], Priority = 7, Confidence = 0.8\<rparr>"

definition rule_impact :: CategoryRule where
  "rule_impact = \<lparr>Category = ''SFX_Impact'',
     Keywords = [''explosion'', ''explode'', ''impact'', ''crash'', ''slam'', ''thud'', ''bang'',
       ''boom'', ''gong'', ''hit''],
     Exclusions = [], Priority = 7, Confidence = 0.8\<rparr>"

definition rule_footstep :: CategoryRule where
  "rule_footstep = \<lparr>Category = ''SFX_Footstep'',
     Keywords = [''footstep'', ''step'', ''walk'', ''run'', ''jump'', ''land''],
     Exclusions = [], Priority = 7, Confidence = 0.8\<rparr>"

definition rule_vehicle :: CategoryRule where
  "rule_vehicle = \<lparr>Category = ''SFX_Vehicle'',
     Keywords = [''vehicle'', ''car'', ''engine'', ''motor'', ''tire'', ''wheel'', ''drive'',
       ''bus'', ''train'', ''truck'', ''motorbike'', ''motorcycle'', ''tuktuk'', ''aeroplane'',
       ''airplane'', ''ferry'', ''boat'', ''driveby'', ''drive-by'', ''pass by'', ''passby'',
       ''hoot'', ''honk'', ''horn''],
     Exclusions = [''atmos'', ''atmosphere'', ''ambient'', ''ambience'', ''room tone'',
       ''roomtone''],
     Priority = 6, Confidence = 0.8\<rparr>"

definition rule_ui :: CategoryRule where
  "rule_ui = \<lparr>Category = ''SFX_UI'',
     Keywords = [''ui'', ''interface'', ''button'', ''click'', ''select'', ''hover'', ''menu'',
       ''notification''],
     Exclusions = [], Priority = 7, Confidence = 0.9\<rparr>"

definition rule_alarm :: CategoryRule where
  "rule_alarm = \<lparr>Category = ''SFX_Alarm'',
     Keywords = [''alarm'', ''alert'', ''siren'', ''warning'', ''beep'', ''buzz''],
     Exclusions = [], Priority = 7, Confidence = 0.8\<rparr>"

definition rule_mechanical :: CategoryRule where
  "rule_mechanical = \<lparr>Category = ''SFX_Mechanical'',
     Keywords = [''mechanical'', ''machine'', ''gear'', ''whir'', ''clank'', ''robot''],
     Exclusions = [], Priority = 6, Confidence = 0.8\<rparr>"

definition rule_object :: CategoryRule where
  "rule_object = \<lparr>Category = ''SFX_Object'',
     Keywords = [''door'', ''open'', ''close'', ''creak'', ''squeak'', ''hinge'', ''object'',
       ''item'', ''pickup'', ''drop''],
     Exclusions = [], Priority = 6, Confidence = 0.8\<rparr>"

definition rule_percussion :: CategoryRule where
  "rule_percussion = \<lparr>Category = ''SFX_Percussion'',
     Keywords = [''drum'', ''percussion'', ''beat'', ''kick'', ''snare'', ''cymbal'', ''gong'',
       ''tambourine'', ''bell'', ''clap''],
     Exclusions = [], Priority = 7, Confidence = 0.8\<rparr>"

definition rule_traditional :: CategoryRule where
  "rule_traditional = \<lparr>Category = ''SFX_Traditional'',
     Keywords = [''traditional'', ''ceremony'', ''ceremonial'', ''temple'', ''chant'',
       ''chanting'', ''pray'', ''praying'', ''royal'', ''emperor'', ''ancient''],
     Exclusions = [], Priority = 7, Confidence = 0.8\<rparr>"

definition rule_string :: CategoryRule where
  "rule_string = \<lparr>Category = ''SFX_String'',
     Keywords = [''pluck'', ''string'', ''guitar'', ''harp'', ''sitar'', ''pipa''],
     Exclusions = [], Priority = 7, Confidence = 0.8\<rparr>"

definition rule_music :: CategoryRule where
  "rule_music = \<lparr>Category = ''Music'',
     Keywords = [''music'', ''song'', ''track'', ''score'', ''melody'', ''theme''],
     Exclusions = [], Priority = 6, Confidence = 0.8\<rparr>"

definition rules_before_ambient :: "CategoryRule list" where
  "rules_before_ambient =
     [rule_drone, rule_loop, rule_riser, rule_time, rule_transition, rule_whoosh, rule_voice,
      rule_creature]"

definition rules_after_weapon :: "CategoryRule list" where
  "rules_after_weapon =
     [rule_impact, rule_footstep, rule_vehicle, rule_ui, rule_alarm, rule_mechanical,
      rule_object, rule_percussion, rule_traditional, rule_string, rule_music]"

definition CategoryRules :: "CategoryRule list" where
  "CategoryRules = rules_before_ambient @ [rule_ambient, rule_weapon] @ rules_after_weapon"

text \<open>
  \<^verbatim>\<open>matchCategoryRule\<close>. The exclusion loop returns false at the first exclusion found in the
  name. The keyword loop returns at the first keyword found: \<open>match_keywords\<close> gives
  \<open>Some b\<close> when the loop returns \<open>b\<close> and \<open>None\<close> when it runs to its end, after which only
  the rule labelled \<^verbatim>\<open>Ambient\<close> can still match, on a standalone \<^verbatim>\<open>fire\<close>.
\<close>

definition weapon_related_fire :: "string \<Rightarrow> bool" where
  "weapon_related_fire n =
     (Contains n ''gunfire'' \<or> Contains n ''firearm'' \<or> Contains n ''fire_'' \<or>
      Contains n ''_fire'' \<or> (Contains n ''gun'' \<or> Contains n ''weapon'' \<or> Contains n ''shot''))"

fun match_keywords :: "string \<Rightarrow> string \<Rightarrow> string list \<Rightarrow> bool option" where
  "match_keywords n cat [] = None"
| "match_keywords n cat (keyword # ks) =
     (if Contains n keyword
      then (if cat = ''SFX_Weapon'' \<and> keyword = ''fire''
            then (if weapon_related_fire n then Some True else Some False)
            else Some True)
      else match_keywords n cat ks)"

definition standalone_fire :: "string \<Rightarrow> bool" where
  "standalone_fire n = (n = ''fire'' \<or> HasPrefix n ''fire '' \<or> HasSuffix n '' fire'')"

definition no_weapon_word :: "string \<Rightarrow> bool" where
  "no_weapon_word n =
     (\<not> Contains n ''gun'' \<and> \<not> Contains n ''weapon'' \<and> \<not> Contains n ''shot'' \<and>
      \<not> Contains n ''gunfire'' \<and> \<not> Contains n ''firearm'')"

definition matchCategoryRule :: "string \<Rightarrow> CategoryRule \<Rightarrow> bool" where
  "matchCategoryRule nameLower rule =
     (if list_ex (Contains nameLower) (Exclusions rule) then False
      else (case match_keywords nameLower (Category rule) (Keywords rule) of
              Some b \<Rightarrow> b
            | None \<Rightarrow>
                (if Category rule = ''Ambient''
                 then (if standalone_fire nameLower
                       then (if no_weapon_word nameLower then True else False)
                       else False)
                 else False)))"

text \<open>\<^verbatim>\<open>InferCategory\<close>: the category of the first rule that matches, else \<^verbatim>\<open>SFX\<close>.\<close>

fun first_match :: "string \<Rightarrow> CategoryRule list \<Rightarrow> string" where
  "first_match n [] = ''SFX''"
| "first_match n (rule # rules) =
     (if matchCategoryRule n rule then Category rule else first_match n rules)"

definition InferCategory :: "string \<Rightarrow> string" where
  "InferCategory filename = first_match (ToLower filename) CategoryRules"

section \<open>Category name normalisation\<close>

text \<open>The synonym table \<^verbatim>\<open>CategoryNormalization\<close>, a Go map, as an association list.\<close>

definition CategoryNormalization :: "(string \<times> string) list" where
  "CategoryNormalization =
     [(''PE'', ''SFX_Percussion''), (''PERCUSSION'', ''SFX_Percussion''), (''SFX'', ''SFX''),
      (''VOICE'', ''SFX_Voice''), (''CREATURE'', ''SFX_Creature''), (''WEAPON'', ''SFX_Weapon''),
      (''IMPACT'', ''SFX_Impact''), (''FOOTSTEP'', ''SFX_Footstep''),
      (''VEHICLE'', ''SFX_Vehicle''), (''ALARM'', ''SFX_Alarm''),
      (''MECHANICAL'', ''SFX_Mechanical''), (''OBJECT'', ''SFX_Object''),
      (''AMBIENT'', ''Ambient''), (''MUSIC'', ''Music''), (''UI'', ''UI''),
      (''DIALOGUE'', ''Dialogue''), (''DRONE'', ''SFX_Drone''), (''LOOP'', ''Music''),
      (''RISER'', ''SFX_Riser''), (''SLOWMOTION'', ''SFX_Time''), (''SLOW_MOTION'', ''SFX_Time''),
      (''TIMELAPSE'', ''SFX_Time''), (''TIME_LAPSE'', ''SFX_Time''),
      (''TRANSITION'', ''SFX_Transition''), (''WHOOSH'', ''SFX_Whoosh''),
      (''TRADITIONAL'', ''SFX_Traditional''), (''CEREMONIAL'', ''SFX_Traditional''),
      (''STRING'', ''SFX_String''), (''CITY'', ''Ambient''), (''URBAN'', ''Ambient'')]"

definition NormalizeCategory :: "string \<Rightarrow> string" where
  "NormalizeCategory cat =
     (let catUpper = ToUpper cat in
      case map_of CategoryNormalization catUpper of
        Some normalized \<Rightarrow> normalized
      | None \<Rightarrow>
          (if \<not> Contains catUpper ''_'' \<and> \<not> Contains catUpper ''MUSIC'' \<and>
              \<not> Contains catUpper ''AMBIENT''
           then ''SFX_'' @ catUpper
           else cat))"

section \<open>Audio metadata and spectral features\<close>

text \<open>
  \<^verbatim>\<open>float64\<close> values are modelled as exact reals: rounding, infinities and NaN are not
  modelled. Go's \<^verbatim>\<open>int\<close> is modelled as \<^typ>\<open>int\<close>; \<^verbatim>\<open>time.Duration\<close> is a count of
  nanoseconds.
\<close>

record SpectralFeatures =
  LowEnergy :: real
  MidEnergy :: real
  HighEnergy :: real
  ZeroCrossing :: real
  Centroid :: real
  Energy :: real

record AudioMetadata =
  Duration :: int
  SampleRate :: int
  Channels :: int
  BitDepth :: int
  Bitrate :: int
  Format :: string
  Title :: string
  Artist :: string
  Album :: string
  Genre :: string
  Year :: int
  Comment :: string
  HasEmbeddedTags :: bool
  SpectralFeatures :: "SpectralFeatures option"
  Fingerprint :: string

definition Second :: int where
  "Second = 1000000000"

text \<open>The zero value \<^verbatim>\<open>&AudioMetadata{}\<close> and \<^verbatim>\<open>&SpectralFeatures{}\<close>.\<close>

definition zero_meta :: AudioMetadata where
  "zero_meta = \<lparr>Duration = 0, SampleRate = 0, Channels = 0, BitDepth = 0, Bitrate = 0,
     Format = [], Title = [], Artist = [], Album = [], Genre = [], Year = 0, Comment = [],
     HasEmbeddedTags = False, SpectralFeatures = None, Fingerprint = []\<rparr>"

definition zero_features :: SpectralFeatures where
  "zero_features = \<lparr>LowEnergy = 0, MidEnergy = 0, HighEnergy = 0, ZeroCrossing = 0,
     Centroid = 0, Energy = 0\<rparr>"

subsection \<open>\<^verbatim>\<open>calculateSpectralFeatures\<close>\<close>

text \<open>
  A counting loop \<^verbatim>\<open>for i := lo; i < hi; i++\<close> is a fold over \<open>[lo..<hi]\<close>; a
  \<^verbatim>\<open>range\<close> loop over a slice is a fold over the list. The source indexes
  \<^verbatim>\<open>samples[i]\<close> and \<^verbatim>\<open>samples[i-w]\<close> only for \<open>w \<le> i < len(samples)\<close>, so every read is in
  range. The function is modelled for a non-empty sample slice, which is what its caller
  passes (at least 100 samples).
\<close>

definition sign_change :: "real \<Rightarrow> real \<Rightarrow> bool" where
  "sign_change a b = ((a \<ge> 0 \<and> b < 0) \<or> (a < 0 \<and> b \<ge> 0))"

definition count_zero_crossings :: "real list \<Rightarrow> nat" where
  "count_zero_crossings samples =
     fold (\<lambda>i zeroCrossings.
            if sign_change (samples ! (i - 1)) (samples ! i) then zeroCrossings + 1
            else zeroCrossings)
       [1..<length samples] 0"

definition total_energy :: "real list \<Rightarrow> real" where
  "total_energy samples = fold (\<lambda>s totalEnergy. totalEnergy + s * s) samples 0"

definition band_energy :: "nat \<Rightarrow> real list \<Rightarrow> real" where
  "band_energy window samples =
     (if length samples > window
      then fold (\<lambda>i e. let diff = samples ! i - samples ! (i - window) in e + diff * diff)
             [window..<length samples] 0
           / real (length samples - window)
      else 0)"

definition windowLow :: nat where "windowLow = 100"
definition windowMid :: nat where "windowMid = 20"
definition windowHigh :: nat where "windowHigh = 5"

definition centroid_sums :: "real list \<Rightarrow> int \<Rightarrow> real \<times> real" where
  "centroid_sums samples sampleRate =
     fold (\<lambda>i (totalWeighted, totalWeight).
            let freq = real i * real_of_int sampleRate / real (length samples);
                magnitude = \<bar>samples ! i - samples ! (i - 1)\<bar>
            in (totalWeighted + freq * magnitude, totalWeight + magnitude))
       [1..<length samples] (0, 0)"

definition calculateSpectralFeatures :: "real list \<Rightarrow> int \<Rightarrow> SpectralFeatures \<Rightarrow> SpectralFeatures" where
  "calculateSpectralFeatures samples sampleRate features =
     (let (totalWeighted, totalWeight) = centroid_sums samples sampleRate in
      features\<lparr>
        ZeroCrossing := real (count_zero_crossings samples) / real (length samples),
        Energy := total_energy samples / real (length samples),
        LowEnergy := band_energy windowLow samples,
        MidEnergy := band_energy windowMid samples,
        HighEnergy := band_energy windowHigh samples,
        Centroid := (if totalWeight > 0 then totalWeighted / totalWeight
                     else real_of_int sampleRate / 4)\<rparr>)"

text \<open>
  The reference definition of the features, in the words of the specification: for a sample
  sequence \<open>s[0..n)\<close>, the zero-crossing rate is the number of \<open>i\<close> in \<open>[1, n)\<close> at which
  consecutive samples change sign under the \<open>\<ge> 0\<close> versus \<open>< 0\<close> test, divided by \<open>n\<close>; the
  energy is the sum of the squares divided by \<open>n\<close>; the band energy for a window \<open>w\<close> is the sum
  over \<open>i\<close> in \<open>[w, n)\<close> of \<open>(s[i] - s[i-w])\<^sup>2\<close> divided by \<open>n - w\<close> when \<open>n > w\<close>, else zero.
\<close>

definition ref_ZeroCrossing :: "real list \<Rightarrow> real" where
  "ref_ZeroCrossing s =
     real (card {i \<in> {1..<length s}. (s ! (i - 1) \<ge> 0 \<and> s ! i < 0) \<or> (s ! (i - 1) < 0 \<and> s ! i \<ge> 0)})
       / real (length s)"

definition ref_Energy :: "real list \<Rightarrow> real" where
  "ref_Energy s = (\<Sum>i \<in> {0..<length s}. (s ! i)\<^sup>2) / real (length s)"

definition ref_BandEnergy :: "nat \<Rightarrow> real list \<Rightarrow> real" where
  "ref_BandEnergy w s =
     (if length s > w
      then (\<Sum>i \<in> {w..<length s}. (s ! i - s ! (i - w))\<^sup>2) / real (length s - w)
      else 0)"

section \<open>Confidence scoring\<close>

text \<open>
  The score map \<^verbatim>\<open>map[string]float64\<close> is an association list with distinct keys, in order of
  insertion. Reading a missing key gives zero and does not insert; \<^verbatim>\<open>scores[k] += v\<close> reads,
  adds and stores.
\<close>

type_synonym scores = "(string \<times> real) list"

definition score_of :: "scores \<Rightarrow> string \<Rightarrow> real" where
  "score_of scores k = (case map_of scores k of Some v \<Rightarrow> v | None \<Rightarrow> 0)"

fun store_score :: "string \<Rightarrow> real \<Rightarrow> scores \<Rightarrow> scores" where
  "store_score k v [] = [(k, v)]"
| "store_score k v (p # ps) = (if fst p = k then (k, v) # ps else p # store_score k v ps)"

definition add_score :: "string \<Rightarrow> real \<Rightarrow> scores \<Rightarrow> scores" where
  "add_score k v scores = store_score k (score_of scores k + v) scores"

definition InferCategoryWithConfidenceScores :: "string \<Rightarrow> scores" where
  "InferCategoryWithConfidenceScores filename =
     (let nameLower = ToLower filename in
      fold (\<lambda>rule scores.
             if matchCategoryRule nameLower rule
             then add_score (Category rule) (Confidence rule) scores
             else scores)
        CategoryRules [])"

text \<open>\<^verbatim>\<open>ApplyMetadataScoring\<close>, block by block; a nil \<^verbatim>\<open>meta\<close> returns at once.\<close>

definition long_fire_scoring :: "string \<Rightarrow> scores \<Rightarrow> scores" where
  "long_fire_scoring filenameLower scores =
     (if Contains filenameLower ''fire'' \<and> \<not> Contains filenameLower ''gun'' \<and>
         \<not> Contains filenameLower ''weapon'' \<and> \<not> Contains filenameLower ''shot'' \<and>
         \<not> Contains filenameLower ''gunfire'' \<and> \<not> Contains filenameLower ''firearm''
      then (let scores = add_score ''Ambient'' 0.4 scores in
            if score_of scores ''SFX_Weapon'' > 0 then add_score ''SFX_Weapon'' (- 0.3) scores
            else scores)
      else scores)"

definition long_genre_scoring :: "AudioMetadata \<Rightarrow> scores \<Rightarrow> scores" where
  "long_genre_scoring meta scores =
     (if HasEmbeddedTags meta \<and> Genre meta \<noteq> []
      then (if Contains (ToLower (Genre meta)) ''music'' then add_score ''Music'' 0.6 scores
            else scores)
      else scores)"

definition duration_scoring :: "AudioMetadata \<Rightarrow> string \<Rightarrow> scores \<Rightarrow> scores" where
  "duration_scoring meta filenameLower scores =
     (if Duration meta > 0
      then (if Duration meta < 2 * Second then add_score ''SFX_UI'' 0.6 scores
            else if Duration meta < 5 * Second then add_score ''SFX'' 0.4 scores
            else if Duration meta > 30 * Second
            then long_genre_scoring meta
                   (long_fire_scoring filenameLower (add_score ''Ambient'' 0.5 scores))
            else scores)
      else scores)"

definition channel_scoring :: "AudioMetadata \<Rightarrow> scores \<Rightarrow> scores" where
  "channel_scoring meta scores =
     (if Channels meta = 1 then add_score ''SFX'' 0.3 scores
      else if Channels meta \<ge> 5 then add_score ''Ambient'' 0.4 scores
      else scores)"

definition genre_scoring :: "AudioMetadata \<Rightarrow> scores \<Rightarrow> scores" where
  "genre_scoring meta scores =
     (if HasEmbeddedTags meta \<and> Genre meta \<noteq> []
      then (let genreLower = ToLower (Genre meta);
                scores = (if Contains genreLower ''voice'' \<or> Contains genreLower ''dialogue''
                          then add_score ''SFX_Voice'' 0.7 scores else scores);
                scores = (if Contains genreLower ''music''
                          then add_score ''Music'' 0.7 scores else scores)
            in if Contains genreLower ''ambient'' then add_score ''Ambient'' 0.7 scores
               else scores)
      else scores)"

definition ApplyMetadataScoring :: "scores \<Rightarrow> AudioMetadata option \<Rightarrow> string \<Rightarrow> scores" where
  "ApplyMetadataScoring scores meta filenameLower =
     (case meta of
        None \<Rightarrow> scores
      | Some m \<Rightarrow> genre_scoring m (channel_scoring m (duration_scoring m filenameLower scores)))"

text \<open>The spectral block of \<^verbatim>\<open>InferCategoryWithConfidence\<close>.\<close>

definition spectral_scoring :: "SpectralFeatures \<Rightarrow> scores \<Rightarrow> scores" where
  "spectral_scoring sf scores =
     (let scores = (if ZeroCrossing sf > 0.15
                    then add_score ''SFX_Weapon'' 0.3 (add_score ''SFX_Impact'' 0.3 scores)
                    else scores);
          scores = (if LowEnergy sf > 0.1 \<and> LowEnergy sf > MidEnergy sf \<and>
                       LowEnergy sf > HighEnergy sf
                    then add_score ''SFX_Impact'' 0.4 scores else scores);
          scores = (if HighEnergy sf > 0.05 \<and> HighEnergy sf > MidEnergy sf
                    then add_score ''SFX_Impact'' 0.2 (add_score ''SFX_UI'' 0.3 scores)
                    else scores);
          scores = (if LowEnergy sf > 0.01 \<and> MidEnergy sf > 0.01 \<and> HighEnergy sf > 0.01
                    then (let balance = min (LowEnergy sf) (min (MidEnergy sf) (HighEnergy sf)) /
                                        max (LowEnergy sf) (max (MidEnergy sf) (HighEnergy sf))
                          in if balance > 0.3
                             then add_score ''Music'' 0.2 (add_score ''Ambient'' 0.3 scores)
                             else scores)
                    else scores)
      in if Centroid sf < 500 then add_score ''Ambient'' 0.2 scores
         else if Centroid sf > 2000 then add_score ''SFX_UI'' 0.2 scores
         else scores)"

text \<open>
  The selection loop ranges over the map. Go fixes no iteration order for a map, so the order
  is a parameter \<open>iter\<close>: the loop visits the entries \<open>iter scores\<close>, which the theorems take to
  be a rearrangement of the entries of the map.
\<close>

definition find_best :: "scores \<Rightarrow> string \<times> real" where
  "find_best entries =
     fold (\<lambda>(cat, score) (bestCategory, bestScore).
            if score > bestScore then (cat, score) else (bestCategory, bestScore))
       entries (''SFX'', 0)"

record CategoryResult =
  Category :: string
  Confidence :: real

text \<open>Run-time panics of Go, as values.\<close>

datatype panic =
  NilPointerDereference | SliceBoundsOutOfRange | IntegerDivideByZero | MakeSliceLenOutOfRange

text \<open>
  \<^verbatim>\<open>InferCategoryWithConfidence\<close>. \<^verbatim>\<open>ApplyMetadataScoring\<close> accepts a nil \<^verbatim>\<open>meta\<close>; the next
  statement reads \<^verbatim>\<open>meta.SpectralFeatures\<close> with no nil check, which in Go is a run-time panic
  on a nil pointer.
\<close>

definition InferCategoryWithConfidence ::
  "(scores \<Rightarrow> scores) \<Rightarrow> AudioMetadata option \<Rightarrow> string \<Rightarrow> panic + CategoryResult" where
  "InferCategoryWithConfidence iter meta filename =
     (let filenameLower = ToLower filename;
          scores = InferCategoryWithConfidenceScores filename;
          scores = ApplyMetadataScoring scores meta filenameLower
      in case meta of
           None \<Rightarrow> Inl NilPointerDereference
         | Some m \<Rightarrow>
             (let scores = (case SpectralFeatures m of
                              Some sf \<Rightarrow> spectral_scoring sf scores
                            | None \<Rightarrow> scores);
                  (bestCategory, bestScore) = find_best (iter scores);
                  confidence = min (bestScore / 1.5) 1.0;
                  confidence = (if confidence < 0.3 then 0.3 else confidence)
              in Inr \<lparr>Category = bestCategory, Confidence = confidence\<rparr>))"

text \<open>The score map that the selection loop of \<^verbatim>\<open>InferCategoryWithConfidence\<close> ranges over.\<close>

definition accumulated_scores :: "AudioMetadata \<Rightarrow> string \<Rightarrow> scores" where
  "accumulated_scores m filename =
     (let scores = ApplyMetadataScoring (InferCategoryWithConfidenceScores filename) (Some m)
                     (ToLower filename)
      in case SpectralFeatures m of Some sf \<Rightarrow> spectral_scoring sf scores | None \<Rightarrow> scores)"

section \<open>Fingerprints\<close>

subsection \<open>\<^verbatim>\<open>fmt.Sprintf("%d")\<close>\<close>

fun digits :: "nat \<Rightarrow> string" where
  "digits n = (if n < 10 then [''0123456789'' ! n] else digits (n div 10) @ [''0123456789'' ! (n mod 10)])"

declare digits.simps [simp del]

definition Itoa :: "int \<Rightarrow> string" where
  "Itoa i = (if i < 0 then CHR ''-'' # digits (nat (- i)) else digits (nat i))"

subsection \<open>SHA-256 and hexadecimal encoding\<close>

text \<open>
  \<^verbatim>\<open>crypto/sha256.Sum256\<close> and \<^verbatim>\<open>encoding/hex.EncodeToString\<close> are library functions; they are
  written out after FIPS 180-4 and the \<^verbatim>\<open>hex\<close> package, on bytes as \<^typ>\<open>8 word\<close> and
  32-bit words as \<^typ>\<open>32 word\<close>, whose addition wraps. The round constants and the
  initial state are given in decimal.
\<close>

type_synonym byte = "8 word"

definition rotr :: "nat \<Rightarrow> 32 word \<Rightarrow> 32 word" where
  "rotr n x = drop_bit n x OR push_bit (32 - n) x"

definition Ch :: "32 word \<Rightarrow> 32 word \<Rightarrow> 32 word \<Rightarrow> 32 word" where
  "Ch x y z = (x AND y) XOR (NOT x AND z)"

definition Maj :: "32 word \<Rightarrow> 32 word \<Rightarrow> 32 word \<Rightarrow> 32 word" where
  "Maj x y z = (x AND y) XOR (x AND z) XOR (y AND z)"

definition Sigma0 :: "32 word \<Rightarrow> 32 word" where
  "Sigma0 x = rotr 2 x XOR rotr 13 x XOR rotr 22 x"

definition Sigma1 :: "32 word \<Rightarrow> 32 word" where
  "Sigma1 x = rotr 6 x XOR rotr 11 x XOR rotr 25 x"

definition sigma0 :: "32 word \<Rightarrow> 32 word" where
  "sigma0 x = rotr 7 x XOR rotr 18 x XOR drop_bit 3 x"

definition sigma1 :: "32 word \<Rightarrow> 32 word" where
  "sigma1 x = rotr 17 x XOR rotr 19 x XOR drop_bit 10 x"

definition sha256_K :: "32 word list" where
  "sha256_K =
     [1116352408, 1899447441, 3049323471, 3921009573, 961987163, 1508970993, 2453635748,
      2870763221, 3624381080, 310598401, 607225278, 1426881987, 1925078388, 2162078206,
      2614888103, 3248222580, 3835390401, 4022224774, 264347078, 604807628, 770255983,
      1249150122, 1555081692, 1996064986, 2554220882, 2821834349, 2952996808, 3210313671,
      3336571891, 3584528711, 113926993, 338241895, 666307205, 773529912, 1294757372,
      1396182291, 1695183700, 1986661051, 2177026350, 2456956037, 2730485921, 2820302411,
      3259730800, 3345764771, 3516065817, 3600352804, 4094571909, 275423344, 430227734,
      506948616, 659060556, 883997877, 958139571, 1322822218, 1537002063, 1747873779,
      1955562222, 2024104815, 2227730452, 2361852424, 2428436474, 2756734187, 3204031479,
      3329325298]"

type_synonym sha_state =
  "32 word \<times> 32 word \<times> 32 word \<times> 32 word \<times> 32 word \<times> 32 word \<times> 32 word \<times> 32 word"

definition sha256_init :: sha_state where
  "sha256_init =
     (1779033703, 3144134277, 1013904242, 2773480762, 1359893119, 2600822924, 528734635,
      1541459225)"

definition be32 :: "byte list \<Rightarrow> 32 word" where
  "be32 bs = fold (\<lambda>b w. push_bit 8 w OR ucast b) bs 0"

definition bytes_of_word32 :: "32 word \<Rightarrow> byte list" where
  "bytes_of_word32 w = [ucast (drop_bit 24 w), ucast (drop_bit 16 w), ucast (drop_bit 8 w), ucast w]"

definition bytes_of_len64 :: "nat \<Rightarrow> byte list" where
  "bytes_of_len64 n = map (\<lambda>i. ucast (drop_bit (8 * (7 - i)) (of_nat n :: 64 word))) [0..<8]"

definition sha256_pad :: "byte list \<Rightarrow> byte list" where
  "sha256_pad msg =
     msg @ [0x80] @ replicate ((64 - (length msg + 9) mod 64) mod 64) 0 @
     bytes_of_len64 (8 * length msg)"

fun chunks :: "nat \<Rightarrow> 'a list \<Rightarrow> 'a list list" where
  "chunks n xs = (if n = 0 \<or> xs = [] then [] else take n xs # chunks n (drop n xs))"

declare chunks.simps [simp del]

definition schedule :: "byte list \<Rightarrow> 32 word list" where
  "schedule block =
     fold (\<lambda>t W. W @ [sigma1 (W ! (t - 2)) + W ! (t - 7) + sigma0 (W ! (t - 15)) + W ! (t - 16)])
       [16..<64] (map be32 (chunks 4 block))"

definition sha256_round :: "32 word list \<Rightarrow> nat \<Rightarrow> sha_state \<Rightarrow> sha_state" where
  "sha256_round W t st =
     (case st of (a, b, c, d, e, f, g, h) \<Rightarrow>
        (let T1 = h + Sigma1 e + Ch e f g + sha256_K ! t + W ! t;
             T2 = Sigma0 a + Maj a b c
         in (T1 + T2, a, b, c, d + T1, e, f, g)))"

definition sha256_block :: "byte list \<Rightarrow> sha_state \<Rightarrow> sha_state" where
  "sha256_block block st =
     (case (st, fold (sha256_round (schedule block)) [0..<64] st) of
        ((a, b, c, d, e, f, g, h), (a', b', c', d', e', f', g', h')) \<Rightarrow>
          (a + a', b + b', c + c', d + d', e + e', f + f', g + g', h + h'))"

definition Sum256 :: "byte list \<Rightarrow> byte list" where
  "Sum256 msg =
     (case fold sha256_block (chunks 64 (sha256_pad msg)) sha256_init of
        (a, b, c, d, e, f, g, h) \<Rightarrow> concat (map bytes_of_word32 [a, b, c, d, e, f, g, h]))"

definition hex_digit :: "nat \<Rightarrow> char" where
  "hex_digit n = ''0123456789abcdef'' ! n"

definition EncodeToString :: "byte list \<Rightarrow> string" where
  "EncodeToString bs = concat (map (\<lambda>b. [hex_digit (unat b div 16), hex_digit (unat b mod 16)]) bs)"

definition bytes_of_string :: "string \<Rightarrow> byte list" where
  "bytes_of_string s = map of_char s"

subsection \<open>\<^verbatim>\<open>generateFingerprint\<close>\<close>

text \<open>
  \<^verbatim>\<open>int(meta.Duration.Seconds())\<close>. \<^verbatim>\<open>Duration.Seconds\<close> of the Go library is

  \<^verbatim>\<open>sec := d / Second; nsec := d % Second; return float64(sec) + float64(nsec)/1e9\<close>

  with Go's integer division, which truncates toward zero, and \<^verbatim>\<open>float64\<close> arithmetic: every
  conversion, the quotient and the sum are rounded to the nearest value with a significand of
  53 bits, ties to the even significand. \<open>float64_round\<close> is that rounding on the reals; the
  exponent range of the format is left out, since the values here are zero or of magnitude
  between \<open>2\<^sup>-\<^sup>3\<^sup>0\<close> and \<open>2\<^sup>3\<^sup>4\<close>. The conversion \<^verbatim>\<open>int(f)\<close> drops the fraction.
\<close>

definition round_even :: "real \<Rightarrow> int" where
  "round_even x =
     (let f = \<lfloor>x\<rfloor>; r = x - real_of_int f
      in if r < 1 / 2 then f else if 1 / 2 < r then f + 1 else if even f then f else f + 1)"

definition float64_round :: "real \<Rightarrow> real" where
  "float64_round x =
     (if x = 0 then 0
      else (let e = \<lfloor>log 2 \<bar>x\<bar>\<rfloor>; ulp = 2 powi (e - 52)
            in real_of_int (round_even (x / ulp)) * ulp))"

definition float64_of_int :: "int \<Rightarrow> real" where
  "float64_of_int n = float64_round (real_of_int n)"

definition int_of_float64 :: "real \<Rightarrow> int" where
  "int_of_float64 x = (if 0 \<le> x then \<lfloor>x\<rfloor> else \<lceil>x\<rceil>)"

definition Seconds :: "int \<Rightarrow> real" where
  "Seconds d =
     (let sec = sgn d * (\<bar>d\<bar> div Second);
          nsec = sgn d * (\<bar>d\<bar> mod Second)
      in float64_round (float64_of_int sec +
           float64_round (float64_of_int nsec / float64_of_int 1000000000)))"

definition duration_seconds :: "int \<Rightarrow> int" where
  "duration_seconds d = int_of_float64 (Seconds d)"

definition fingerprint_data :: "AudioMetadata \<Rightarrow> string" where
  "fingerprint_data meta =
     Itoa (SampleRate meta) @ ''|'' @ Itoa (Channels meta) @ ''|'' @ Itoa (BitDepth meta) @ ''|'' @
     Itoa (duration_seconds (Duration meta)) @ ''|'' @ Format meta @ ''|'' @ Title meta"

definition generateFingerprint :: "AudioMetadata \<Rightarrow> string" where
  "generateFingerprint meta =
     (let fpData = fingerprint_data meta;
          hash = Sum256 (bytes_of_string fpData)
      in EncodeToString (take 16 hash))"

section \<open>The feature extractor\<close>

subsection \<open>Paths\<close>

text \<open>
  \<^verbatim>\<open>filepath.Ext\<close> scans the path from its end, stops at a path separator and returns the
  suffix that starts at the last dot of the last element, or the empty string.
  \<^verbatim>\<open>filepath.Base\<close> returns the last element. The separator is \<^verbatim>\<open>/\<close>.
\<close>

fun ext_scan :: "string \<Rightarrow> string \<Rightarrow> string" where
  "ext_scan [] acc = []"
| "ext_scan (c # rest) acc =
     (if c = CHR ''/'' then []
      else if c = CHR ''.'' then c # acc
      else ext_scan rest (c # acc))"

definition Ext :: "string \<Rightarrow> string" where
  "Ext path = ext_scan (rev path) []"

definition Base :: "string \<Rightarrow> string" where
  "Base path =
     (if path = [] then ''.''
      else (let p = rev (dropWhile (\<lambda>c. c = CHR ''/'') (rev path));
                b = rev (takeWhile (\<lambda>c. c \<noteq> CHR ''/'') (rev p))
            in if b = [] then ''/'' else b))"

subsection \<open>What the operating system and the decoding libraries answer\<close>

text \<open>
  Opening, seeking, \<^verbatim>\<open>tag.ReadFrom\<close> and the \<^verbatim>\<open>wav.Decoder\<close> are outside the repository.
  Their answers for one file are collected in a record; the extractor is a function of it.
  The header fields of a WAV file are unsigned (\<^verbatim>\<open>uint16\<close> channels, \<^verbatim>\<open>uint32\<close> sample
  rate), and the decoder converts them to \<^verbatim>\<open>int\<close>. Each call of \<^verbatim>\<open>PCMBuffer\<close> overwrites a
  prefix of the caller's buffer and returns a count \<open>n\<close> and possibly an error; when the answers
  are used up the data is at its end and the call returns \<open>n = 0\<close>.
\<close>

record embedded_tags =
  tag_Title :: string
  tag_Artist :: string
  tag_Album :: string
  tag_Genre :: string
  tag_Year :: int
  tag_Comment :: string
  tag_Format :: string

record wav_format =
  NumChannels :: "16 word"
  fmt_SampleRate :: "32 word"

record pcm_read =
  pcm_data :: "int list"
  pcm_n :: int
  pcm_err :: bool

record file_io =
  open_ok :: bool
  read_tags :: "embedded_tags option"
  seek_ok :: bool
  is_valid_wav :: bool
  decoder_format :: "wav_format option"
  decoder_duration :: "int option"
  stat_size :: "int option"
  seek_again_ok :: bool
  is_valid_wav_again :: bool
  pcm_buffers :: "pcm_read list"
  read_tags_again :: "embedded_tags option"

datatype error =
  FailedToOpen | FailedToSeek | InvalidWAV | MissingFormatInfo | NotEnoughSamples | TagReadFailed

datatype failure = Error error | Panic panic

subsection \<open>\<^verbatim>\<open>readEmbeddedTags\<close>, \<^verbatim>\<open>analyzeWAV\<close>, \<^verbatim>\<open>analyzeCompressed\<close>\<close>

definition readEmbeddedTags :: "file_io \<Rightarrow> AudioMetadata \<Rightarrow> error + AudioMetadata" where
  "readEmbeddedTags io meta =
     (case read_tags io of
        None \<Rightarrow> Inl TagReadFailed
      | Some m \<Rightarrow>
          Inr (meta\<lparr>HasEmbeddedTags := True, Title := tag_Title m, Artist := tag_Artist m,
                    Album := tag_Album m, Genre := tag_Genre m, Year := tag_Year m,
                    Comment := tag_Comment m, Format := tag_Format m\<rparr>))"

text \<open>
  The fallback estimate of the duration divides by the channel count of the header times the
  bytes per sample; an integer division by zero is a run-time panic in Go.
\<close>

definition estimate_duration :: "file_io \<Rightarrow> wav_format \<Rightarrow> AudioMetadata \<Rightarrow> panic + AudioMetadata" where
  "estimate_duration io format meta =
     (case stat_size io of
        None \<Rightarrow> Inr meta
      | Some fileSize \<Rightarrow>
          (let bytesPerSample = BitDepth meta div 8 in
           if bytesPerSample > 0
           then (let dataSize = fileSize - 44 in
                 if dataSize > 0
                 then (if uint (NumChannels format) * bytesPerSample = 0
                       then Inl IntegerDivideByZero
                       else (let totalSamples =
                                   dataSize div (uint (NumChannels format) * bytesPerSample)
                             in if totalSamples > 0
                                then Inr (meta\<lparr>Duration :=
                                       \<lfloor>real_of_int totalSamples /
                                          real_of_int (uint (fmt_SampleRate format)) *
                                          real_of_int Second\<rfloor>\<rparr>)
                                else Inr meta))
                 else Inr meta)
           else Inr meta))"

definition wav_duration :: "file_io \<Rightarrow> AudioMetadata \<Rightarrow> panic + AudioMetadata" where
  "wav_duration io meta =
     (case decoder_format io of
        Some format \<Rightarrow>
          (if uint (fmt_SampleRate format) > 0
           then (case decoder_duration io of
                   Some duration \<Rightarrow>
                     (if duration > 0 then Inr (meta\<lparr>Duration := duration\<rparr>)
                      else estimate_duration io format meta)
                 | None \<Rightarrow> estimate_duration io format meta)
           else Inr meta)
      | None \<Rightarrow> Inr meta)"

definition analyzeWAV :: "file_io \<Rightarrow> AudioMetadata \<Rightarrow> failure + AudioMetadata" where
  "analyzeWAV io meta =
     (if \<not> is_valid_wav io then Inl (Error InvalidWAV)
      else (let meta = meta\<lparr>Format := ''WAV''\<rparr>;
                meta = (case decoder_format io of
                          Some format \<Rightarrow>
                            meta\<lparr>SampleRate := uint (fmt_SampleRate format),
                                 Channels := uint (NumChannels format), BitDepth := 16\<rparr>
                        | None \<Rightarrow> meta)
            in case wav_duration io meta of
                 Inl p \<Rightarrow> Inl (Panic p)
               | Inr meta \<Rightarrow>
                   (let meta = (if SampleRate meta > 0 \<and> Channels meta > 0 \<and> BitDepth meta > 0
                                then meta\<lparr>Bitrate :=
                                       SampleRate meta * Channels meta * BitDepth meta\<rparr>
                                else meta)
                    in Inr (meta\<lparr>Fingerprint := generateFingerprint meta\<rparr>))))"

definition analyzeCompressed :: "file_io \<Rightarrow> AudioMetadata \<Rightarrow> error + AudioMetadata" where
  "analyzeCompressed io meta =
     (case read_tags_again io of
        None \<Rightarrow> Inl TagReadFailed
      | Some m \<Rightarrow>
          (let meta = (if tag_Format m \<noteq> [] then meta\<lparr>Format := tag_Format m\<rparr> else meta) in
           if Bitrate meta > 0
           then (case stat_size io of
                   Some fileSize \<Rightarrow>
                     Inr (meta\<lparr>Duration :=
                            \<lfloor>real_of_int (fileSize * 8) / real_of_int (Bitrate meta)
                               * real_of_int Second\<rfloor>\<rparr>)
                 | None \<Rightarrow> Inr meta)
           else Inr meta))"

subsection \<open>\<^verbatim>\<open>analyzeSpectral\<close>\<close>

text \<open>
  The inner loop turns the frames of one buffer into samples: the first channel for mono,
  the mean of the first two channels otherwise, divided by 32768. The counter
  \<^verbatim>\<open>samplesRead\<close> is kept next to the sample slice, as in the source.
\<close>

definition frame_sample :: "int \<Rightarrow> int list \<Rightarrow> nat \<Rightarrow> real" where
  "frame_sample channels buf idx =
     (if channels = 1 then real_of_int (buf ! idx) / 32768
      else (let val = real_of_int (buf ! idx);
                val = (if idx + 1 < length buf then (val + real_of_int (buf ! (idx + 1))) / 2
                       else val)
            in val / 32768))"

function convert_frames ::
  "nat \<Rightarrow> int \<Rightarrow> int \<Rightarrow> int \<Rightarrow> int list \<Rightarrow> real list \<times> int \<Rightarrow> real list \<times> int" where
  "convert_frames i n maxSamples channels buf (samples, samplesRead) =
     (if int i < n \<and> samplesRead < maxSamples
      then (let idx = int i * channels in
            if idx \<ge> int (length buf) then (samples, samplesRead)
            else convert_frames (i + 1) n maxSamples channels buf
                   (samples @ [frame_sample channels buf (nat idx)], samplesRead + 1))
      else (samples, samplesRead))"
  by pat_completeness auto
termination
  by (relation "measure (\<lambda>(i, n, maxSamples, channels, buf, acc). nat (n - int i))") auto

declare convert_frames.simps [simp del]

text \<open>
  The outer loop asks the decoder for buffers while fewer than \<^verbatim>\<open>maxSamples\<close> samples have
  been read, and stops at an error or at \<open>n = 0\<close>.
\<close>

definition write_buffer :: "int list \<Rightarrow> int list \<Rightarrow> int list" where
  "write_buffer decoded buf = take (length buf) decoded @ drop (length decoded) buf"

fun read_samples ::
  "pcm_read list \<Rightarrow> int \<Rightarrow> int \<Rightarrow> int list \<Rightarrow> real list \<times> int \<Rightarrow> real list \<times> int" where
  "read_samples [] maxSamples channels buf (samples, samplesRead) = (samples, samplesRead)"
| "read_samples (r # rs) maxSamples channels buf (samples, samplesRead) =
     (if samplesRead < maxSamples
      then (if pcm_err r \<or> pcm_n r = 0 then (samples, samplesRead)
            else (let buf = write_buffer (pcm_data r) buf in
                  read_samples rs maxSamples channels buf
                    (convert_frames 0 (pcm_n r) maxSamples channels buf (samples, samplesRead))))
      else (samples, samplesRead))"

definition max_samples :: "AudioMetadata \<Rightarrow> int" where
  "max_samples meta =
     (let maxSamples = 8192;
          maxSamples = (if SampleRate meta > 0 then SampleRate meta * 2 else maxSamples)
      in if maxSamples > 8192 then 8192 else maxSamples)"

definition spectral_samples :: "file_io \<Rightarrow> AudioMetadata \<Rightarrow> real list" where
  "spectral_samples io meta =
     fst (read_samples (pcm_buffers io) (max_samples meta) (Channels meta)
            (replicate (nat (max_samples meta * Channels meta)) 0) ([], 0))"

text \<open>
  \<^verbatim>\<open>analyzeSpectral\<close>. A negative length given to \<^verbatim>\<open>make\<close> is a run-time panic; the
  metadata that \<^verbatim>\<open>analyzeWAV\<close> fills in has a channel count from an unsigned header field.
\<close>

definition analyzeSpectral :: "file_io \<Rightarrow> AudioMetadata \<Rightarrow> failure + AudioMetadata" where
  "analyzeSpectral io meta =
     (if SampleRate meta = 0 \<or> Channels meta = 0 then Inl (Error MissingFormatInfo)
      else if \<not> is_valid_wav_again io then Inl (Error InvalidWAV)
      else if max_samples meta * Channels meta < 0 then Inl (Panic MakeSliceLenOutOfRange)
      else (let samples = spectral_samples io meta in
            if length samples < 100 then Inl (Error NotEnoughSamples)
            else Inr (meta\<lparr>SpectralFeatures :=
                        Some (calculateSpectralFeatures samples (SampleRate meta) zero_features)\<rparr>)))"

subsection \<open>\<^verbatim>\<open>AnalyzeFile\<close>\<close>

text \<open>
  The result is the metadata, an error value, or a panic: \<^verbatim>\<open>ext[1:]\<close> on an empty extension
  is a slice out of range.
\<close>

definition drop_dot :: "string \<Rightarrow> panic + string" where
  "drop_dot ext = (if length ext < 1 then Inl SliceBoundsOutOfRange else Inr (drop 1 ext))"

definition AnalyzeFile :: "file_io \<Rightarrow> string \<Rightarrow> failure + AudioMetadata" where
  "AnalyzeFile io filePath =
     (let meta = zero_meta in
      if \<not> open_ok io then Inl (Error FailedToOpen)
      else (let meta = (case readEmbeddedTags io meta of Inr m \<Rightarrow> m | Inl e \<Rightarrow> meta) in
            if \<not> seek_ok io then Inl (Error FailedToSeek)
            else (let ext = ToLower (Ext filePath) in
                  if ext = ''.wav''
                  then (case analyzeWAV io meta of
                          Inl f \<Rightarrow>
                            (case f of Error e \<Rightarrow> Inl (Error e) | Panic p \<Rightarrow> Inl (Panic p))
                        | Inr meta \<Rightarrow>
                            (if seek_again_ok io
                             then (case analyzeSpectral io meta of
                                     Inr m \<Rightarrow> Inr m
                                   | Inl f \<Rightarrow>
                                       (case f of Error e \<Rightarrow> Inr meta
                                        | Panic p \<Rightarrow> Inl (Panic p)))
                             else Inr meta))
                  else if ext \<in> set [''.mp3'', ''.ogg'', ''.flac'', ''.aac'', ''.m4a'', ''.wma'']
                  then (case analyzeCompressed io meta of
                          Inr m \<Rightarrow> Inr m
                        | Inl e \<Rightarrow>
                            (case drop_dot ext of
                               Inl p \<Rightarrow> Inl (Panic p)
                             | Inr f \<Rightarrow> Inr (meta\<lparr>Format := f\<rparr>)))
                  else (case drop_dot ext of
                          Inl p \<Rightarrow> Inl (Panic p)
                        | Inr f \<Rightarrow> Inr (meta\<lparr>Format := f\<rparr>)))))"

subsection \<open>The samples of the spectral pass, as documented\<close>



section \<open>File records\<close>

subsection \<open>\<^verbatim>\<open>GenerateAudioTags\<close>\<close>

text \<open>
  \<^verbatim>\<open>meta.SampleRate/1000\<close> is Go's truncating division on a positive sample rate, where it
  agrees with \<open>div\<close>.
\<close>

definition duration_tags :: "AudioMetadata \<Rightarrow> string list" where
  "duration_tags meta =
     (if Duration meta > 0
      then (if Duration meta < 1 * Second then [''short'', ''<1s'']
            else if Duration meta < 5 * Second then [''short'', ''1-5s'']
            else if Duration meta < 30 * Second then [''medium'', ''5-30s'']
            else [''long'', ''>30s''])
      else [])"

definition channel_tags :: "AudioMetadata \<Rightarrow> string list" where
  "channel_tags meta =
     (if Channels meta = 1 then [''mono'']
      else if Channels meta = 2 then [''stereo'']
      else if Channels meta > 2 then [''multichannel'', Itoa (Channels meta) @ ''ch'']
      else [])"

definition rate_tags :: "AudioMetadata \<Rightarrow> string list" where
  "rate_tags meta =
     (if SampleRate meta > 0
      then (if SampleRate meta \<ge> 48000 then [''hq'', Itoa (SampleRate meta div 1000) @ ''kHz'']
            else [Itoa (SampleRate meta div 1000) @ ''kHz''])
      else [])"

definition depth_tags :: "AudioMetadata \<Rightarrow> string list" where
  "depth_tags meta =
     (if BitDepth meta \<ge> 24 then [''hq'', Itoa (BitDepth meta) @ ''bit''] else [])"

definition bitrate_tags :: "AudioMetadata \<Rightarrow> string list" where
  "bitrate_tags meta =
     (if Bitrate meta > 0
      then (if Bitrate meta \<ge> 320000 then [''hq'', ''high-bitrate''] else [])
      else [])"

definition embedded_tag_tags :: "AudioMetadata \<Rightarrow> string list" where
  "embedded_tag_tags meta =
     (if HasEmbeddedTags meta
      then (if Genre meta \<noteq> [] then [''tagged'', ''genre:'' @ ToLower (Genre meta)]
            else [''tagged''])
      else [])"

text \<open>The tags are appended block after block, in the order of the source.\<close>

definition GenerateAudioTags :: "AudioMetadata \<Rightarrow> string list" where
  "GenerateAudioTags meta =
     (let tags = [];
          tags = tags @ duration_tags meta;
          tags = tags @ channel_tags meta;
          tags = tags @ rate_tags meta;
          tags = tags @ depth_tags meta;
          tags = tags @ bitrate_tags meta
      in tags @ embedded_tag_tags meta)"

subsection \<open>More string functions\<close>

text \<open>
  \<^verbatim>\<open>strings.TrimSuffix\<close>, \<^verbatim>\<open>strings.Split\<close> and \<^verbatim>\<open>strings.SplitN(s, sep, 2)\<close> on a
  one-byte separator, \<^verbatim>\<open>strings.Join\<close>, \<^verbatim>\<open>strings.ReplaceAll\<close> of one byte by another and
  \<^verbatim>\<open>strings.Fields\<close> on ASCII white space.
\<close>

definition TrimSuffix :: "string \<Rightarrow> string \<Rightarrow> string" where
  "TrimSuffix s suf = (if HasSuffix s suf then take (length s - length suf) s else s)"

fun Split :: "string \<Rightarrow> char \<Rightarrow> string list" where
  "Split [] sep = [[]]"
| "Split (c # s) sep =
     (if c = sep then [] # Split s sep
      else (case Split s sep of p # ps \<Rightarrow> (c # p) # ps | [] \<Rightarrow> [[c]]))"

definition SplitN2 :: "string \<Rightarrow> char \<Rightarrow> string list" where
  "SplitN2 s sep =
     (let before = takeWhile (\<lambda>c. c \<noteq> sep) s in
      if length before < length s then [before, drop (length before + 1) s] else [s])"

fun Join :: "string list \<Rightarrow> string \<Rightarrow> string" where
  "Join [] sep = []"
| "Join [p] sep = p"
| "Join (p # q # ps) sep = p @ sep @ Join (q # ps) sep"

definition ReplaceAll :: "string \<Rightarrow> char \<Rightarrow> char \<Rightarrow> string" where
  "ReplaceAll s old new = map (\<lambda>c. if c = old then new else c) s"

definition is_space :: "char \<Rightarrow> bool" where
  "is_space c = (c \<in> set [CHR 0x09, CHR 0x0A, CHR 0x0B, CHR 0x0C, CHR 0x0D, CHR '' ''])"

fun fields_from :: "string \<Rightarrow> string \<Rightarrow> string list" where
  "fields_from [] word = (if word = [] then [] else [word])"
| "fields_from (c # s) word =
     (if is_space c then (if word = [] then fields_from s [] else word # fields_from s [])
      else fields_from s (word @ [c]))"

definition Fields :: "string \<Rightarrow> string list" where
  "Fields s = fields_from s []"

text \<open>
  The pattern \<^verbatim>\<open>\.(\d+)$\<close>: a dot followed by one or more ASCII digits up to the end of the
  name. The scan runs over the reversed name and returns the digits (the submatch), if any.
\<close>

definition is_digit :: "char \<Rightarrow> bool" where
  "is_digit c = (48 \<le> (of_char c :: nat) \<and> (of_char c :: nat) \<le> 57)"

fun id_scan :: "string \<Rightarrow> string \<Rightarrow> string option" where
  "id_scan [] ds = None"
| "id_scan (c # rest) ds =
     (if is_digit c then id_scan rest (c # ds)
      else if c = CHR ''.'' \<and> ds \<noteq> [] then Some ds
      else None)"

definition FindIdSubmatch :: "string \<Rightarrow> string option" where
  "FindIdSubmatch name = id_scan (rev name) []"

subsection \<open>Records and filename parsing\<close>

record AudioFile =
  OriginalPath :: string
  OriginalName :: string
  Category :: string
  SubCategory :: string
  Source :: string
  ID :: string
  NewName :: string
  Tags :: "string list"
  AudioMeta :: "AudioMetadata option"

definition contains_any :: "string \<Rightarrow> string list \<Rightarrow> bool" where
  "contains_any s keywords = list_ex (Contains s) keywords"

text \<open>
  The methods \<^verbatim>\<open>inferCategory\<close> and \<^verbatim>\<open>normalizeCategory\<close> of the processor, which
  \<^verbatim>\<open>parseFile\<close> calls in \<^verbatim>\<open>processor.go\<close>: a chain of keyword tests, and a lookup that
  uppercases its argument first.
\<close>

definition inferCategory :: "string \<Rightarrow> string" where
  "inferCategory name =
     (let nameLower = ToLower name in
      if contains_any nameLower
           [''scream'', ''voice'', ''dialogue'', ''speech'', ''male'', ''female'', ''grunt'', ''groan'']
      then ''SFX_Voice''
      else if contains_any nameLower
           [''creature'', ''monster'', ''animal'', ''beast'', ''roar'', ''growl'', ''howl'', ''moan'']
      then ''SFX_Creature''
      else if contains_any nameLower
           [''gun'', ''weapon'', ''shot'', ''bullet'', ''sword'', ''slash'', ''hit'', ''punch'',
            ''combat'', ''gunfire'', ''firearm'']
      then ''SFX_Weapon''
      else if Contains nameLower ''fire'' \<and>
              contains_any nameLower [''gun'', ''weapon'', ''shot'', ''gunfire'', ''firearm'']
      then ''SFX_Weapon''
      else if contains_any nameLower
           [''explosion'', ''explode'', ''impact'', ''crash'', ''slam'', ''thud'', ''bang'', ''boom'']
      then ''SFX_Impact''
      else if contains_any nameLower [''footstep'', ''step'', ''walk'', ''run'', ''jump'', ''land'']
      then ''SFX_Footstep''
      else if contains_any nameLower
           [''wind'', ''rain'', ''thunder'', ''storm'', ''water'', ''ocean'', ''forest'', ''nature'',
            ''atmos'', ''atmosphere'', ''ambient'', ''ambience'', ''flame'', ''flames'', ''burning'',
            ''ember'', ''campfire'', ''bonfire''] \<or>
           (nameLower = ''fire'' \<or> HasPrefix nameLower ''fire '' \<or> HasSuffix nameLower '' fire'')
      then ''Ambient''
      else if contains_any nameLower
           [''vehicle'', ''car'', ''engine'', ''motor'', ''tire'', ''wheel'', ''drive'', ''vehicle'']
      then ''SFX_Vehicle''
      else if contains_any nameLower
           [''ui'', ''interface'', ''button'', ''click'', ''select'', ''hover'', ''menu'',
            ''notification'']
      then ''SFX_UI''
      else if contains_any nameLower [''alarm'', ''alert'', ''siren'', ''warning'', ''beep'', ''buzz'']
      then ''SFX_Alarm''
      else if contains_any nameLower
           [''mechanical'', ''machine'', ''gear'', ''motor'', ''whir'', ''clank'']
      then ''SFX_Mechanical''
      else if contains_any nameLower [''door'', ''open'', ''close'', ''creak'', ''squeak'', ''hinge'']
      then ''SFX_Object''
      else if contains_any nameLower
           [''drum'', ''percussion'', ''beat'', ''kick'', ''snare'', ''cymbal'']
      then ''SFX_Percussion''
      else ''SFX'')"

definition categoryMap :: "(string \<times> string) list" where
  "categoryMap =
     [(''PE'', ''SFX_Percussion''), (''PERCUSSION'', ''SFX_Percussion''), (''SFX'', ''SFX''),
      (''VOICE'', ''SFX_Voice''), (''CREATURE'', ''SFX_Creature''), (''WEAPON'', ''SFX_Weapon''),
      (''IMPACT'', ''SFX_Impact''), (''FOOTSTEP'', ''SFX_Footstep''),
      (''VEHICLE'', ''SFX_Vehicle''), (''ALARM'', ''SFX_Alarm''),
      (''MECHANICAL'', ''SFX_Mechanical''), (''OBJECT'', ''SFX_Object''),
      (''AMBIENT'', ''Ambient''), (''MUSIC'', ''Music''), (''UI'', ''UI''),
      (''DIALOGUE'', ''Dialogue'')]"

definition normalizeCategory :: "string \<Rightarrow> string" where
  "normalizeCategory cat =
     (let cat = ToUpper cat in
      case map_of categoryMap cat of
        Some normalized \<Rightarrow> normalized
      | None \<Rightarrow>
          (if \<not> Contains cat ''_'' \<and> \<not> Contains cat ''Music'' \<and> \<not> Contains cat ''Ambient''
           then ''SFX_'' @ cat
           else cat))"

definition generateTags :: "AudioFile \<Rightarrow> string list" where
  "generateTags af =
     (let tags = [];
          tags = (if Category af \<noteq> [] then tags @ [Category af] else tags);
          tags = (if SubCategory af \<noteq> []
                  then (let subCatLower = ToLower (SubCategory af);
                            words = Fields (ReplaceAll subCatLower CHR ''_'' CHR '' '')
                        in tags @ filter (\<lambda>word. length word > 2) words)
                  else tags);
          tags = (if Source af \<noteq> [] then tags @ [''src:'' @ Source af] else tags);
          nameLower = ToLower (OriginalName af);
          tags = (if Contains nameLower ''lfe'' then tags @ [''lfe'', ''low-frequency'']
                  else tags);
          tags = (if Contains nameLower ''processed'' then tags @ [''processed'', ''fx'']
                  else tags)
      in if Contains nameLower ''attacked'' \<or> Contains nameLower ''pain''
         then tags @ [''combat'', ''damage'']
         else tags)"

text \<open>
  \<^verbatim>\<open>parseFile\<close>. The repository holds the function twice, with the same body up to the two
  functions it calls for the category: the methods above in \<^verbatim>\<open>processor.go\<close>, and the shared
  \<^verbatim>\<open>InferCategory\<close> and \<^verbatim>\<open>NormalizeCategory\<close> in the copy that was refactored onto the rule
  table. The body is written once, over the two callees, in the blocks of the source: the ID
  at the end of the name, the source after the last underscore, the category.
\<close>

definition parse_id :: "AudioFile \<Rightarrow> string \<Rightarrow> AudioFile \<times> string" where
  "parse_id af name =
     (case FindIdSubmatch name of
        Some d \<Rightarrow> (let af = af\<lparr>ID := d\<rparr> in (af, TrimSuffix name (''.'' @ ID af)))
      | None \<Rightarrow> (af, name))"

definition parse_source :: "AudioFile \<Rightarrow> string \<Rightarrow> AudioFile \<times> string" where
  "parse_source af name =
     (let parts = Split name CHR ''_'' in
      if length parts > 1
      then (af\<lparr>Source := last parts\<rparr>, Join (butlast parts) ''_'')
      else (af, name))"

definition parse_category :: "(string \<Rightarrow> string) \<Rightarrow> AudioFile \<Rightarrow> string \<Rightarrow> AudioFile" where
  "parse_category infer_cat af name =
     (if Contains name ''-''
      then (let catParts = SplitN2 name CHR ''-'';
                af = af\<lparr>Category := catParts ! 0\<rparr>
            in if length catParts > 1 then af\<lparr>SubCategory := catParts ! 1\<rparr> else af)
      else af\<lparr>Category := infer_cat name, SubCategory := name\<rparr>)"

definition parseFile_with ::
  "(string \<Rightarrow> string) \<Rightarrow> (string \<Rightarrow> string) \<Rightarrow> AudioFile \<Rightarrow> AudioFile" where
  "parseFile_with infer_cat normalize_cat af =
     (let name = TrimSuffix (OriginalName af) (Ext (OriginalName af));
          (af, name) = parse_id af name;
          (af, name) = parse_source af name;
          af = parse_category infer_cat af name;
          af = af\<lparr>Category := normalize_cat (Category af)\<rparr>
      in af\<lparr>Tags := generateTags af\<rparr>)"

definition parseFile :: "AudioFile \<Rightarrow> AudioFile" where
  "parseFile = parseFile_with inferCategory normalizeCategory"

definition parseFile_refactored :: "AudioFile \<Rightarrow> AudioFile" where
  "parseFile_refactored = parseFile_with InferCategory NormalizeCategory"

section \<open>The analysis pipeline\<close>

text \<open>
  The processor state: the records and the map from fingerprint to record indices, an
  association list with distinct keys. (The configuration and the analyzer handle take no part
  in the stages modelled here.)
\<close>

record AudioProcessor =
  audioFiles :: "AudioFile list"
  fingerprints :: "(string \<times> nat list) list"

definition extensions :: "string list" where
  "extensions = [''.wav'', ''.mp3'', ''.ogg'', ''.flac'', ''.aac'', ''.m4a'', ''.wma'']"

text \<open>
  \<^verbatim>\<open>scanFiles\<close>, over the paths of the regular files that the directory walk visits, in the
  order of the walk.
\<close>

definition new_record :: "string \<Rightarrow> AudioFile" where
  "new_record path = \<lparr>OriginalPath = path, OriginalName = Base path, Category = [],
     SubCategory = [], Source = [], ID = [], NewName = [], Tags = [], AudioMeta = None\<rparr>"

definition scanFiles :: "string list \<Rightarrow> AudioFile list" where
  "scanFiles paths =
     fold (\<lambda>path files.
            if ToLower (Ext path) \<in> set extensions then files @ [new_record path] else files)
       paths []"

text \<open>
  A worker answers one job with one result: the error of \<^verbatim>\<open>AnalyzeFile\<close>, or the metadata
  with the tags and the category derived from it. A panic ends the program.
\<close>

record analysis_result =
  r_index :: nat
  r_meta :: "AudioMetadata option"
  r_tags :: "string list"
  r_cat :: string
  r_err :: "error option"

definition worker ::
  "(scores \<Rightarrow> scores) \<Rightarrow> (string \<Rightarrow> file_io) \<Rightarrow> nat \<Rightarrow> AudioFile \<Rightarrow> panic + analysis_result" where
  "worker iter fs i file =
     (case AnalyzeFile (fs (OriginalPath file)) (OriginalPath file) of
        Inl f \<Rightarrow>
          (case f of
             Error e \<Rightarrow> Inr \<lparr>r_index = i, r_meta = None, r_tags = [], r_cat = [], r_err = Some e\<rparr>
           | Panic p \<Rightarrow> Inl p)
      | Inr meta \<Rightarrow>
          (case InferCategoryWithConfidence iter (Some meta) (OriginalName file) of
             Inl p \<Rightarrow> Inl p
           | Inr catResult \<Rightarrow>
               Inr \<lparr>r_index = i, r_meta = Some meta, r_tags = GenerateAudioTags meta,
                    r_cat = CategoryResult.Category catResult, r_err = None\<rparr>))"

text \<open>
  The results reach the collector in an order \<open>order\<close> that the scheduler decides: a
  rearrangement of the job indices \<open>[0..<n]\<close>. The iteration order of each worker's score map
  is \<open>iters i\<close>.
\<close>

fun run_workers ::
  "(nat \<Rightarrow> scores \<Rightarrow> scores) \<Rightarrow> (string \<Rightarrow> file_io) \<Rightarrow> AudioFile list \<Rightarrow> nat list \<Rightarrow>
   panic + analysis_result list" where
  "run_workers iters fs files [] = Inr []"
| "run_workers iters fs files (i # order) =
     (case worker (iters i) fs i (files ! i) of
        Inl p \<Rightarrow> Inl p
      | Inr r \<Rightarrow>
          (case run_workers iters fs files order of
             Inl p \<Rightarrow> Inl p
           | Inr rs \<Rightarrow> Inr (r # rs)))"

text \<open>
  The body of the collecting loop, for one result: a result with an error is skipped; otherwise
  the fingerprint is entered in the map and the record at the result's index takes the
  metadata, possibly the category, and the tags.
\<close>

definition append_index :: "string \<Rightarrow> nat \<Rightarrow> (string \<times> nat list) list \<Rightarrow> (string \<times> nat list) list" where
  "append_index fp i fps =
     (case map_of fps fp of
        None \<Rightarrow> fps @ [(fp, [i])]
      | Some indices \<Rightarrow> map (\<lambda>(k, v). if k = fp then (k, indices @ [i]) else (k, v)) fps)"

definition track_fingerprint ::
  "analysis_result \<Rightarrow> (string \<times> nat list) list \<Rightarrow> (string \<times> nat list) list" where
  "track_fingerprint result fps =
     (case r_meta result of
        Some m \<Rightarrow>
          (if Fingerprint m \<noteq> [] then append_index (Fingerprint m) (r_index result) fps else fps)
      | None \<Rightarrow> fps)"

definition apply_result :: "analysis_result \<Rightarrow> AudioFile \<Rightarrow> AudioFile" where
  "apply_result result af =
     (let af = af\<lparr>AudioMeta := r_meta result\<rparr>;
          af = (if r_cat result \<noteq> []
                then (if Category af = [] \<or> Category af = ''SFX''
                      then af\<lparr>Category := r_cat result\<rparr> else af)
                else af)
      in af\<lparr>Tags := Tags af @ r_tags result\<rparr>)"

definition collect_result :: "analysis_result \<Rightarrow> AudioProcessor \<Rightarrow> AudioProcessor" where
  "collect_result result ap =
     (case r_err result of
        Some e \<Rightarrow> ap
      | None \<Rightarrow>
          ap\<lparr>audioFiles :=
               (audioFiles ap)[r_index result := apply_result result (audioFiles ap ! r_index result)],
             fingerprints := track_fingerprint result (fingerprints ap)\<rparr>)"

text \<open>
  \<^verbatim>\<open>detectDuplicates\<close> ranges over the fingerprint map, in an order \<open>giter\<close> that Go does not
  fix. The indices in the map are positions of records, so every \<^verbatim>\<open>ap.audioFiles[idx]\<close> is in
  range.
\<close>

definition tag_duplicate :: "nat \<Rightarrow> nat list \<Rightarrow> AudioFile \<Rightarrow> AudioFile" where
  "tag_duplicate duplicateCount indices af =
     (let af = af\<lparr>Tags := Tags af @ [''duplicate'']\<rparr> in
      if length indices > 1
      then af\<lparr>Tags := Tags af @ [''duplicate-group-'' @ Itoa (int duplicateCount)]\<rparr>
      else af)"

definition tag_group :: "nat \<Rightarrow> nat list \<Rightarrow> AudioFile list \<Rightarrow> AudioFile list" where
  "tag_group duplicateCount indices files =
     fold (\<lambda>idx files. files[idx := tag_duplicate duplicateCount indices (files ! idx)])
       indices files"

definition detect_step ::
  "string \<times> nat list \<Rightarrow> AudioFile list \<times> nat \<Rightarrow> AudioFile list \<times> nat" where
  "detect_step entry st =
     (case (entry, st) of
        ((fp, indices), (files, duplicateCount)) \<Rightarrow>
          (if length indices > 1
           then (tag_group (duplicateCount + 1) indices files, duplicateCount + 1)
           else (files, duplicateCount)))"

definition detectDuplicates ::
  "((string \<times> nat list) list \<Rightarrow> (string \<times> nat list) list) \<Rightarrow> AudioProcessor \<Rightarrow> AudioProcessor" where
  "detectDuplicates giter ap =
     ap\<lparr>audioFiles := fst (fold detect_step (giter (fingerprints ap)) (audioFiles ap, 0))\<rparr>"

definition analyzeAudioFiles ::
  "(nat \<Rightarrow> scores \<Rightarrow> scores) \<Rightarrow> ((string \<times> nat list) list \<Rightarrow> (string \<times> nat list) list) \<Rightarrow>
   (string \<Rightarrow> file_io) \<Rightarrow> nat list \<Rightarrow> AudioProcessor \<Rightarrow> panic + AudioProcessor" where
  "analyzeAudioFiles iters giter fs order ap =
     (if length (audioFiles ap) = 0 then Inr ap
      else (case run_workers iters fs (audioFiles ap) order of
              Inl p \<Rightarrow> Inl p
            | Inr results \<Rightarrow> Inr (detectDuplicates giter (fold collect_result results ap))))"

definition parseFiles :: "AudioProcessor \<Rightarrow> AudioProcessor" where
  "parseFiles ap = ap\<lparr>audioFiles := map parseFile (audioFiles ap)\<rparr>"

text \<open>
  \<^verbatim>\<open>Process\<close>, up to the point where the records go to the renaming and manifest steps:
  scan, analyse, parse.
\<close>

definition NewAudioProcessor :: AudioProcessor where
  "NewAudioProcessor = \<lparr>audioFiles = [], fingerprints = []\<rparr>"

definition Process_records ::
  "(nat \<Rightarrow> scores \<Rightarrow> scores) \<Rightarrow> ((string \<times> nat list) list \<Rightarrow> (string \<times> nat list) list) \<Rightarrow>
   (string \<Rightarrow> file_io) \<Rightarrow> nat list \<Rightarrow> string list \<Rightarrow> panic + AudioFile list" where
  "Process_records iters giter fs order paths =
     (let ap = NewAudioProcessor\<lparr>audioFiles := scanFiles paths\<rparr> in
      case analyzeAudioFiles iters giter fs order ap of
        Inl p \<Rightarrow> Inl p
      | Inr ap \<Rightarrow> Inr (audioFiles (parseFiles ap)))"

text \<open>
  The fields of a record that the stages after the analysis read from the filename parse, and
  the fields through which the filename alone enters the parse.
\<close>

definition final_fields :: "AudioFile \<Rightarrow> string \<times> string \<times> string \<times> string \<times> string list" where
  "final_fields af = (Category af, SubCategory af, Source af, ID af, Tags af)"

definition name_fields :: "AudioFile \<Rightarrow> string \<times> string \<times> string" where
  "name_fields af = (OriginalName af, ID af, Source af)"

text \<open>
  The fingerprint of a record (empty when the record has no metadata), and the tags that the
  duplicate detection writes.
\<close>

definition record_fingerprint :: "AudioFile \<Rightarrow> string" where
  "record_fingerprint af = (case AudioMeta af of Some m \<Rightarrow> Fingerprint m | None \<Rightarrow> [])"

definition is_group_tag :: "string \<Rightarrow> bool" where
  "is_group_tag t = prefix ''duplicate-group-'' t"

text \<open>Two sample files: one that cannot be opened, one that opens and holds nothing readable.\<close>

definition io_unreadable :: file_io where
  "io_unreadable = \<lparr>open_ok = False, read_tags = None, seek_ok = False, is_valid_wav = False,
     decoder_format = None, decoder_duration = None, stat_size = None, seek_again_ok = False,
     is_valid_wav_again = False, pcm_buffers = [], read_tags_again = None\<rparr>"

definition io_plain :: file_io where
  "io_plain = \<lparr>open_ok = True, read_tags = None, seek_ok = True, is_valid_wav = False,
     decoder_format = None, decoder_duration = None, stat_size = Some 1000, seek_again_ok = True,
     is_valid_wav_again = False, pcm_buffers = [], read_tags_again = None\<rparr>"

text \<open>
  The key under which the collector files a result in the fingerprint map, if it does, and the
  indices filed under a key by a sequence of results.
\<close>

definition result_key :: "analysis_result \<Rightarrow> string option" where
  "result_key r =
     (case r_err r of
        Some e \<Rightarrow> None
      | None \<Rightarrow>
          (case r_meta r of
             Some m \<Rightarrow> (if Fingerprint m \<noteq> [] then Some (Fingerprint m) else None)
           | None \<Rightarrow> None))"

definition indices_of :: "string \<Rightarrow> analysis_result list \<Rightarrow> nat list" where
  "indices_of k rs = map r_index (filter (\<lambda>r. result_key r = Some k) rs)"

text \<open>
  A sample batch: a valid mono WAV file of two seconds at 8 kHz whose data holds no samples,
  found under two directories, and a compressed file with nothing readable in it.
\<close>

definition io_wav :: file_io where
  "io_wav = \<lparr>open_ok = True, read_tags = None, seek_ok = True, is_valid_wav = True,
     decoder_format = Some \<lparr>NumChannels = 1, fmt_SampleRate = 8000\<rparr>,
     decoder_duration = Some 2000000000, stat_size = Some 32044, seek_again_ok = True,
     is_valid_wav_again = True, pcm_buffers = [], read_tags_again = None\<rparr>"

definition sample_fs :: "string \<Rightarrow> file_io" where
  "sample_fs path = (if ToLower (Ext path) = ''.wav'' then io_wav else io_plain)"

definition sample_paths :: "string list" where
  "sample_paths = [''a/shot.wav'', ''b/shot.wav'', ''c/rain.mp3'']"

definition sample_wav_meta :: AudioMetadata where
  "sample_wav_meta =
     (let meta = zero_meta\<lparr>Format := ''WAV'', SampleRate := 8000, Channels := 1, BitDepth := 16,
                   Duration := 2000000000, Bitrate := 128000\<rparr>
      in meta\<lparr>Fingerprint := generateFingerprint meta\<rparr>)"



section \<open>Facts about the string functions\<close>

lemma Contains_iff_sublist: "Contains s sub \<longleftrightarrow> sublist sub s"
  by (induction s) (auto simp: sublist_Cons_right)

lemma HasSuffix_iff_suffix: "HasSuffix s p \<longleftrightarrow> suffix p s"
  by (simp add: HasSuffix_def suffix_to_prefix)

lemma length_ToLower: "length (ToLower s) = length s"
  by (simp add: ToLower_def)

lemma length_ToUpper: "length (ToUpper s) = length s"
  by (simp add: ToUpper_def)

section \<open>The single-answer matcher\<close>

lemma first_match_skip:
  "\<forall>r \<in> set rs. \<not> matchCategoryRule n r \<Longrightarrow> first_match n (rs @ rest) = first_match n rest"
  by (induction rs) simp_all

lemma match_keywords_found:
  "k \<in> set ks \<Longrightarrow> Contains n k \<Longrightarrow> ''fire'' \<notin> set ks \<Longrightarrow> match_keywords n cat ks = Some True"
  by (induction ks) auto

lemma match_keywords_none:
  "match_keywords n cat ks = None \<longleftrightarrow> (\<forall>k \<in> set ks. \<not> Contains n k)"
  by (induction ks) auto

lemma matchCategoryRule_weapon:
  assumes "k \<in> set (Keywords rule_weapon)" and "Contains n k"
  shows "matchCategoryRule n rule_weapon"
proof -
  have nofire: "''fire'' \<notin> set (Keywords rule_weapon)"
    by (simp add: rule_weapon_def)
  have "match_keywords n (CategoryRule.Category rule_weapon) (Keywords rule_weapon) = Some True"
    using assms nofire by (rule match_keywords_found)
  moreover have "Exclusions rule_weapon = []"
    by (simp add: rule_weapon_def)
  ultimately show ?thesis
    by (simp add: matchCategoryRule_def)
qed

lemma matchCategoryRule_ambient_fire:
  assumes "standalone_fire n" and "no_weapon_word n"
  shows "matchCategoryRule n rule_ambient"
proof -
  have cat: "CategoryRule.Category rule_ambient = ''Ambient''" and ex: "Exclusions rule_ambient = []"
    by (simp_all add: rule_ambient_def)
  have fire: "''fire'' \<notin> set (Keywords rule_ambient)"
    by (simp add: rule_ambient_def)
  show ?thesis
  proof (cases "match_keywords n ''Ambient'' (Keywords rule_ambient)")
    case None
    with assms cat ex show ?thesis
      by (simp add: matchCategoryRule_def)
  next
    case (Some b)
    then obtain k where "k \<in> set (Keywords rule_ambient)" and "Contains n k"
      using match_keywords_none [of n "''Ambient''" "Keywords rule_ambient"] by auto
    then have "match_keywords n ''Ambient'' (Keywords rule_ambient) = Some True"
      using fire by (rule match_keywords_found)
    with cat ex show ?thesis
      by (simp add: matchCategoryRule_def)
  qed
qed

text \<open>
  Claim C1, as the source has it. \<^verbatim>\<open>InferCategory\<close> returns the category of the first rule
  of the table that matches, so a weapon keyword only decides the answer when none of the nine
  rules declared before \<^verbatim>\<open>SFX_Weapon\<close> matches the lowercased name, and a standalone
  \<^verbatim>\<open>fire\<close> with no weapon word only gives \<^verbatim>\<open>Ambient\<close> when none of the eight rules declared
  before \<^verbatim>\<open>Ambient\<close> matches it.
\<close>

theorem InferCategory_weapon_fire:
  "((\<forall>r \<in> set (rules_before_ambient @ [rule_ambient]). \<not> matchCategoryRule (ToLower f) r) \<and>
    (\<exists>k \<in> set (Keywords rule_weapon). Contains (ToLower f) k)
      \<longrightarrow> InferCategory f = ''SFX_Weapon'') \<and>
   ((\<forall>r \<in> set rules_before_ambient. \<not> matchCategoryRule (ToLower g) r) \<and>
    standalone_fire (ToLower g) \<and> no_weapon_word (ToLower g)
      \<longrightarrow> InferCategory g = ''Ambient'')"
proof (intro conjI impI)
  assume a: "(\<forall>r \<in> set (rules_before_ambient @ [rule_ambient]).
                \<not> matchCategoryRule (ToLower f) r) \<and>
             (\<exists>k \<in> set (Keywords rule_weapon). Contains (ToLower f) k)"
  then have m: "matchCategoryRule (ToLower f) rule_weapon"
    using matchCategoryRule_weapon by blast
  have split: "CategoryRules = (rules_before_ambient @ [rule_ambient]) @ (rule_weapon # rules_after_weapon)"
    by (simp add: CategoryRules_def)
  have "first_match (ToLower f) CategoryRules = first_match (ToLower f) (rule_weapon # rules_after_weapon)"
    unfolding split using a by (intro first_match_skip) blast
  with m show "InferCategory f = ''SFX_Weapon''"
    by (simp add: InferCategory_def rule_weapon_def)
next
  assume a: "(\<forall>r \<in> set rules_before_ambient. \<not> matchCategoryRule (ToLower g) r) \<and>
             standalone_fire (ToLower g) \<and> no_weapon_word (ToLower g)"
  then have m: "matchCategoryRule (ToLower g) rule_ambient"
    using matchCategoryRule_ambient_fire by blast
  have "first_match (ToLower g) CategoryRules =
        first_match (ToLower g) ([rule_ambient, rule_weapon] @ rules_after_weapon)"
    unfolding CategoryRules_def using a by (intro first_match_skip) blast
  with m show "InferCategory g = ''Ambient''"
    by (simp add: InferCategory_def rule_ambient_def)
qed

theorem InferCategory_weapon_fire_witness:
  "Contains (ToLower ''Gun_Shot'') ''gun'' \<and> InferCategory ''Gun_Shot'' = ''SFX_Weapon'' \<and>
   standalone_fire (ToLower ''Camp Fire'') \<and> InferCategory ''Camp Fire'' = ''Ambient''"
proof -
  have low: "ToLower ''Gun_Shot'' = ''gun_shot''" "ToLower ''Camp Fire'' = ''camp fire''"
    by (simp_all add: ToLower_def lower_char_def is_upper_def)
  have b1: "\<forall>r \<in> set rules_before_ambient. \<not> matchCategoryRule ''gun_shot'' r"
    by (simp add: rules_before_ambient_def matchCategoryRule_def rule_drone_def rule_loop_def
        rule_riser_def rule_time_def rule_transition_def rule_whoosh_def rule_voice_def
        rule_creature_def)
  have b2: "\<not> matchCategoryRule ''gun_shot'' rule_ambient"
    by (simp add: matchCategoryRule_def rule_ambient_def standalone_fire_def HasPrefix_def
        HasSuffix_def)
  have b3: "\<forall>r \<in> set rules_before_ambient. \<not> matchCategoryRule ''camp fire'' r"
    by (simp add: rules_before_ambient_def matchCategoryRule_def rule_drone_def rule_loop_def
        rule_riser_def rule_time_def rule_transition_def rule_whoosh_def rule_voice_def
        rule_creature_def)
  have k: "Contains ''gun_shot'' ''gun''" "''gun'' \<in> set (Keywords rule_weapon)"
    by (simp_all add: rule_weapon_def)
  have f: "standalone_fire ''camp fire''" "no_weapon_word ''camp fire''"
    by (simp_all add: standalone_fire_def no_weapon_word_def HasPrefix_def HasSuffix_def)
  have h1: "(\<forall>r \<in> set (rules_before_ambient @ [rule_ambient]).
               \<not> matchCategoryRule (ToLower ''Gun_Shot'') r) \<and>
            (\<exists>k \<in> set (Keywords rule_weapon). Contains (ToLower ''Gun_Shot'') k)"
  proof (intro conjI ballI)
    fix r assume "r \<in> set (rules_before_ambient @ [rule_ambient])"
    then have "r \<in> set rules_before_ambient \<or> r = rule_ambient" by auto
    with b1 b2 show "\<not> matchCategoryRule (ToLower ''Gun_Shot'') r"
      unfolding low by blast
  next
    from k show "\<exists>k \<in> set (Keywords rule_weapon). Contains (ToLower ''Gun_Shot'') k"
      unfolding low by (rule_tac x = "''gun''" in bexI)
  qed
  have h2: "(\<forall>r \<in> set rules_before_ambient. \<not> matchCategoryRule (ToLower ''Camp Fire'') r) \<and>
            standalone_fire (ToLower ''Camp Fire'') \<and> no_weapon_word (ToLower ''Camp Fire'')"
    unfolding low using b3 f by blast
  from InferCategory_weapon_fire [of "''Gun_Shot''" "''Camp Fire''"] h1 h2
  have "InferCategory ''Gun_Shot'' = ''SFX_Weapon'' \<and> InferCategory ''Camp Fire'' = ''Ambient''"
    by blast
  with k f show ?thesis unfolding low by simp
qed

text \<open>
  The claim as written fails: \<^verbatim>\<open>drone_gun\<close> contains the weapon keyword \<^verbatim>\<open>gun\<close> and the
  weapon rule has no exclusions, yet the earlier drone rule answers; \<^verbatim>\<open>fire drone\<close> starts
  with \<^verbatim>\<open>fire \<close> and has no weapon word, yet the answer is not \<^verbatim>\<open>Ambient\<close>.
\<close>

theorem InferCategory_weapon_fire_counterexample:
  "Contains (ToLower ''drone_gun'') ''gun'' \<and>
   \<not> list_ex (Contains (ToLower ''drone_gun'')) (Exclusions rule_weapon) \<and>
   InferCategory ''drone_gun'' = ''SFX_Drone'' \<and>
   InferCategory ''drone_gun'' \<noteq> ''SFX_Weapon'' \<and>
   standalone_fire (ToLower ''fire drone'') \<and> no_weapon_word (ToLower ''fire drone'') \<and>
   InferCategory ''fire drone'' = ''SFX_Drone'' \<and>
   InferCategory ''fire drone'' \<noteq> ''Ambient''"
proof -
  have low: "ToLower ''drone_gun'' = ''drone_gun''" "ToLower ''fire drone'' = ''fire drone''"
    by (simp_all add: ToLower_def lower_char_def is_upper_def)
  have m: "matchCategoryRule ''drone_gun'' rule_drone" "matchCategoryRule ''fire drone'' rule_drone"
    by (simp_all add: matchCategoryRule_def rule_drone_def)
  have i: "InferCategory ''drone_gun'' = ''SFX_Drone''" "InferCategory ''fire drone'' = ''SFX_Drone''"
    using m by (simp_all add: InferCategory_def low CategoryRules_def rules_before_ambient_def
        rule_drone_def)
  have f: "standalone_fire ''fire drone''" "no_weapon_word ''fire drone''"
    by (simp_all add: standalone_fire_def no_weapon_word_def HasPrefix_def HasSuffix_def)
  have g: "Contains ''drone_gun'' ''gun''" "Exclusions rule_weapon = []"
    by (simp_all add: rule_weapon_def)
  show ?thesis
    unfolding low i using f g by simp
qed

section \<open>Category name normalisation\<close>

lemma CategoryNormalization_distinct: "distinct (map fst CategoryNormalization)"
  by (simp add: CategoryNormalization_def)

text \<open>
  Claim C9, as the source has it. The label is uppercased and looked up in the synonym table;
  a hit returns the table's entry. On a miss the guard of the prefix branch tests the
  uppercased label for the substrings \<^verbatim>\<open>_\<close>, \<^verbatim>\<open>MUSIC\<close> and \<^verbatim>\<open>AMBIENT\<close> (containment, not
  equality), and the prefix branch returns \<^verbatim>\<open>SFX_\<close> followed by the uppercased label; in
  every other case the input comes back unchanged, case preserved. The result depends on the
  label alone.
\<close>

theorem NormalizeCategory_lookup:
  "(map_of CategoryNormalization (ToUpper cat) = Some v \<longrightarrow> NormalizeCategory cat = v) \<and>
   (ToUpper cat \<notin> fst ` set CategoryNormalization \<and> \<not> Contains (ToUpper cat) ''_'' \<and>
    \<not> Contains (ToUpper cat) ''MUSIC'' \<and> \<not> Contains (ToUpper cat) ''AMBIENT''
      \<longrightarrow> NormalizeCategory cat = ''SFX_'' @ ToUpper cat) \<and>
   (ToUpper cat \<notin> fst ` set CategoryNormalization \<and>
    (Contains (ToUpper cat) ''_'' \<or> Contains (ToUpper cat) ''MUSIC'' \<or>
     Contains (ToUpper cat) ''AMBIENT'')
      \<longrightarrow> NormalizeCategory cat = cat) \<and>
   NormalizeCategory ''PE'' = ''SFX_Percussion'' \<and> NormalizeCategory ''LOOP'' = ''Music''"
proof (intro conjI impI)
  show "NormalizeCategory ''PE'' = ''SFX_Percussion''"
    by (simp add: NormalizeCategory_def ToUpper_def upper_char_def is_lower_def
        CategoryNormalization_def)
  show "NormalizeCategory ''LOOP'' = ''Music''"
    by (simp add: NormalizeCategory_def ToUpper_def upper_char_def is_lower_def
        CategoryNormalization_def)
qed (auto simp: NormalizeCategory_def map_of_eq_None_iff [symmetric])

theorem NormalizeCategory_lookup_witness:
  "NormalizeCategory ''voice'' = ''SFX_Voice'' \<and> NormalizeCategory ''unknown'' = ''SFX_UNKNOWN'' \<and>
   NormalizeCategory ''SFX_Ui'' = ''SFX_Ui''"
proof -
  have up: "ToUpper ''voice'' = ''VOICE''" "ToUpper ''unknown'' = ''UNKNOWN''"
    "ToUpper ''SFX_Ui'' = ''SFX_UI''"
    by (simp_all add: ToUpper_def upper_char_def is_lower_def)
  have h1: "map_of CategoryNormalization (ToUpper ''voice'') = Some ''SFX_Voice''"
    unfolding up by (simp add: CategoryNormalization_def)
  have h2: "ToUpper ''unknown'' \<notin> fst ` set CategoryNormalization \<and>
            \<not> Contains (ToUpper ''unknown'') ''_'' \<and> \<not> Contains (ToUpper ''unknown'') ''MUSIC'' \<and>
            \<not> Contains (ToUpper ''unknown'') ''AMBIENT''"
    unfolding up by (simp add: CategoryNormalization_def)
  have h3: "ToUpper ''SFX_Ui'' \<notin> fst ` set CategoryNormalization \<and>
            (Contains (ToUpper ''SFX_Ui'') ''_'' \<or> Contains (ToUpper ''SFX_Ui'') ''MUSIC'' \<or>
             Contains (ToUpper ''SFX_Ui'') ''AMBIENT'')"
    unfolding up by (simp add: CategoryNormalization_def)
  have "NormalizeCategory ''voice'' = ''SFX_Voice''"
    using NormalizeCategory_lookup [of "''voice''" "''SFX_Voice''"] h1 by blast
  moreover have "NormalizeCategory ''unknown'' = ''SFX_'' @ ToUpper ''unknown''"
    using NormalizeCategory_lookup [of "''unknown''"] h2 by blast
  moreover have "NormalizeCategory ''SFX_Ui'' = ''SFX_Ui''"
    using NormalizeCategory_lookup [of "''SFX_Ui''"] h3 by blast
  ultimately show ?thesis
    unfolding up by simp
qed

text \<open>
  The claim as written fails at \<^verbatim>\<open>Musical\<close>: its uppercased form is absent from the table,
  has no underscore and is neither \<^verbatim>\<open>MUSIC\<close> nor \<^verbatim>\<open>AMBIENT\<close>, yet no \<^verbatim>\<open>SFX_\<close> prefix is
  added; and where the prefix is added, it is added to the uppercased label, not to the label.
\<close>

theorem NormalizeCategory_counterexample:
  "map_of CategoryNormalization (ToUpper ''Musical'') = None \<and>
   \<not> Contains (ToUpper ''Musical'') ''_'' \<and>
   ToUpper ''Musical'' \<noteq> ''MUSIC'' \<and> ToUpper ''Musical'' \<noteq> ''AMBIENT'' \<and>
   NormalizeCategory ''Musical'' = ''Musical'' \<and>
   NormalizeCategory ''Musical'' \<noteq> ''SFX_Musical'' \<and>
   NormalizeCategory ''Musical'' \<noteq> ''SFX_MUSICAL'' \<and>
   NormalizeCategory ''unknown'' \<noteq> ''SFX_unknown''"
proof -
  have up: "ToUpper ''Musical'' = ''MUSICAL''" "ToUpper ''unknown'' = ''UNKNOWN''"
    by (simp_all add: ToUpper_def upper_char_def is_lower_def)
  have n: "NormalizeCategory ''Musical'' = ''Musical''" "NormalizeCategory ''unknown'' = ''SFX_UNKNOWN''"
    by (simp_all add: NormalizeCategory_def up CategoryNormalization_def)
  show ?thesis
    unfolding n up by (simp add: CategoryNormalization_def)
qed

section \<open>Spectral features\<close>

lemma fold_add_sum_list:
  fixes f :: "'a \<Rightarrow> real"
  shows "fold (\<lambda>x acc. acc + f x) xs a = a + sum_list (map f xs)"
  by (induction xs arbitrary: a) simp_all

lemma fold_count_filter:
  "fold (\<lambda>x (c::nat). if P x then c + 1 else c) xs a = a + length (filter P xs)"
  by (induction xs arbitrary: a) simp_all

lemma count_zero_crossings_card:
  "count_zero_crossings s =
     card {i. 1 \<le> i \<and> i < length s \<and> sign_change (s ! (i - 1)) (s ! i)}"
proof -
  have "count_zero_crossings s =
        length (filter (\<lambda>i. sign_change (s ! (i - 1)) (s ! i)) [1..<length s])"
    unfolding count_zero_crossings_def by (simp add: fold_count_filter)
  also have "\<dots> = card (set (filter (\<lambda>i. sign_change (s ! (i - 1)) (s ! i)) [1..<length s]))"
    by (rule distinct_card [symmetric]) simp
  also have "set (filter (\<lambda>i. sign_change (s ! (i - 1)) (s ! i)) [1..<length s]) =
             {i. 1 \<le> i \<and> i < length s \<and> sign_change (s ! (i - 1)) (s ! i)}"
    by auto
  finally show ?thesis .
qed

lemma sum_list_nth_upt:
  fixes f :: "'a \<Rightarrow> real"
  shows "sum_list (map f s) = (\<Sum>i<length s. f (s ! i))"
proof -
  have "map f s = map (\<lambda>i. f (s ! i)) [0..<length s]"
    by (rule nth_equalityI) simp_all
  then have "sum_list (map f s) = sum_list (map (\<lambda>i. f (s ! i)) [0..<length s])"
    by simp
  also have "\<dots> = (\<Sum>i<length s. f (s ! i))"
    by (simp add: interv_sum_list_conv_sum_set_nat atLeast0LessThan)
  finally show ?thesis .
qed

lemma total_energy_sum: "total_energy s = (\<Sum>i<length s. (s ! i)\<^sup>2)"
proof -
  have "total_energy s = sum_list (map (\<lambda>x. x * x) s)"
    unfolding total_energy_def by (simp add: fold_add_sum_list)
  then show ?thesis
    by (simp add: sum_list_nth_upt power2_eq_square)
qed

lemma band_energy_sum:
  "band_energy w s =
     (if length s > w
      then (\<Sum>i = w..<length s. (s ! i - s ! (i - w))\<^sup>2) / real (length s - w)
      else 0)"
  unfolding band_energy_def
  by (simp add: Let_def fold_add_sum_list interv_sum_list_conv_sum_set_nat power2_eq_square)

lemma count_zero_crossings_silence: "count_zero_crossings (replicate n 0) = 0"
proof -
  have "{i. 1 \<le> i \<and> i < n \<and> sign_change (replicate n (0::real) ! (i - 1)) (replicate n 0 ! i)} = {}"
    by (auto simp: sign_change_def)
  then show ?thesis
    by (simp add: count_zero_crossings_card)
qed

lemma ref_BandEnergy_silence: "ref_BandEnergy w (replicate n 0) = 0"
  by (auto simp: ref_BandEnergy_def intro!: sum.neutral)

lemma calculateSpectralFeatures_sel:
  "ZeroCrossing (calculateSpectralFeatures s r f) = real (count_zero_crossings s) / real (length s)"
  "Energy (calculateSpectralFeatures s r f) = total_energy s / real (length s)"
  "LowEnergy (calculateSpectralFeatures s r f) = band_energy windowLow s"
  "MidEnergy (calculateSpectralFeatures s r f) = band_energy windowMid s"
  "HighEnergy (calculateSpectralFeatures s r f) = band_energy windowHigh s"
  by (simp_all add: calculateSpectralFeatures_def split_def Let_def)

text \<open>
  Claim C7. On every non-empty sample sequence the zero-crossing rate, the energy and the three
  band energies computed by \<^verbatim>\<open>calculateSpectralFeatures\<close> are those of the reference
  definition, with the windows 100, 20 and 5 for the low, mid and high band; on an all-zero
  sequence the energy, the zero-crossing rate and the three band energies are zero.
\<close>

theorem calculateSpectralFeatures_reference:
  assumes "length samples \<ge> 1"
  shows "ZeroCrossing (calculateSpectralFeatures samples sampleRate features) =
           ref_ZeroCrossing samples \<and>
         Energy (calculateSpectralFeatures samples sampleRate features) = ref_Energy samples \<and>
         LowEnergy (calculateSpectralFeatures samples sampleRate features) =
           ref_BandEnergy 100 samples \<and>
         MidEnergy (calculateSpectralFeatures samples sampleRate features) =
           ref_BandEnergy 20 samples \<and>
         HighEnergy (calculateSpectralFeatures samples sampleRate features) =
           ref_BandEnergy 5 samples \<and>
         ((\<forall>x \<in> set samples. x = 0) \<longrightarrow>
            Energy (calculateSpectralFeatures samples sampleRate features) = 0 \<and>
            ZeroCrossing (calculateSpectralFeatures samples sampleRate features) = 0 \<and>
            LowEnergy (calculateSpectralFeatures samples sampleRate features) = 0 \<and>
            MidEnergy (calculateSpectralFeatures samples sampleRate features) = 0 \<and>
            HighEnergy (calculateSpectralFeatures samples sampleRate features) = 0)"
proof -
  let ?F = "calculateSpectralFeatures samples sampleRate features"
  note sel = calculateSpectralFeatures_sel [of samples sampleRate features]
  have set_eq: "{i. 1 \<le> i \<and> i < length samples \<and> sign_change (samples ! (i - 1)) (samples ! i)} =
        {i \<in> {1..<length samples}. (samples ! (i - 1) \<ge> 0 \<and> samples ! i < 0) \<or>
                                     (samples ! (i - 1) < 0 \<and> samples ! i \<ge> 0)}"
    by (auto simp: sign_change_def)
  have zc: "ZeroCrossing ?F = ref_ZeroCrossing samples"
    by (simp only: sel count_zero_crossings_card set_eq ref_ZeroCrossing_def)
  have en: "Energy ?F = ref_Energy samples"
    by (simp add: sel total_energy_sum ref_Energy_def atLeast0LessThan)
  have band: "band_energy w samples = ref_BandEnergy w samples" for w
    by (simp only: band_energy_sum ref_BandEnergy_def)
  have lo: "LowEnergy ?F = ref_BandEnergy 100 samples"
    and mi: "MidEnergy ?F = ref_BandEnergy 20 samples"
    and hi: "HighEnergy ?F = ref_BandEnergy 5 samples"
    by (simp_all only: sel band windowLow_def windowMid_def windowHigh_def)
  have silence: "Energy ?F = 0 \<and> ZeroCrossing ?F = 0 \<and> LowEnergy ?F = 0 \<and> MidEnergy ?F = 0 \<and>
      HighEnergy ?F = 0" if z: "\<forall>x \<in> set samples. x = 0"
  proof -
    from z have rep: "samples = replicate (length samples) 0"
      by (simp add: replicate_length_same)
    have e0: "ref_Energy (replicate n 0) = 0" for n
      by (simp add: ref_Energy_def)
    have "count_zero_crossings samples = 0"
      using count_zero_crossings_silence [of "length samples"] rep by simp
    then have "ZeroCrossing ?F = 0"
      by (simp add: sel)
    moreover have "Energy ?F = 0"
      using en e0 [of "length samples"] rep by simp
    moreover have "ref_BandEnergy w samples = 0" for w
      using ref_BandEnergy_silence [of w "length samples"] rep by simp
    ultimately show ?thesis
      by (simp add: lo mi hi)
  qed
  from zc en lo mi hi silence show ?thesis
    by blast
qed

theorem calculateSpectralFeatures_reference_witness:
  "ZeroCrossing (calculateSpectralFeatures [1, -1, 0, 2, 0, 0] 44100 zero_features) =
     ref_ZeroCrossing [1, -1, 0, 2, 0, 0] \<and>
   ZeroCrossing (calculateSpectralFeatures [1, -1, 0, 2, 0, 0] 44100 zero_features) = 1 / 3 \<and>
   Energy (calculateSpectralFeatures [1, -1, 0, 2, 0, 0] 44100 zero_features) = 1 \<and>
   HighEnergy (calculateSpectralFeatures [1, -1, 0, 2, 0, 0] 44100 zero_features) =
     ref_BandEnergy 5 [1, -1, 0, 2, 0, 0] \<and>
   HighEnergy (calculateSpectralFeatures [1, -1, 0, 2, 0, 0] 44100 zero_features) = 1 \<and>
   Energy (calculateSpectralFeatures [0, 0, 0, 0, 0, 0] 44100 zero_features) = 0 \<and>
   HighEnergy (calculateSpectralFeatures [0, 0, 0, 0, 0, 0] 44100 zero_features) = 0"
proof -
  have h: "length [1, -1, 0, 2, 0, 0 :: real] \<ge> 1" "length [0, 0, 0, 0, 0, 0 :: real] \<ge> 1"
    by simp_all
  have z: "\<forall>x \<in> set [0, 0, 0, 0, 0, 0 :: real]. x = 0"
    by simp
  have up: "[1..<6] = [1, 2, 3, 4, 5::nat]" "[5..<6] = [5::nat]"
    by (simp_all add: upt_rec)
  have v: "ZeroCrossing (calculateSpectralFeatures [1, -1, 0, 2, 0, 0] 44100 zero_features) = 1 / 3"
    "Energy (calculateSpectralFeatures [1, -1, 0, 2, 0, 0] 44100 zero_features) = 1"
    "HighEnergy (calculateSpectralFeatures [1, -1, 0, 2, 0, 0] 44100 zero_features) = 1"
    by (simp_all add: calculateSpectralFeatures_sel count_zero_crossings_def
        total_energy_def band_energy_def windowHigh_def sign_change_def up)
  from calculateSpectralFeatures_reference [OF h(1), of 44100 zero_features]
    calculateSpectralFeatures_reference [OF h(2), of 44100 zero_features] z v
  show ?thesis
    by blast
qed
section \<open>Confidence\<close>

lemma find_best_fold_snd:
  fixes acc :: "string \<times> real"
  shows "snd (fold (\<lambda>(cat, score) (bestCategory, bestScore).
               if score > bestScore then (cat, score) else (bestCategory, bestScore)) es acc) =
   Max (insert (snd acc) (snd ` set es))"
proof (induction es arbitrary: acc)
  case Nil
  then show ?case by simp
next
  case (Cons e es)
  obtain c s where e: "e = (c, s)" by (cases e)
  obtain bc bs where acc: "acc = (bc, bs)" by (cases acc)
  have fin: "finite (insert s (snd ` set es))" "finite (insert bs (snd ` set es))"
    by simp_all
  show ?case
  proof (cases "s > bs")
    case True
    have "s \<le> Max (insert s (snd ` set es))"
      using fin(1) by (intro Max_ge) simp_all
    with True have "bs \<le> Max (insert s (snd ` set es))"
      by linarith
    then have "max bs (Max (insert s (snd ` set es))) = Max (insert s (snd ` set es))"
      by (rule max.absorb2)
    then have "Max (insert bs (insert s (snd ` set es))) = Max (insert s (snd ` set es))"
      using fin(1) by (subst Max_insert) simp_all
    with True show ?thesis
      by (simp add: Cons.IH e acc)
  next
    case False
    have "bs \<le> Max (insert bs (snd ` set es))"
      using fin(2) by (intro Max_ge) simp_all
    with False have "s \<le> Max (insert bs (snd ` set es))"
      by linarith
    then have "max s (Max (insert bs (snd ` set es))) = Max (insert bs (snd ` set es))"
      by (rule max.absorb2)
    then have "Max (insert s (insert bs (snd ` set es))) = Max (insert bs (snd ` set es))"
      using fin(2) by (subst Max_insert) simp_all
    with False show ?thesis
      by (simp add: Cons.IH e acc insert_commute [of bs s])
  qed
qed

lemma find_best_score: "snd (find_best es) = Max (insert 0 (snd ` set es))"
  unfolding find_best_def by (simp add: find_best_fold_snd)

lemma find_best_fold_default:
  fixes bs :: real
  shows "\<forall>e \<in> set es. snd e \<le> bs \<Longrightarrow>
   fold (\<lambda>(cat, score) (bestCategory, bestScore).
          if score > bestScore then (cat, score) else (bestCategory, bestScore)) es (bc, bs) =
   (bc, bs)"
proof (induction es)
  case Nil
  then show ?case by simp
next
  case (Cons e es)
  obtain c s where e: "e = (c, s)" by (cases e)
  from Cons.prems e have "\<not> s > bs" by simp
  with Cons show ?case by (simp add: e)
qed

lemma find_best_default: "\<forall>e \<in> set es. snd e \<le> 0 \<Longrightarrow> find_best es = (''SFX'', 0)"
  unfolding find_best_def by (rule find_best_fold_default)

lemma confidence_floor:
  "(let confidence = min (b / 1.5) (1.0::real) in if confidence < 0.3 then 0.3 else confidence) =
   max 0.3 (min (b / 1.5) 1)"
  by (simp only: Let_def max_def) auto

lemma InferCategoryWithConfidence_Some:
  "InferCategoryWithConfidence iter (Some m) filename =
     Inr \<lparr>CategoryResult.Category = fst (find_best (iter (accumulated_scores m filename))),
          CategoryResult.Confidence = max 0.3 (min (snd (find_best (iter (accumulated_scores m filename))) / 1.5) 1)\<rparr>"
proof -
  have "InferCategoryWithConfidence iter (Some m) filename =
     Inr \<lparr>CategoryResult.Category = fst (find_best (iter (accumulated_scores m filename))),
          CategoryResult.Confidence = (let confidence = min (snd (find_best (iter (accumulated_scores m filename))) / 1.5) 1.0
                        in if confidence < 0.3 then 0.3 else confidence)\<rparr>"
    unfolding InferCategoryWithConfidence_def accumulated_scores_def
    by (simp only: Let_def split_def option.case)
  then show ?thesis
    by (simp only: confidence_floor)
qed

text \<open>
  For a non-nil \<^verbatim>\<open>meta\<close> and every iteration order of the score map, the function returns
  the confidence \<open>min (bestScore / 1.5) 1\<close> floored at \<open>0.3\<close>, where \<open>bestScore\<close> is the largest
  positive score of the map (zero if there is none), so the confidence lies in \<open>[0.3, 1]\<close>; a map
  with no strictly positive score gives the default \<^verbatim>\<open>SFX\<close> with confidence \<open>0.3\<close>.
\<close>

lemma InferCategoryWithConfidence_range:
  assumes iter: "set (iter (accumulated_scores m filename)) = set (accumulated_scores m filename)"
  shows "\<exists>r. InferCategoryWithConfidence iter (Some m) filename = Inr r \<and>
             Confidence r =
               max 0.3 (min (Max (insert 0 (snd ` set (accumulated_scores m filename))) / 1.5) 1) \<and>
             0.3 \<le> Confidence r \<and> Confidence r \<le> 1 \<and>
             ((\<forall>e \<in> set (accumulated_scores m filename). snd e \<le> 0) \<longrightarrow>
                CategoryResult.Category r = ''SFX'' \<and> Confidence r = 0.3)"
proof -
  let ?S = "accumulated_scores m filename"
  let ?r = "\<lparr>CategoryResult.Category = fst (find_best (iter ?S)),
             CategoryResult.Confidence = max 0.3 (min (snd (find_best (iter ?S)) / 1.5) 1)\<rparr>"
  have r: "InferCategoryWithConfidence iter (Some m) filename = Inr ?r"
    by (rule InferCategoryWithConfidence_Some)
  have best: "snd (find_best (iter ?S)) = Max (insert 0 (snd ` set ?S))"
    by (simp add: find_best_score iter)
  have dflt: "CategoryResult.Category ?r = ''SFX'' \<and> Confidence ?r = 0.3"
    if "\<forall>e \<in> set ?S. snd e \<le> 0"
  proof -
    from that have "find_best (iter ?S) = (''SFX'', 0)"
      by (intro find_best_default) (simp add: iter)
    then show ?thesis by simp
  qed
  have "Confidence ?r = max 0.3 (min (Max (insert 0 (snd ` set ?S)) / 1.5) 1)"
    by (simp add: best)
  moreover have "0.3 \<le> Confidence ?r" "Confidence ?r \<le> 1"
    by simp_all
  ultimately show ?thesis
    using r dflt by blast
qed

text \<open>
  Claim C2 at nil metadata. The claim covers a nil \<^verbatim>\<open>meta\<close>, and \<^verbatim>\<open>ApplyMetadataScoring\<close>
  guards against it, but \<^verbatim>\<open>InferCategoryWithConfidence\<close> then dereferences \<^verbatim>\<open>meta\<close>: for
  every filename and every iteration order the call panics and returns no result.
\<close>

theorem InferCategoryWithConfidence_nil:
  "InferCategoryWithConfidence iter None filename = Inl NilPointerDereference"
  by (simp add: InferCategoryWithConfidence_def Let_def)

section \<open>Fingerprints\<close>

lemma length_Sum256: "length (Sum256 msg) = 32"
  by (simp add: Sum256_def split_def bytes_of_word32_def)

lemma length_EncodeToString: "length (EncodeToString bs) = 2 * length bs"
  unfolding EncodeToString_def by (induction bs) simp_all

subsection \<open>Rounding to \<^verbatim>\<open>float64\<close>\<close>

text \<open>
  The rounded value is at least as near as any multiple of the unit in the last place; what
  follows needs no more of the rounding than this, and its value inside one binade.
\<close>

lemma round_even_nearest: "\<bar>real_of_int (round_even y) - y\<bar> \<le> \<bar>real_of_int j - y\<bar>"
proof -
  define f where "f = \<lfloor>y\<rfloor>"
  define F J R where "F = real_of_int f" and "J = real_of_int j"
    and "R = real_of_int (round_even y)"
  have f: "F \<le> y" "y < F + 1"
    unfolding F_def f_def by linarith+
  have "j \<le> f \<or> f + 1 \<le> j" by linarith
  then have j: "J \<le> F \<or> F + 1 \<le> J"
    unfolding F_def J_def by (metis of_int_le_iff of_int_add of_int_1)
  have "round_even y = (if y - F < 1 / 2 then f
      else if 1 / 2 < y - F then f + 1 else if even f then f else f + 1)"
    by (simp add: round_even_def f_def F_def Let_def)
  then have "R = F \<and> y - F \<le> 1 / 2 \<or> R = F + 1 \<and> 1 / 2 \<le> y - F"
    unfolding R_def F_def by (simp split: if_splits)
  with f j have "\<bar>R - y\<bar> \<le> \<bar>J - y\<bar>"
    by linarith
  then show ?thesis
    by (simp only: R_def J_def)
qed

lemma floor_log2_binade:
  assumes "x \<noteq> 0"
  shows "2 powi \<lfloor>log 2 \<bar>x\<bar>\<rfloor> \<le> \<bar>x\<bar>" and "\<bar>x\<bar> < 2 powi (\<lfloor>log 2 \<bar>x\<bar>\<rfloor> + 1)"
    and "2 powi e \<le> \<bar>x\<bar> \<Longrightarrow> \<bar>x\<bar> < 2 powi (e + 1) \<Longrightarrow> \<lfloor>log 2 \<bar>x\<bar>\<rfloor> = e"
proof -
  have pos: "0 < \<bar>x\<bar>" using assms by simp
  have p: "(2::real) powr real_of_int k = 2 powi k" for k
    by (rule powr_real_of_int') simp_all
  have q: "real_of_int k + 1 = real_of_int (k + 1)" for k
    by simp
  have iff: "\<lfloor>log 2 \<bar>x\<bar>\<rfloor> = k \<longleftrightarrow> 2 powi k \<le> \<bar>x\<bar> \<and> \<bar>x\<bar> < 2 powi (k + 1)" for k
    using floor_log_eq_powr_iff [of "\<bar>x\<bar>" 2 k] pos unfolding q p by simp
  from iff [of "\<lfloor>log 2 \<bar>x\<bar>\<rfloor>"]
  show "2 powi \<lfloor>log 2 \<bar>x\<bar>\<rfloor> \<le> \<bar>x\<bar>" and "\<bar>x\<bar> < 2 powi (\<lfloor>log 2 \<bar>x\<bar>\<rfloor> + 1)"
    by simp_all
  show "2 powi e \<le> \<bar>x\<bar> \<Longrightarrow> \<bar>x\<bar> < 2 powi (e + 1) \<Longrightarrow> \<lfloor>log 2 \<bar>x\<bar>\<rfloor> = e"
    using iff [of e] by simp
qed

lemma float64_round_binade:
  assumes "2 powi e \<le> \<bar>x\<bar>" and "\<bar>x\<bar> < 2 powi (e + 1)"
  shows "float64_round x = real_of_int (round_even (x / 2 powi (e - 52))) * 2 powi (e - 52)"
proof -
  have "(0::real) < 2 powi e" by simp
  with assms(1) have "0 < \<bar>x\<bar>" by linarith
  then have x: "x \<noteq> 0" by simp
  from floor_log2_binade(3) [OF x assms] show ?thesis
    by (simp add: float64_round_def x Let_def)
qed

lemma float64_round_near:
  assumes "\<bar>x\<bar> < 2 powi E"
  shows "\<bar>float64_round x - x\<bar> \<le> \<bar>real_of_int k * 2 powi (E - 53) - x\<bar>"
proof (cases "x = 0")
  case True
  then show ?thesis by (simp add: float64_round_def)
next
  case False
  define e where "e = \<lfloor>log 2 \<bar>x\<bar>\<rfloor>"
  define ulp :: real where "ulp = 2 powi (e - 52)"
  have "2 powi e \<le> \<bar>x\<bar>"
    unfolding e_def using False by (rule floor_log2_binade(1))
  with assms have lt: "(2::real) powi e < 2 powi E" by linarith
  have "e < E"
  proof (rule ccontr)
    assume "\<not> e < E"
    then have "(2::real) powi E \<le> 2 powi e"
      by (intro power_int_increasing) simp_all
    with lt show False by simp
  qed
  then have "0 \<le> E - 1 - e" by simp
  then obtain n where "E - 1 - e = int n"
    using nonneg_int_cases by blast
  then have n: "E - 53 = (e - 52) + int n" by simp
  have up: "0 < ulp" by (simp add: ulp_def)
  have grid: "real_of_int k * 2 powi (E - 53) = real_of_int (k * 2 ^ n) * ulp"
    by (simp add: n power_int_add ulp_def)
  have fl: "float64_round x = real_of_int (round_even (x / ulp)) * ulp"
    using False by (simp add: float64_round_def Let_def e_def ulp_def)
  have scale: "\<bar>real_of_int i * ulp - x\<bar> = \<bar>real_of_int i - x / ulp\<bar> * ulp" for i
  proof -
    have "real_of_int i * ulp - x = (real_of_int i - x / ulp) * ulp"
      using up by (simp add: left_diff_distrib)
    then show ?thesis
      using up by (simp add: abs_mult)
  qed
  have "\<bar>float64_round x - x\<bar> = \<bar>real_of_int (round_even (x / ulp)) - x / ulp\<bar> * ulp"
    unfolding fl by (rule scale)
  also have "\<dots> \<le> \<bar>real_of_int (k * 2 ^ n) - x / ulp\<bar> * ulp"
    using up round_even_nearest [of "x / ulp" "k * 2 ^ n"] by (simp add: mult_right_mono)
  also have "\<dots> = \<bar>real_of_int (k * 2 ^ n) * ulp - x\<bar>"
    by (rule scale [symmetric])
  finally show ?thesis
    by (simp only: grid)
qed


lemma round_even_unique:
  assumes "\<bar>z - real_of_int N\<bar> < 1 / 2"
  shows "round_even z = N"
proof (cases "real_of_int N \<le> z")
  case True
  have "\<lfloor>z\<rfloor> = N"
  proof (rule floor_unique)
    show "real_of_int N \<le> z" by fact
    show "z < real_of_int N + 1" using assms by linarith
  qed
  with assms True show ?thesis
    by (simp add: round_even_def Let_def)
next
  case False
  have m: "real_of_int (N - 1) = real_of_int N - 1" by simp
  have f: "\<lfloor>z\<rfloor> = N - 1"
  proof (rule floor_unique)
    show "real_of_int (N - 1) \<le> z" using assms unfolding m by linarith
    show "z < real_of_int (N - 1) + 1" using False unfolding m by linarith
  qed
  from assms False have "1 / 2 < z - real_of_int (N - 1)"
    unfolding m by linarith
  then show ?thesis
    by (simp add: round_even_def Let_def f)
qed

lemma float64_of_int_exact:
  assumes "\<bar>n\<bar> < 9007199254740992"
  shows "float64_of_int n = real_of_int n"
proof -
  from assms have "real_of_int \<bar>n\<bar> < 9007199254740992"
    by linarith
  then have "\<bar>real_of_int n\<bar> < 2 powi 53"
    by simp
  from float64_round_near [OF this, of n] show ?thesis
    by (simp add: float64_of_int_def)
qed

lemma float64_fraction_bounds:
  assumes "0 \<le> n" and "n < 1000000000"
  shows "0 \<le> float64_round (real_of_int n / 1000000000)"
    and "float64_round (real_of_int n / 1000000000) \<le> 1 - 1 / 2 ^ 30 - 1 / 2 ^ 34"
proof -
  define y where "y = real_of_int n / 1000000000"
  from assms have "real_of_int n \<le> 999999999" by linarith
  with assms(1) have y: "0 \<le> y" "y \<le> 999999999 / 1000000000"
    unfolding y_def by simp_all
  then have lt: "\<bar>y\<bar> < 2 powi 0" by simp
  have z: "real_of_int 0 * 2 powi (0 - 53) = 0"
    by simp
  have g: "real_of_int 9007199245828096 * 2 powi (0 - 53) = 1 - 1 / 2 ^ 30 - 1 / 2 ^ 34"
    by (simp add: power_int_minus_divide)
  from float64_round_near [OF lt, of 0] have "\<bar>float64_round y - y\<bar> \<le> \<bar>0 - y\<bar>"
    unfolding z .
  with y(1) show "0 \<le> float64_round (real_of_int n / 1000000000)"
    unfolding y_def [symmetric] by linarith
  from float64_round_near [OF lt, of 9007199245828096]
  have "\<bar>float64_round y - y\<bar> \<le> \<bar>1 - 1 / 2 ^ 30 - 1 / 2 ^ 34 - y\<bar>"
    unfolding g .
  with y(2) show "float64_round (real_of_int n / 1000000000) \<le> 1 - 1 / 2 ^ 30 - 1 / 2 ^ 34"
    unfolding y_def [symmetric] by simp
qed

lemma float64_sum_floor:
  assumes sec: "0 \<le> sec" "sec < 16777216"
    and q: "0 \<le> q" "q \<le> 1 - 1 / 2 ^ 30 - 1 / 2 ^ 34"
  shows "\<lfloor>float64_round (real_of_int sec + q)\<rfloor> = sec"
proof -
  define s where "s = real_of_int sec"
  define x where "x = s + q"
  from sec have s: "0 \<le> s" "s \<le> 16777215"
    unfolding s_def by linarith+
  from q have q': "0 \<le> q" "q \<le> 17179869167 / 17179869184"
    by simp_all
  with s have lt: "\<bar>x\<bar> < 2 powi 24"
    unfolding x_def by simp
  have g: "(2::real) powi (24 - 53) = 1 / 536870912"
    by (simp add: power_int_minus_divide)
  have a: "real_of_int (sec * 2 ^ 29) * 2 powi (24 - 53) = s"
    unfolding g s_def by simp
  have b: "real_of_int ((sec + 1) * 2 ^ 29 - 1) * 2 powi (24 - 53) = s + 1 - 1 / 536870912"
    unfolding g s_def by (simp add: field_simps)
  from float64_round_near [OF lt, of "sec * 2 ^ 29"]
  have n1: "\<bar>float64_round x - x\<bar> \<le> \<bar>s - x\<bar>"
    unfolding a .
  from float64_round_near [OF lt, of "(sec + 1) * 2 ^ 29 - 1"]
  have n2: "\<bar>float64_round x - x\<bar> \<le> \<bar>s + 1 - 1 / 536870912 - x\<bar>"
    unfolding b .
  from n1 q'(1) have lo: "s \<le> float64_round x"
    unfolding x_def by linarith
  from n2 q' have hi: "float64_round x < s + 1"
    unfolding x_def by linarith
  from lo hi have "\<lfloor>float64_round x\<rfloor> = sec"
    unfolding s_def by (intro floor_unique)
  then show ?thesis
    by (simp only: x_def s_def)
qed

lemma duration_seconds_floor:
  assumes "0 \<le> d" and "d < 16777216 * Second"
  shows "duration_seconds d = \<lfloor>real_of_int d / 1000000000\<rfloor>"
proof -
  define sec nsec where "sec = d div Second" and "nsec = d mod Second"
  have S: "Second = 1000000000" by (simp add: Second_def)
  from assms have sec: "0 \<le> sec" "sec < 16777216"
    unfolding sec_def S by linarith+
  have nsec: "0 \<le> nsec" "nsec < 1000000000"
    unfolding nsec_def S by simp_all
  have sg: "sgn d * (\<bar>d\<bar> div Second) = sec" "sgn d * (\<bar>d\<bar> mod Second) = nsec"
    using assms(1) unfolding sec_def nsec_def by (cases "d = 0"; simp)+
  have e: "float64_of_int sec = real_of_int sec" "float64_of_int nsec = real_of_int nsec"
    "float64_of_int 1000000000 = 1000000000"
    using sec nsec by (simp_all add: float64_of_int_exact)
  have "Seconds d = float64_round (real_of_int sec +
                      float64_round (real_of_int nsec / 1000000000))"
    by (simp add: Seconds_def Let_def sg e)
  moreover note float64_sum_floor [OF sec float64_fraction_bounds [OF nsec]]
  moreover have "0 \<le> float64_round (real_of_int sec +
                      float64_round (real_of_int nsec / 1000000000))"
    using calculation(2) sec(1) by (metis zero_le_floor)
  ultimately have "duration_seconds d = sec"
    by (simp add: duration_seconds_def int_of_float64_def)
  also have "sec = \<lfloor>real_of_int d / real_of_int 1000000000\<rfloor>"
    unfolding sec_def S by (rule floor_divide_of_int_eq [symmetric])
  finally show ?thesis by simp
qed


lemma duration_seconds_rounds_up: "duration_seconds 16777216999999999 = 16777217"
proof -
  define q where "q = float64_round (real_of_int 999999999 / 1000000000)"
  define y :: real where "y = real_of_int 999999999 / 1000000000"
  have y: "y = 999999999 / 1000000000" by (simp add: y_def)
  then have lt: "\<bar>y\<bar> < 2 powi 0" by simp
  have g1: "real_of_int 9007199245828096 * 2 powi (0 - 53) = 17179869167 / 17179869184"
    by (simp add: power_int_minus_divide)
  have g2: "real_of_int 9007199245303808 * 2 powi (0 - 53) = 17179869166 / 17179869184"
    by (simp add: power_int_minus_divide)
  from float64_round_near [OF lt, of 9007199245828096]
  have "\<bar>float64_round y - y\<bar> \<le> \<bar>17179869167 / 17179869184 - y\<bar>"
    unfolding g1 .
  then have hi: "q \<le> 17179869167 / 17179869184"
    unfolding q_def y_def [symmetric] unfolding y by linarith
  from float64_round_near [OF lt, of 9007199245303808]
  have "\<bar>float64_round y - y\<bar> \<le> \<bar>17179869166 / 17179869184 - y\<bar>"
    unfolding g2 .
  then have lo: "17179869166 / 17179869184 \<le> q"
    unfolding q_def y_def [symmetric] unfolding y by linarith
  define x where "x = 16777216 + q"
  from lo hi have b: "2 powi 24 \<le> \<bar>x\<bar>" "\<bar>x\<bar> < 2 powi (24 + 1)"
    unfolding x_def by simp_all
  have u: "(2::real) powi (24 - 52) = 1 / 268435456"
    by (simp add: power_int_minus_divide)
  from lo hi have "\<bar>x / (1 / 268435456) - real_of_int 4503599895805952\<bar> < 1 / 2"
    unfolding x_def by simp
  then have "round_even (x / (1 / 268435456)) = 4503599895805952"
    by (rule round_even_unique)
  with float64_round_binade [OF b] have fx: "float64_round x = 16777217"
    unfolding u by simp
  have e: "float64_of_int 16777216 = 16777216" "float64_of_int 999999999 = 999999999"
    "float64_of_int 1000000000 = 1000000000"
    using float64_of_int_exact [of 16777216] float64_of_int_exact [of 999999999]
      float64_of_int_exact [of 1000000000] by simp_all
  have "Seconds 16777216999999999 = float64_round x"
    by (simp add: Seconds_def Second_def Let_def e x_def q_def)
  then show ?thesis
    by (simp add: duration_seconds_def int_of_float64_def fx)
qed

lemma duration_seconds_negative: "duration_seconds (- 1) = 0"
proof -
  define y :: real where "y = - 1 / 1000000000"
  define q where "q = float64_round y"
  have z: "real_of_int 0 * 2 powi (0 - 53) = 0" by simp
  have "\<bar>y\<bar> < 2 powi 0" by (simp add: y_def)
  from float64_round_near [OF this, of 0] have "\<bar>q - y\<bar> \<le> \<bar>0 - y\<bar>"
    unfolding z q_def .
  then have q: "- 2 / 1000000000 \<le> q" "q \<le> 0"
    unfolding y_def by linarith+
  then have "\<bar>q\<bar> < 2 powi 0" by simp
  from float64_round_near [OF this, of 0] have "\<bar>float64_round q - q\<bar> \<le> \<bar>0 - q\<bar>"
    unfolding z .
  with q have r: "- 1 < float64_round q" "float64_round q \<le> 0"
    by linarith+
  have e: "float64_of_int 0 = 0" "float64_of_int (- 1) = - 1"
    "float64_of_int 1000000000 = 1000000000"
    using float64_of_int_exact [of 0] float64_of_int_exact [of "- 1"]
      float64_of_int_exact [of 1000000000] by simp_all
  have "Seconds (- 1) = float64_round q"
    by (simp add: Seconds_def Second_def Let_def e q_def y_def)
  moreover from r have "int_of_float64 (float64_round q) = 0"
    unfolding int_of_float64_def by (auto intro: ceiling_unique floor_unique)
  ultimately show ?thesis
    by (simp add: duration_seconds_def)
qed

subsection \<open>The fingerprint\<close>

text \<open>
  Claim C5, as the source has it. Equal tuples (sample rate, channels, bit depth, whole seconds,
  format, title) give equal fingerprints, so identical inputs give identical output; the whole
  seconds are \<^verbatim>\<open>int(meta.Duration.Seconds())\<close>, which is the floor of the duration in seconds
  for every duration from 0 up to, not including, \<open>2\<^sup>2\<^sup>4\<close> seconds, so that there equal tuples
  with the floor give equal fingerprints; the fingerprint is the hexadecimal form of the first
  16 bytes of the SHA-256 digest of the fields joined with \<^verbatim>\<open>|\<close>, 32 characters long. The
  converse direction is not part of the statement.
\<close>

theorem generateFingerprint_tuple:
  "((SampleRate m1, Channels m1, BitDepth m1, duration_seconds (Duration m1), Format m1, Title m1) =
    (SampleRate m2, Channels m2, BitDepth m2, duration_seconds (Duration m2), Format m2, Title m2)
      \<longrightarrow> generateFingerprint m1 = generateFingerprint m2) \<and>
   (0 \<le> Duration m1 \<and> Duration m1 < 16777216 * Second \<and>
    0 \<le> Duration m2 \<and> Duration m2 < 16777216 * Second \<and>
    (SampleRate m1, Channels m1, BitDepth m1, \<lfloor>real_of_int (Duration m1) / 1000000000\<rfloor>,
     Format m1, Title m1) =
    (SampleRate m2, Channels m2, BitDepth m2, \<lfloor>real_of_int (Duration m2) / 1000000000\<rfloor>,
     Format m2, Title m2)
      \<longrightarrow> generateFingerprint m1 = generateFingerprint m2) \<and>
   generateFingerprint m =
     EncodeToString (take 16 (Sum256 (bytes_of_string
       (Itoa (SampleRate m) @ ''|'' @ Itoa (Channels m) @ ''|'' @ Itoa (BitDepth m) @ ''|'' @
        Itoa (duration_seconds (Duration m)) @ ''|'' @ Format m @ ''|'' @ Title m)))) \<and>
   length (generateFingerprint m) = 32 \<and>
   (0 \<le> Duration m \<and> Duration m < 16777216 * Second \<longrightarrow>
      duration_seconds (Duration m) = \<lfloor>real_of_int (Duration m) / 1000000000\<rfloor>)"
proof -
  have eq: "generateFingerprint m1 = generateFingerprint m2"
    if "(SampleRate m1, Channels m1, BitDepth m1, duration_seconds (Duration m1), Format m1,
         Title m1) =
        (SampleRate m2, Channels m2, BitDepth m2, duration_seconds (Duration m2), Format m2,
         Title m2)"
  proof -
    from that have "fingerprint_data m1 = fingerprint_data m2"
      by (simp add: fingerprint_data_def)
    then show ?thesis
      by (simp add: generateFingerprint_def)
  qed
  have fl: "generateFingerprint m1 = generateFingerprint m2"
    if "0 \<le> Duration m1 \<and> Duration m1 < 16777216 * Second \<and>
        0 \<le> Duration m2 \<and> Duration m2 < 16777216 * Second \<and>
        (SampleRate m1, Channels m1, BitDepth m1, \<lfloor>real_of_int (Duration m1) / 1000000000\<rfloor>,
         Format m1, Title m1) =
        (SampleRate m2, Channels m2, BitDepth m2, \<lfloor>real_of_int (Duration m2) / 1000000000\<rfloor>,
         Format m2, Title m2)"
  proof -
    from that have "duration_seconds (Duration m1) = \<lfloor>real_of_int (Duration m1) / 1000000000\<rfloor>"
      "duration_seconds (Duration m2) = \<lfloor>real_of_int (Duration m2) / 1000000000\<rfloor>"
      by (simp_all add: duration_seconds_floor)
    with that show ?thesis
      by (intro eq) simp
  qed
  have str: "generateFingerprint m =
     EncodeToString (take 16 (Sum256 (bytes_of_string
       (Itoa (SampleRate m) @ ''|'' @ Itoa (Channels m) @ ''|'' @ Itoa (BitDepth m) @ ''|'' @
        Itoa (duration_seconds (Duration m)) @ ''|'' @ Format m @ ''|'' @ Title m))))"
    by (simp add: generateFingerprint_def fingerprint_data_def)
  have len: "length (generateFingerprint m) = 32"
    by (simp add: generateFingerprint_def length_EncodeToString length_Sum256)
  have d: "duration_seconds (Duration m) = \<lfloor>real_of_int (Duration m) / 1000000000\<rfloor>"
    if "0 \<le> Duration m \<and> Duration m < 16777216 * Second"
    using that by (simp add: duration_seconds_floor)
  from eq fl str len d show ?thesis
    by (intro conjI impI)
qed

theorem generateFingerprint_tuple_witness:
  "generateFingerprint (zero_meta\<lparr>Duration := 5 * Second, Format := ''WAV'', Artist := ''a''\<rparr>) =
   generateFingerprint (zero_meta\<lparr>Duration := 5 * Second + 1, Format := ''WAV'', Bitrate := 7\<rparr>) \<and>
   duration_seconds (5 * Second + 1) = 5"
proof -
  let ?m1 = "zero_meta\<lparr>Duration := 5 * Second, Format := ''WAV'', Artist := ''a''\<rparr>"
  let ?m2 = "zero_meta\<lparr>Duration := 5 * Second + 1, Format := ''WAV'', Bitrate := 7\<rparr>"
  have h: "0 \<le> Duration ?m1 \<and> Duration ?m1 < 16777216 * Second \<and>
           0 \<le> Duration ?m2 \<and> Duration ?m2 < 16777216 * Second \<and>
           (SampleRate ?m1, Channels ?m1, BitDepth ?m1, \<lfloor>real_of_int (Duration ?m1) / 1000000000\<rfloor>,
            Format ?m1, Title ?m1) =
           (SampleRate ?m2, Channels ?m2, BitDepth ?m2, \<lfloor>real_of_int (Duration ?m2) / 1000000000\<rfloor>,
            Format ?m2, Title ?m2)"
    by (simp add: zero_meta_def Second_def)
  have d: "0 \<le> Duration ?m2 \<and> Duration ?m2 < 16777216 * Second"
    by (simp add: Second_def)
  note t = generateFingerprint_tuple [of ?m1 ?m2 ?m2]
  have "generateFingerprint ?m1 = generateFingerprint ?m2"
    by (rule mp [OF conjunct1 [OF conjunct2 [OF t]] h])
  moreover have "duration_seconds (Duration ?m2) = \<lfloor>real_of_int (Duration ?m2) / 1000000000\<rfloor>"
    by (rule mp [OF conjunct2 [OF conjunct2 [OF conjunct2 [OF conjunct2 [OF t]]]] d])
  then have "duration_seconds (5 * Second + 1) = 5"
    by (simp add: Second_def)
  ultimately show ?thesis
    by (intro conjI)
qed

text \<open>
  The claim as written fails in three places. In the direction from equal fingerprints to equal
  tuples: the fields are joined with \<^verbatim>\<open>|\<close> unescaped, so the format \<^verbatim>\<open>A|B\<close> with the title
  \<^verbatim>\<open>C\<close> and the format \<^verbatim>\<open>A\<close> with the title \<^verbatim>\<open>B|C\<close> are hashed from the same string. In the
  whole seconds of a long duration: at 16777216.999999999 seconds the \<^verbatim>\<open>float64\<close> sum is
  16777217, not the floor 16777216. In the whole seconds of a negative duration: one nanosecond
  before zero gives 0, not the floor \<open>-1\<close>.
\<close>

theorem generateFingerprint_counterexample:
  "generateFingerprint (zero_meta\<lparr>Format := ''A|B'', Title := ''C''\<rparr>) =
   generateFingerprint (zero_meta\<lparr>Format := ''A'', Title := ''B|C''\<rparr>) \<and>
   (SampleRate (zero_meta\<lparr>Format := ''A|B'', Title := ''C''\<rparr>),
    Channels (zero_meta\<lparr>Format := ''A|B'', Title := ''C''\<rparr>),
    BitDepth (zero_meta\<lparr>Format := ''A|B'', Title := ''C''\<rparr>),
    \<lfloor>real_of_int (Duration (zero_meta\<lparr>Format := ''A|B'', Title := ''C''\<rparr>)) / 1000000000\<rfloor>,
    Format (zero_meta\<lparr>Format := ''A|B'', Title := ''C''\<rparr>),
    Title (zero_meta\<lparr>Format := ''A|B'', Title := ''C''\<rparr>)) \<noteq>
   (SampleRate (zero_meta\<lparr>Format := ''A'', Title := ''B|C''\<rparr>),
    Channels (zero_meta\<lparr>Format := ''A'', Title := ''B|C''\<rparr>),
    BitDepth (zero_meta\<lparr>Format := ''A'', Title := ''B|C''\<rparr>),
    \<lfloor>real_of_int (Duration (zero_meta\<lparr>Format := ''A'', Title := ''B|C''\<rparr>)) / 1000000000\<rfloor>,
    Format (zero_meta\<lparr>Format := ''A'', Title := ''B|C''\<rparr>),
    Title (zero_meta\<lparr>Format := ''A'', Title := ''B|C''\<rparr>)) \<and>
   fingerprint_data (zero_meta\<lparr>Duration := 16777216999999999\<rparr>) = ''0|0|0|16777217||'' \<and>
   \<lfloor>real_of_int (Duration (zero_meta\<lparr>Duration := 16777216999999999\<rparr>)) / 1000000000\<rfloor> =
     16777216 \<and>
   fingerprint_data (zero_meta\<lparr>Duration := - 1\<rparr>) = ''0|0|0|0||'' \<and>
   \<lfloor>real_of_int (Duration (zero_meta\<lparr>Duration := - 1\<rparr>)) / 1000000000\<rfloor> = - 1"
proof -
  have "fingerprint_data (zero_meta\<lparr>Format := ''A|B'', Title := ''C''\<rparr>) =
        fingerprint_data (zero_meta\<lparr>Format := ''A'', Title := ''B|C''\<rparr>)"
    by (simp add: fingerprint_data_def zero_meta_def)
  then have a: "generateFingerprint (zero_meta\<lparr>Format := ''A|B'', Title := ''C''\<rparr>) =
             generateFingerprint (zero_meta\<lparr>Format := ''A'', Title := ''B|C''\<rparr>)"
    by (simp only: generateFingerprint_def)
  have i: "Itoa 0 = ''0''" "Itoa 16777217 = ''16777217''"
    by (simp_all add: Itoa_def digits.simps)
  have b: "fingerprint_data (zero_meta\<lparr>Duration := 16777216999999999\<rparr>) = ''0|0|0|16777217||''"
    by (simp add: fingerprint_data_def zero_meta_def duration_seconds_rounds_up i)
  have c: "fingerprint_data (zero_meta\<lparr>Duration := - 1\<rparr>) = ''0|0|0|0||''"
    by (simp add: fingerprint_data_def zero_meta_def duration_seconds_negative i)
  from a b c show ?thesis
    by simp
qed
section \<open>Filename parsing\<close>

text \<open>
  The five fields that \<^verbatim>\<open>parseFile\<close> leaves in a record are a function of the record's
  original name and of the ID and source it had before (which \<^verbatim>\<open>parseFile\<close> keeps when the
  name holds none).
\<close>

lemma parse_id_cong:
  assumes "OriginalName a = OriginalName b" and "ID a = ID b" and "Source a = Source b"
  shows "OriginalName (fst (parse_id a n)) = OriginalName (fst (parse_id b n)) \<and>
         ID (fst (parse_id a n)) = ID (fst (parse_id b n)) \<and>
         Source (fst (parse_id a n)) = Source (fst (parse_id b n)) \<and>
         snd (parse_id a n) = snd (parse_id b n)"
  using assms by (simp add: parse_id_def split: option.splits)

lemma parse_source_cong:
  assumes "OriginalName a = OriginalName b" and "ID a = ID b" and "Source a = Source b"
  shows "OriginalName (fst (parse_source a n)) = OriginalName (fst (parse_source b n)) \<and>
         ID (fst (parse_source a n)) = ID (fst (parse_source b n)) \<and>
         Source (fst (parse_source a n)) = Source (fst (parse_source b n)) \<and>
         snd (parse_source a n) = snd (parse_source b n)"
  using assms by (simp add: parse_source_def Let_def)

lemma SplitN2_length: "Contains n [c] \<Longrightarrow> length (SplitN2 n c) = 2"
proof -
  assume "Contains n [c]"
  then have "c \<in> set n"
    by (induction n) (auto simp: prefix_def)
  then have "dropWhile (\<lambda>x. x \<noteq> c) n \<noteq> []"
    by (simp add: dropWhile_eq_Nil_conv)
  moreover have "length n = length (takeWhile (\<lambda>x. x \<noteq> c) n) + length (dropWhile (\<lambda>x. x \<noteq> c) n)"
    by (metis length_append takeWhile_dropWhile_id)
  ultimately have "length (takeWhile (\<lambda>x. x \<noteq> c) n) < length n"
    by simp
  then show ?thesis
    by (simp add: SplitN2_def Let_def)
qed

lemma parse_category_cong:
  assumes "OriginalName a = OriginalName b" and "ID a = ID b" and "Source a = Source b"
  shows "OriginalName (parse_category f a n) = OriginalName (parse_category f b n) \<and>
         ID (parse_category f a n) = ID (parse_category f b n) \<and>
         Source (parse_category f a n) = Source (parse_category f b n) \<and>
         Category (parse_category f a n) = Category (parse_category f b n) \<and>
         SubCategory (parse_category f a n) = SubCategory (parse_category f b n)"
proof (cases "Contains n ''-''")
  case True
  then have "length (SplitN2 n CHR ''-'') > 1"
    by (simp add: SplitN2_length)
  with True assms show ?thesis
    by (simp add: parse_category_def Let_def)
next
  case False
  with assms show ?thesis
    by (simp add: parse_category_def)
qed

lemma generateTags_cong:
  "Category a = Category b \<Longrightarrow> SubCategory a = SubCategory b \<Longrightarrow> Source a = Source b \<Longrightarrow>
   OriginalName a = OriginalName b \<Longrightarrow> generateTags a = generateTags b"
  by (simp add: generateTags_def)

lemma parseFile_with_fields:
  assumes "OriginalName a = OriginalName b" and "ID a = ID b" and "Source a = Source b"
  shows "Category (parseFile_with f g a) = Category (parseFile_with f g b) \<and>
         SubCategory (parseFile_with f g a) = SubCategory (parseFile_with f g b) \<and>
         Source (parseFile_with f g a) = Source (parseFile_with f g b) \<and>
         ID (parseFile_with f g a) = ID (parseFile_with f g b) \<and>
         Tags (parseFile_with f g a) = Tags (parseFile_with f g b)"
proof -
  let ?n = "TrimSuffix (OriginalName a) (Ext (OriginalName a))"
  let ?a1 = "fst (parse_id a ?n)" and ?b1 = "fst (parse_id b ?n)"
  let ?n1 = "snd (parse_id a ?n)"
  let ?a2 = "fst (parse_source ?a1 ?n1)" and ?b2 = "fst (parse_source ?b1 ?n1)"
  let ?n2 = "snd (parse_source ?a1 ?n1)"
  let ?a3 = "parse_category f ?a2 ?n2" and ?b3 = "parse_category f ?b2 ?n2"
  let ?a4 = "?a3\<lparr>Category := g (Category ?a3)\<rparr>" and ?b4 = "?b3\<lparr>Category := g (Category ?b3)\<rparr>"
  have 1: "OriginalName ?a1 = OriginalName ?b1 \<and> ID ?a1 = ID ?b1 \<and> Source ?a1 = Source ?b1 \<and>
           ?n1 = snd (parse_id b ?n)"
    using assms by (rule parse_id_cong)
  then have 2: "OriginalName ?a2 = OriginalName ?b2 \<and> ID ?a2 = ID ?b2 \<and> Source ?a2 = Source ?b2 \<and>
           ?n2 = snd (parse_source ?b1 ?n1)"
    by (intro parse_source_cong) simp_all
  then have 3: "OriginalName ?a3 = OriginalName ?b3 \<and> ID ?a3 = ID ?b3 \<and> Source ?a3 = Source ?b3 \<and>
           Category ?a3 = Category ?b3 \<and> SubCategory ?a3 = SubCategory ?b3"
    by (intro parse_category_cong) simp_all
  then have 4: "generateTags ?a4 = generateTags ?b4"
    by (intro generateTags_cong) simp_all
  have pa: "parseFile_with f g a = ?a4\<lparr>Tags := generateTags ?a4\<rparr>"
    by (simp add: parseFile_with_def Let_def split_def)
  have pb: "parseFile_with f g b = ?b4\<lparr>Tags := generateTags ?b4\<rparr>"
    using 1 2 assms(1) by (simp add: parseFile_with_def Let_def split_def)
  show ?thesis
    unfolding pa pb using 3 4 by simp
qed
section \<open>What the analysis stage leaves untouched\<close>

lemma map_update_same: "f y = f (xs ! i) \<Longrightarrow> map f (xs[i := y]) = map f xs"
proof (cases "i < length xs")
  case True
  assume "f y = f (xs ! i)"
  with True have "(map f xs)[i := f y] = (map f xs)[i := map f xs ! i]"
    by simp
  then show ?thesis
    by (simp only: map_update list_update_id)
next
  case False
  then have "length xs \<le> i" by linarith
  then have "xs[i := y] = xs" by (rule list_update_beyond)
  then show ?thesis by (simp only:)
qed

lemma collect_result_names:
  "map name_fields (audioFiles (collect_result r ap)) = map name_fields (audioFiles ap)"
proof (cases "r_err r")
  case (Some e)
  then show ?thesis by (simp add: collect_result_def)
next
  case None
  have "name_fields (apply_result r af) = name_fields af" for af
    by (simp add: apply_result_def Let_def name_fields_def)
  with None show ?thesis
    by (simp add: collect_result_def map_update_same)
qed

lemma fold_collect_result_names:
  "map name_fields (audioFiles (fold collect_result rs ap)) = map name_fields (audioFiles ap)"
  by (induction rs arbitrary: ap) (simp_all add: collect_result_names)

lemma tag_duplicate_names: "name_fields (tag_duplicate c is af) = name_fields af"
  by (simp add: tag_duplicate_def name_fields_def Let_def)

lemma tag_group_names: "map name_fields (tag_group c is files) = map name_fields files"
proof -
  have "map name_fields (fold (\<lambda>idx files. files[idx := tag_duplicate c is (files ! idx)]) js files) =
        map name_fields files" for js
    by (induction js arbitrary: files) (simp_all add: map_update_same tag_duplicate_names)
  then show ?thesis by (simp add: tag_group_def)
qed

lemma detect_step_names: "map name_fields (fst (detect_step e st)) = map name_fields (fst st)"
  by (cases e; cases st) (simp add: detect_step_def tag_group_names)

lemma fold_detect_step_names:
  "map name_fields (fst (fold detect_step es st)) = map name_fields (fst st)"
  by (induction es arbitrary: st) (simp_all add: detect_step_names)

lemma detectDuplicates_names:
  "map name_fields (audioFiles (detectDuplicates giter ap)) = map name_fields (audioFiles ap)"
  by (simp add: detectDuplicates_def fold_detect_step_names)

lemma analyzeAudioFiles_names:
  assumes "analyzeAudioFiles iters giter fs order ap = Inr ap'"
  shows "map name_fields (audioFiles ap') = map name_fields (audioFiles ap)"
proof (cases "length (audioFiles ap) = 0")
  case True
  with assms show ?thesis by (simp add: analyzeAudioFiles_def)
next
  case False
  with assms have "(case run_workers iters fs (audioFiles ap) order of
                      Inl p \<Rightarrow> Inl p
                    | Inr results \<Rightarrow> Inr (detectDuplicates giter (fold collect_result results ap))) =
                   Inr ap'"
    by (simp add: analyzeAudioFiles_def)
  then obtain results where "ap' = detectDuplicates giter (fold collect_result results ap)"
    by (cases "run_workers iters fs (audioFiles ap) order") auto
  then show ?thesis
    by (simp add: detectDuplicates_names fold_collect_result_names)
qed

lemma parseFile_final_fields:
  "name_fields a = name_fields b \<Longrightarrow> final_fields (parseFile a) = final_fields (parseFile b)"
  using parseFile_with_fields [of a b inferCategory normalizeCategory]
  by (simp add: name_fields_def final_fields_def parseFile_def)

lemma parseFile_refactored_final_fields:
  "name_fields a = name_fields b \<Longrightarrow>
   final_fields (parseFile_refactored a) = final_fields (parseFile_refactored b)"
  using parseFile_with_fields [of a b InferCategory NormalizeCategory]
  by (simp add: name_fields_def final_fields_def parseFile_refactored_def)

lemma map_parse_final_fields:
  assumes "map name_fields xs = map name_fields ys"
  shows "map (final_fields \<circ> parseFile) xs = map (final_fields \<circ> parseFile) ys"
proof (rule nth_equalityI)
  from assms have len: "length xs = length ys"
    by (rule map_eq_imp_length_eq)
  then show "length (map (final_fields \<circ> parseFile) xs) = length (map (final_fields \<circ> parseFile) ys)"
    by simp
  fix i assume "i < length (map (final_fields \<circ> parseFile) xs)"
  then have i: "i < length xs" "i < length ys" using len by simp_all
  have "map name_fields xs ! i = map name_fields ys ! i"
    by (simp only: assms)
  with i have "name_fields (xs ! i) = name_fields (ys ! i)"
    by simp
  then have "final_fields (parseFile (xs ! i)) = final_fields (parseFile (ys ! i))"
    by (rule parseFile_final_fields)
  then show "map (final_fields \<circ> parseFile) xs ! i = map (final_fields \<circ> parseFile) ys ! i"
    using i by simp
qed

text \<open>
  Claim C6. Two runs of the pipeline over the same scanned paths, with any answers of the
  file system and of the decoders (analyses that succeed or fail), any scheduling of the workers
  and any iteration orders, leave the same category, subcategory, source, ID and tags in every
  record after the parse stage: those that \<^verbatim>\<open>parseFile\<close> computes from the freshly scanned
  record, that is, from the filename alone.
\<close>

theorem Process_records_noninterference:
  assumes "Process_records iters1 giter1 fs1 order1 paths = Inr out1"
    and "Process_records iters2 giter2 fs2 order2 paths = Inr out2"
  shows "map final_fields out1 = map final_fields out2 \<and>
         map final_fields out1 = map (final_fields \<circ> parseFile) (scanFiles paths)"
proof -
  let ?ap = "NewAudioProcessor\<lparr>audioFiles := scanFiles paths\<rparr>"
  have run: "map final_fields out = map (final_fields \<circ> parseFile) (scanFiles paths)"
    if "Process_records iters giter fs order paths = Inr out" for iters giter fs order out
  proof -
    from that have "(case analyzeAudioFiles iters giter fs order ?ap of
                       Inl p \<Rightarrow> Inl p
                     | Inr ap \<Rightarrow> Inr (audioFiles (parseFiles ap))) = Inr out"
      by (simp add: Process_records_def Let_def)
    then obtain ap' where a: "analyzeAudioFiles iters giter fs order ?ap = Inr ap'"
      and o: "out = audioFiles (parseFiles ap')"
      by (cases "analyzeAudioFiles iters giter fs order ?ap") auto
    have "map name_fields (audioFiles ap') = map name_fields (audioFiles ?ap)"
      using a by (rule analyzeAudioFiles_names)
    then have "map name_fields (audioFiles ap') = map name_fields (scanFiles paths)"
      by simp
    then have "map (final_fields \<circ> parseFile) (audioFiles ap') =
               map (final_fields \<circ> parseFile) (scanFiles paths)"
      by (rule map_parse_final_fields)
    then show ?thesis
      by (simp add: o parseFiles_def)
  qed
  note r1 = run [OF assms(1)] and r2 = run [OF assms(2)]
  show ?thesis
    by (simp only: r1 r2)
qed
section \<open>The collector\<close>

lemma apply_result_Tags: "Tags (apply_result r af) = Tags af @ r_tags r"
  by (simp add: apply_result_def Let_def)

lemma apply_result_AudioMeta: "AudioMeta (apply_result r af) = r_meta r"
  by (simp add: apply_result_def Let_def)

lemma collect_result_length: "length (audioFiles (collect_result r ap)) = length (audioFiles ap)"
  by (simp add: collect_result_def split: option.splits)

lemma fold_collect_result_length:
  "length (audioFiles (fold collect_result rs ap)) = length (audioFiles ap)"
  by (induction rs arbitrary: ap) (simp_all add: collect_result_length)

lemma collect_result_other:
  "r_index r \<noteq> i \<Longrightarrow> audioFiles (collect_result r ap) ! i = audioFiles ap ! i"
  by (simp add: collect_result_def split: option.splits)

lemma collect_result_at:
  "r_index r < length (audioFiles ap) \<Longrightarrow>
   audioFiles (collect_result r ap) ! r_index r =
     (if r_err r = None then apply_result r (audioFiles ap ! r_index r)
      else audioFiles ap ! r_index r)"
  by (simp add: collect_result_def split: option.splits)

lemma fold_collect_result_untouched:
  "i \<notin> r_index ` set rs \<Longrightarrow> audioFiles (fold collect_result rs ap) ! i = audioFiles ap ! i"
  by (induction rs arbitrary: ap) (simp_all add: collect_result_other)

text \<open>
  When every job index occurs at most once among the results, the record at the index of a
  result is the record that the collector's loop body makes of the initial one.
\<close>

lemma fold_collect_result_at:
  assumes "distinct (map r_index rs)" and "r \<in> set rs" and "r_index r < length (audioFiles ap)"
  shows "audioFiles (fold collect_result rs ap) ! r_index r =
           (if r_err r = None then apply_result r (audioFiles ap ! r_index r)
            else audioFiles ap ! r_index r)"
  using assms
proof (induction rs arbitrary: ap)
  case Nil
  then show ?case by simp
next
  case (Cons x rs)
  show ?case
  proof (cases "x = r")
    case True
    from Cons.prems(1) True have "r_index r \<notin> r_index ` set rs"
      by simp
    then have "audioFiles (fold collect_result rs (collect_result r ap)) ! r_index r =
               audioFiles (collect_result r ap) ! r_index r"
      by (rule fold_collect_result_untouched)
    with True Cons.prems(3) show ?thesis
      by (simp add: collect_result_at)
  next
    case False
    with Cons.prems have in_rs: "r \<in> set rs" and d: "distinct (map r_index rs)"
      and ne: "r_index x \<noteq> r_index r"
      by auto
    have len: "r_index r < length (audioFiles (collect_result x ap))"
      using Cons.prems(3) by (simp add: collect_result_length)
    have "audioFiles (fold collect_result rs (collect_result x ap)) ! r_index r =
            (if r_err r = None then apply_result r (audioFiles (collect_result x ap) ! r_index r)
             else audioFiles (collect_result x ap) ! r_index r)"
      using d in_rs len by (rule Cons.IH)
    with ne show ?thesis
      by (simp add: collect_result_other)
  qed
qed

subsection \<open>The fingerprint map\<close>

lemma append_index_map_of:
  "map_of (append_index k i G) k' =
     (if k' = k then Some ((case map_of G k of None \<Rightarrow> [] | Some js \<Rightarrow> js) @ [i])
      else map_of G k')"
proof (cases "map_of G k")
  case None
  then show ?thesis
    by (simp add: append_index_def map_add_def split: option.splits)
next
  case (Some js)
  have "map_of (map (\<lambda>(a, v). if a = k then (a, js @ [i]) else (a, v)) H) k' =
        (if k' = k then (case map_of H k of None \<Rightarrow> None | Some v \<Rightarrow> Some (js @ [i]))
         else map_of H k')" for H
    by (induction H) auto
  with Some show ?thesis
    by (simp add: append_index_def)
qed

lemma append_index_keys:
  "fst ` set (append_index k i G) = insert k (fst ` set G)"
proof (cases "map_of G k")
  case None
  then show ?thesis
    by (simp add: append_index_def)
next
  case (Some js)
  then have "(k, js) \<in> set G"
    by (rule map_of_SomeD)
  then have "k \<in> fst ` set G"
    by force
  moreover have "map fst (map (\<lambda>(a, v). if a = k then (a, js @ [i]) else (a, v)) G) = map fst G"
    by (induction G) auto
  then have "fst ` set (map (\<lambda>(a, v). if a = k then (a, js @ [i]) else (a, v)) G) = fst ` set G"
    by (metis set_map)
  ultimately show ?thesis
    using Some by (auto simp: append_index_def)
qed

lemma append_index_distinct:
  assumes "distinct (map fst G)"
  shows "distinct (map fst (append_index k i G))"
proof (cases "map_of G k")
  case None
  then have "k \<notin> fst ` set G"
    by (simp add: map_of_eq_None_iff)
  with None assms show ?thesis
    by (simp add: append_index_def)
next
  case (Some js)
  have "map fst (map (\<lambda>(a, v). if a = k then (a, js @ [i]) else (a, v)) G) = map fst G"
    by (induction G) auto
  with assms have "distinct (map fst (map (\<lambda>(a, v). if a = k then (a, js @ [i]) else (a, v)) G))"
    by (simp only:)
  with Some show ?thesis
    by (simp only: append_index_def option.case)
qed

lemma collect_result_fingerprints:
  "fingerprints (collect_result r ap) =
     (case result_key r of Some k \<Rightarrow> append_index k (r_index r) (fingerprints ap)
      | None \<Rightarrow> fingerprints ap)"
  by (simp add: collect_result_def result_key_def track_fingerprint_def split: option.splits)

text \<open>
  After the collector has taken the results \<open>rs\<close>, starting from an empty map, the map holds
  under each key the indices of the results filed under it, in order of arrival, and no key
  without an index.
\<close>

lemma fold_collect_result_fingerprints:
  assumes "fingerprints ap = []"
  shows "distinct (map fst (fingerprints (fold collect_result rs ap))) \<and>
         (\<forall>k. map_of (fingerprints (fold collect_result rs ap)) k =
               (if indices_of k rs = [] then None else Some (indices_of k rs)))"
proof (induction rs rule: rev_induct)
  case Nil
  then show ?case by (simp add: assms indices_of_def)
next
  case (snoc r rs)
  let ?G = "fingerprints (fold collect_result rs ap)"
  from snoc have d: "distinct (map fst ?G)"
    and m: "\<And>k. map_of ?G k = (if indices_of k rs = [] then None else Some (indices_of k rs))"
    by simp_all
  show ?case
  proof (cases "result_key r")
    case None
    then have "indices_of k (rs @ [r]) = indices_of k rs" for k
      by (simp add: indices_of_def)
    with None d m show ?thesis
      by (simp add: collect_result_fingerprints)
  next
    case (Some k)
    have G': "fingerprints (fold collect_result (rs @ [r]) ap) = append_index k (r_index r) ?G"
      using Some by (simp add: collect_result_fingerprints)
    have same: "indices_of k (rs @ [r]) = indices_of k rs @ [r_index r]"
      using Some by (simp add: indices_of_def)
    have other: "indices_of k' (rs @ [r]) = indices_of k' rs" if "k' \<noteq> k" for k'
      using Some that by (simp add: indices_of_def)
    have "map_of (append_index k (r_index r) ?G) k' =
          (if indices_of k' (rs @ [r]) = [] then None else Some (indices_of k' (rs @ [r])))" for k'
    proof (cases "k' = k")
      case True
      then show ?thesis
        by (simp add: append_index_map_of m same)
    next
      case False
      then show ?thesis
        by (simp add: append_index_map_of m other)
    qed
    with d show ?thesis
      unfolding G' by (simp add: append_index_distinct)
  qed
qed
section \<open>Duplicate detection\<close>

lemma tag_duplicate_Tags:
  "Tags (tag_duplicate c js af) =
     Tags af @ (if length js > 1 then [''duplicate'', ''duplicate-group-'' @ Itoa (int c)]
                else [''duplicate''])"
  by (simp add: tag_duplicate_def Let_def)

lemma tag_duplicate_AudioMeta: "AudioMeta (tag_duplicate c js af) = AudioMeta af"
  by (simp add: tag_duplicate_def Let_def)

lemma fold_update_nth:
  assumes "distinct js" and "\<forall>j \<in> set js. j < length F"
  shows "fold (\<lambda>idx files. files[idx := g (files ! idx)]) js F =
         map (\<lambda>i. if i \<in> set js then g (F ! i) else F ! i) [0..<length F]"
  using assms
proof (induction js arbitrary: F)
  case Nil
  then show ?case by (simp add: map_nth)
next
  case (Cons j js)
  let ?F = "F[j := g (F ! j)]"
  from Cons.prems have d: "distinct js" and r: "\<forall>x \<in> set js. x < length ?F" and j: "j \<notin> set js"
    and jl: "j < length F"
    by simp_all
  have "fold (\<lambda>idx files. files[idx := g (files ! idx)]) js ?F =
        map (\<lambda>i. if i \<in> set js then g (?F ! i) else ?F ! i) [0..<length ?F]"
    using d r by (rule Cons.IH)
  also have "\<dots> = map (\<lambda>i. if i \<in> set (j # js) then g (F ! i) else F ! i) [0..<length F]"
    using j jl by (auto simp: nth_list_update)
  finally show ?case by simp
qed

lemma tag_group_nth:
  assumes "distinct js" and "\<forall>j \<in> set js. j < length F" and "i < length F"
  shows "tag_group c js F ! i = (if i \<in> set js then tag_duplicate c js (F ! i) else F ! i)"
  using assms by (simp add: tag_group_def fold_update_nth)

lemma tag_group_length: "length (tag_group c js F) = length F"
proof -
  have "length (fold (\<lambda>idx files. files[idx := g (files ! idx)]) ks F) = length F" for ks g
    by (induction ks arbitrary: F) simp_all
  then show ?thesis by (simp add: tag_group_def)
qed

lemma fold_detect_step_skip:
  "\<forall>e \<in> set es. length (snd e) \<le> 1 \<Longrightarrow> fold detect_step es st = st"
proof (induction es arbitrary: st)
  case Nil
  then show ?case by simp
next
  case (Cons e es)
  obtain k js where e: "e = (k, js)" by (cases e)
  obtain F c where st: "st = (F, c)" by (cases st)
  from Cons.prems e have "\<not> length js > 1" by simp
  then have "detect_step e st = st"
    by (simp add: detect_step_def e st)
  with Cons show ?case by simp
qed

text \<open>
  When one entry of the fingerprint map holds more than one index and every other entry at
  most one, the loop of \<^verbatim>\<open>detectDuplicates\<close> tags that one group, with the count 1, in
  whatever order it visits the map.
\<close>

lemma fold_detect_step_single:
  assumes "distinct (map fst es)" and "(f, D) \<in> set es" and "length D > 1"
    and "\<forall>e \<in> set es. fst e \<noteq> f \<longrightarrow> length (snd e) \<le> 1"
  shows "fold detect_step es (F, 0) = (tag_group 1 D F, 1)"
proof -
  from assms(2) obtain pre post where es: "es = pre @ (f, D) # post"
    by (auto dest: split_list)
  from assms(1) have "f \<notin> fst ` set pre" "f \<notin> fst ` set post"
    unfolding es by auto
  with assms(4) have pre: "\<forall>e \<in> set pre. length (snd e) \<le> 1"
    and post: "\<forall>e \<in> set post. length (snd e) \<le> 1"
    unfolding es by auto
  have "fold detect_step es (F, 0) =
        fold detect_step post (detect_step (f, D) (fold detect_step pre (F, 0)))"
    by (simp add: es)
  also have "fold detect_step pre (F, 0) = (F, 0)"
    using pre by (rule fold_detect_step_skip)
  also have "detect_step (f, D) (F, 0) = (tag_group 1 D F, 1)"
    using assms(3) by (simp add: detect_step_def)
  also have "fold detect_step post (tag_group 1 D F, 1) = (tag_group 1 D F, 1)"
    using post by (rule fold_detect_step_skip)
  finally show ?thesis .
qed

lemma fold_detect_step_none:
  assumes "\<forall>e \<in> set es. length (snd e) \<le> 1"
  shows "fst (fold detect_step es (F, 0)) = F"
  using fold_detect_step_skip [OF assms, of "(F, 0)"] by simp

subsection \<open>Tags derived from the audio\<close>

lemma digits_head: "digits n \<noteq> [] \<and> hd (digits n) \<in> set ''0123456789''"
proof (induction n rule: digits.induct)
  case (1 n)
  show ?case
  proof (cases "n < 10")
    case True
    then have "n \<in> {0, 1, 2, 3, 4, 5, 6, 7, 8, 9}" by auto
    then have "''0123456789'' ! n \<in> set ''0123456789''"
      by auto
    moreover have "digits n = [''0123456789'' ! n]"
      using True by (simp add: digits.simps [of n])
    ultimately show ?thesis
      by (simp only: list.sel) simp
  next
    case False
    with 1 have "digits (n div 10) \<noteq> [] \<and> hd (digits (n div 10)) \<in> set ''0123456789''"
      by simp
    moreover have "digits n = digits (n div 10) @ [''0123456789'' ! (n mod 10)]"
      using False by (simp add: digits.simps [of n])
    ultimately show ?thesis
      by simp
  qed
qed

lemma Itoa_head: "Itoa i \<noteq> [] \<and> hd (Itoa i) \<noteq> CHR ''d''"
proof (cases "i < 0")
  case True
  then show ?thesis by (simp add: Itoa_def)
next
  case False
  have "hd (digits (nat i)) \<in> set ''0123456789''" "digits (nat i) \<noteq> []"
    using digits_head [of "nat i"] by simp_all
  then have "hd (digits (nat i)) \<noteq> CHR ''d''"
    by auto
  with False \<open>digits (nat i) \<noteq> []\<close> show ?thesis
    by (simp add: Itoa_def)
qed

lemma Itoa_append_head: "hd (Itoa i @ s) \<noteq> CHR ''d''"
  using Itoa_head [of i] by simp

text \<open>No tag that \<^verbatim>\<open>GenerateAudioTags\<close> produces starts with the letter \<^verbatim>\<open>d\<close>.\<close>

lemma GenerateAudioTags_heads: "\<forall>t \<in> set (GenerateAudioTags m). hd t \<noteq> CHR ''d''"
proof -
  have "\<forall>t \<in> set (duration_tags m). hd t \<noteq> CHR ''d''"
    by (auto simp: duration_tags_def)
  moreover have "\<forall>t \<in> set (channel_tags m). hd t \<noteq> CHR ''d''"
    by (auto simp: channel_tags_def Itoa_append_head)
  moreover have "\<forall>t \<in> set (rate_tags m). hd t \<noteq> CHR ''d''"
    by (auto simp: rate_tags_def Itoa_append_head)
  moreover have "\<forall>t \<in> set (depth_tags m). hd t \<noteq> CHR ''d''"
    by (auto simp: depth_tags_def Itoa_append_head)
  moreover have "\<forall>t \<in> set (bitrate_tags m). hd t \<noteq> CHR ''d''"
    by (auto simp: bitrate_tags_def)
  moreover have "\<forall>t \<in> set (embedded_tag_tags m). hd t \<noteq> CHR ''d''"
    by (auto simp: embedded_tag_tags_def)
  moreover have "set (GenerateAudioTags m) =
      set (duration_tags m) \<union> set (channel_tags m) \<union> set (rate_tags m) \<union>
      set (depth_tags m) \<union> set (bitrate_tags m) \<union> set (embedded_tag_tags m)"
    by (simp add: GenerateAudioTags_def Let_def Un_assoc)
  ultimately show ?thesis
    by blast
qed
section \<open>Workers\<close>

lemma worker_Inr:
  assumes "worker iter fs i file = Inr r"
  shows "r_index r = i"
    and "r_err r = None \<longrightarrow> (\<exists>m. AnalyzeFile (fs (OriginalPath file)) (OriginalPath file) = Inr m \<and>
                                   r_meta r = Some m \<and> r_tags r = GenerateAudioTags m)"
    and "r_err r \<noteq> None \<longrightarrow> (\<exists>e. AnalyzeFile (fs (OriginalPath file)) (OriginalPath file) = Inl (Error e))"
proof -
  let ?A = "AnalyzeFile (fs (OriginalPath file)) (OriginalPath file)"
  have "r_index r = i \<and>
        (r_err r = None \<longrightarrow> (\<exists>m. ?A = Inr m \<and> r_meta r = Some m \<and> r_tags r = GenerateAudioTags m)) \<and>
        (r_err r \<noteq> None \<longrightarrow> (\<exists>e. ?A = Inl (Error e)))"
  proof (cases ?A)
    case (Inl fl)
    then show ?thesis
    proof (cases fl)
      case (Error e)
      with Inl assms have "r = \<lparr>r_index = i, r_meta = None, r_tags = [], r_cat = [], r_err = Some e\<rparr>"
        by (simp add: worker_def)
      with Inl Error show ?thesis by simp
    next
      case (Panic p)
      with Inl assms show ?thesis by (simp add: worker_def)
    qed
  next
    case (Inr m)
    with assms have "r = \<lparr>r_index = i, r_meta = Some m, r_tags = GenerateAudioTags m,
        r_cat = CategoryResult.Category
          \<lparr>CategoryResult.Category = fst (find_best (iter (accumulated_scores m (OriginalName file)))),
           CategoryResult.Confidence =
             max 0.3 (min (snd (find_best (iter (accumulated_scores m (OriginalName file)))) / 1.5) 1)\<rparr>,
        r_err = None\<rparr>"
      by (simp add: worker_def InferCategoryWithConfidence_Some)
    with Inr show ?thesis by simp
  qed
  then show "r_index r = i"
    and "r_err r = None \<longrightarrow> (\<exists>m. ?A = Inr m \<and> r_meta r = Some m \<and> r_tags r = GenerateAudioTags m)"
    and "r_err r \<noteq> None \<longrightarrow> (\<exists>e. ?A = Inl (Error e))"
    by simp_all
qed

lemma run_workers_Inr:
  "run_workers iters fs files order = Inr rs \<Longrightarrow>
   list_all2 (\<lambda>i r. worker (iters i) fs i (files ! i) = Inr r) order rs"
proof (induction order arbitrary: rs)
  case Nil
  then show ?case by simp
next
  case (Cons i order)
  from Cons.prems obtain r where r: "worker (iters i) fs i (files ! i) = Inr r"
    by (cases "worker (iters i) fs i (files ! i)") simp_all
  with Cons.prems obtain rs' where rs': "run_workers iters fs files order = Inr rs'"
    by (cases "run_workers iters fs files order") simp_all
  with r Cons.prems have "rs = r # rs'" by simp
  with r rs' Cons.IH show ?case by simp
qed

lemma run_workers_indices:
  assumes "run_workers iters fs files order = Inr rs"
  shows "map r_index rs = order"
proof (rule nth_equalityI)
  from run_workers_Inr [OF assms]
  have all: "list_all2 (\<lambda>i r. worker (iters i) fs i (files ! i) = Inr r) order rs" .
  then have len: "length order = length rs"
    by (rule list_all2_lengthD)
  then show "length (map r_index rs) = length order" by simp
  fix k assume "k < length (map r_index rs)"
  then have k: "k < length rs" by simp
  with all have "worker (iters (order ! k)) fs (order ! k) (files ! (order ! k)) = Inr (rs ! k)"
    by (simp add: list_all2_conv_all_nth)
  then have "r_index (rs ! k) = order ! k"
    by (rule worker_Inr(1))
  with k show "map r_index rs ! k = order ! k" by simp
qed

lemma run_workers_member:
  assumes "run_workers iters fs files order = Inr rs" and "r \<in> set rs"
  shows "worker (iters (r_index r)) fs (r_index r) (files ! r_index r) = Inr r"
proof -
  from assms(2) obtain k where k: "k < length rs" "rs ! k = r"
    by (auto simp: in_set_conv_nth)
  from run_workers_Inr [OF assms(1)]
  have all: "list_all2 (\<lambda>i r. worker (iters i) fs i (files ! i) = Inr r) order rs" .
  then have "worker (iters (order ! k)) fs (order ! k) (files ! (order ! k)) = Inr (rs ! k)"
    using k(1) by (simp add: list_all2_conv_all_nth)
  moreover from this have "r_index (rs ! k) = order ! k"
    by (rule worker_Inr(1))
  ultimately show ?thesis
    using k(2) by simp
qed

lemma analyzeAudioFiles_Inr:
  assumes "analyzeAudioFiles iters giter fs order ap = Inr ap'" and "audioFiles ap \<noteq> []"
  shows "\<exists>rs. run_workers iters fs (audioFiles ap) order = Inr rs \<and>
              ap' = detectDuplicates giter (fold collect_result rs ap)"
proof -
  from assms have "(case run_workers iters fs (audioFiles ap) order of
                      Inl p \<Rightarrow> Inl p
                    | Inr results \<Rightarrow> Inr (detectDuplicates giter (fold collect_result results ap))) =
                   Inr ap'"
    by (simp add: analyzeAudioFiles_def)
  then show ?thesis
    by (cases "run_workers iters fs (audioFiles ap) order") auto
qed

lemma new_record_fields:
  "Tags (new_record p) = []" "AudioMeta (new_record p) = None" "OriginalPath (new_record p) = p"
  "ID (new_record p) = []" "Source (new_record p) = []" "OriginalName (new_record p) = Base p"
  by (simp_all add: new_record_def)

lemma scanFiles_fresh:
  "\<forall>af \<in> set (scanFiles paths). Tags af = [] \<and> AudioMeta af = None \<and>
     ToLower (Ext (OriginalPath af)) \<in> set extensions"
proof -
  let ?P = "\<lambda>af. Tags af = [] \<and> AudioMeta af = None \<and>
                 ToLower (Ext (OriginalPath af)) \<in> set extensions"
  let ?step = "\<lambda>path files.
      if ToLower (Ext path) \<in> set extensions then files @ [new_record path] else files"
  have step: "\<forall>af \<in> set (?step path acc). ?P af" if "\<forall>af \<in> set acc. ?P af" for path acc
  proof (cases "ToLower (Ext path) \<in> set extensions")
    case True
    then have "?P (new_record path)"
      by (simp add: new_record_fields)
    with that True show ?thesis
      by simp
  next
    case False
    with that show ?thesis by (simp only: if_False)
  qed
  have "\<forall>af \<in> set acc. ?P af \<Longrightarrow> \<forall>af \<in> set (fold ?step paths acc). ?P af" for acc
  proof (induction paths arbitrary: acc)
    case Nil
    then show ?case by simp
  next
    case (Cons p ps)
    from Cons.prems have "\<forall>af \<in> set (?step p acc). ?P af"
      by (rule step)
    then have "\<forall>af \<in> set (fold ?step ps (?step p acc)). ?P af"
      by (rule Cons.IH)
    then show ?case by (simp only: fold_simps)
  qed
  from this [of "[]"] show ?thesis
    by (simp add: scanFiles_def)
qed

lemma fold_detect_step_AudioMeta:
  "map AudioMeta (fst (fold detect_step es st)) = map AudioMeta (fst st)"
proof (induction es arbitrary: st)
  case Nil
  then show ?case by simp
next
  case (Cons e es)
  obtain k js where e: "e = (k, js)" by (cases e)
  obtain F c where st: "st = (F, c)" by (cases st)
  have "map AudioMeta (fold (\<lambda>idx files. files[idx := tag_duplicate d js (files ! idx)]) ks H) =
        map AudioMeta H" for ks H d
    by (induction ks arbitrary: H) (simp_all add: map_update_same tag_duplicate_AudioMeta)
  then have "map AudioMeta (fst (detect_step e st)) = map AudioMeta (fst st)"
    by (simp add: detect_step_def e st tag_group_def)
  with Cons.IH [of "detect_step e st"] show ?case by simp
qed
section \<open>Duplicate grouping\<close>

lemma is_group_tag_head: "is_group_tag t \<Longrightarrow> hd t = CHR ''d''"
  by (auto simp: is_group_tag_def prefix_def)

lemma card_le_one_length:
  assumes "distinct js" and "\<forall>i \<in> set js. \<forall>j \<in> set js. i = j"
  shows "length js \<le> 1"
proof (rule ccontr)
  assume "\<not> length js \<le> 1"
  then have l: "0 < length js" "1 < length js" by linarith+
  then have "js ! 0 \<in> set js" "js ! 1 \<in> set js"
    by (simp_all only: nth_mem)
  with assms(2) have "js ! 0 = js ! 1" by blast
  with assms(1) l have "(0::nat) = 1"
    by (simp only: nth_eq_iff_index_eq)
  then show False by simp
qed

text \<open>
  The state of the records and of the fingerprint map when the collector has taken every
  result, for a batch of freshly scanned records whose jobs are answered once each.
\<close>

lemma collected_state:
  assumes rs: "run_workers iters fs files order = Inr rs"
    and files: "files = scanFiles paths"
    and ap: "audioFiles ap = files" "fingerprints ap = []"
    and order: "mset order = mset [0..<length files]"
    and i: "i < length files"
  shows "\<exists>r \<in> set rs. r_index r = i \<and>
           record_fingerprint (audioFiles (fold collect_result rs ap) ! i) =
             (case result_key r of Some k \<Rightarrow> k | None \<Rightarrow> []) \<and>
           (\<forall>t \<in> set (Tags (audioFiles (fold collect_result rs ap) ! i)). hd t \<noteq> CHR ''d'')"
proof -
  have idx: "map r_index rs = order"
    using rs by (rule run_workers_indices)
  from order have d: "distinct order" and s: "set order = {0..<length files}"
    by (metis distinct_upt mset_eq_imp_distinct_iff, metis mset_eq_setD set_upt)
  from i s idx obtain r where r: "r \<in> set rs" "r_index r = i"
    by (metis atLeastLessThan_iff image_iff le0 set_map)
  have w: "worker (iters i) fs i (files ! i) = Inr r"
    using run_workers_member [OF rs r(1)] r(2) by simp
  have fresh: "Tags (files ! i) = []" "AudioMeta (files ! i) = None"
    using scanFiles_fresh [of paths] i files by simp_all
  have at: "audioFiles (fold collect_result rs ap) ! i =
            (if r_err r = None then apply_result r (files ! i) else files ! i)"
    using fold_collect_result_at [of rs r ap] d idx r i ap(1) by simp
  show ?thesis
  proof (cases "r_err r")
    case None
    with worker_Inr(2) [OF w] obtain m where m: "r_meta r = Some m" "r_tags r = GenerateAudioTags m"
      by blast
    have "record_fingerprint (apply_result r (files ! i)) = Fingerprint m"
      by (simp add: record_fingerprint_def apply_result_AudioMeta m)
    moreover have "(case result_key r of Some k \<Rightarrow> k | None \<Rightarrow> []) = Fingerprint m"
      by (simp add: result_key_def None m)
    moreover have "\<forall>t \<in> set (Tags (apply_result r (files ! i))). hd t \<noteq> CHR ''d''"
      using GenerateAudioTags_heads [of m] by (simp add: apply_result_Tags fresh m)
    ultimately show ?thesis
      using r None at by auto
  next
    case (Some e)
    then have "result_key r = None"
      by (simp add: result_key_def)
    with Some at fresh r show ?thesis
      by (auto simp: record_fingerprint_def)
  qed
qed

lemma indices_of_filter:
  assumes "\<forall>r \<in> set rs. result_key r = Some k \<longleftrightarrow> fp (r_index r) = k"
  shows "indices_of k rs = filter (\<lambda>i. fp i = k) (map r_index rs)"
proof -
  have "filter (\<lambda>r. result_key r = Some k) rs = filter (\<lambda>r. fp (r_index r) = k) rs"
    using assms by (intro filter_cong) simp_all
  then show ?thesis
    by (simp add: indices_of_def filter_map comp_def)
qed

text \<open>
  Claim C4. Take a batch of freshly scanned records whose analysis pass completes, every job
  being answered once, in any order of arrival and with any iteration order over the
  fingerprint map. If, right after the pass, more than one record carries the non-empty
  fingerprint \<open>f\<close> and the fingerprints of the other records are empty or pairwise distinct,
  then exactly the records with fingerprint \<open>f\<close> carry the tag \<^verbatim>\<open>duplicate\<close>, each of them
  carries \<^verbatim>\<open>duplicate-group-1\<close>, and no record carries any other \<^verbatim>\<open>duplicate-group-\<close> tag.
\<close>

theorem detectDuplicates_grouping:
  assumes run: "analyzeAudioFiles iters giter fs order ap = Inr ap'"
    and scan: "ap = NewAudioProcessor\<lparr>audioFiles := scanFiles paths\<rparr>"
    and order: "mset order = mset [0..<length (scanFiles paths)]"
    and giter: "\<And>G. mset (giter G) = mset G"
    and f: "f \<noteq> []"
    and N: "card {i. i < length (audioFiles ap') \<and> record_fingerprint (audioFiles ap' ! i) = f} > 1"
    and M: "\<forall>i < length (audioFiles ap'). \<forall>j < length (audioFiles ap').
              i \<noteq> j \<and> record_fingerprint (audioFiles ap' ! i) \<noteq> f \<and>
              record_fingerprint (audioFiles ap' ! i) \<noteq> [] \<longrightarrow>
              record_fingerprint (audioFiles ap' ! i) \<noteq> record_fingerprint (audioFiles ap' ! j)"
  shows "\<forall>i < length (audioFiles ap').
           (''duplicate'' \<in> set (Tags (audioFiles ap' ! i)) \<longleftrightarrow>
              record_fingerprint (audioFiles ap' ! i) = f) \<and>
           (record_fingerprint (audioFiles ap' ! i) = f \<longrightarrow>
              ''duplicate-group-1'' \<in> set (Tags (audioFiles ap' ! i))) \<and>
           (\<forall>t \<in> set (Tags (audioFiles ap' ! i)). is_group_tag t \<longrightarrow>
              t = ''duplicate-group-1'' \<and> record_fingerprint (audioFiles ap' ! i) = f)"
proof -
  let ?files = "scanFiles paths"
  let ?n = "length ?files"
  have apf: "audioFiles ap = ?files" "fingerprints ap = []"
    by (simp_all add: scan NewAudioProcessor_def)
  have ne: "audioFiles ap \<noteq> []"
  proof
    assume "audioFiles ap = []"
    with run have "ap' = ap" by (simp add: analyzeAudioFiles_def)
    with \<open>audioFiles ap = []\<close> N show False by simp
  qed
  from analyzeAudioFiles_Inr [OF run ne] obtain rs
    where rs: "run_workers iters fs ?files order = Inr rs"
      and ap': "ap' = detectDuplicates giter (fold collect_result rs ap)"
    unfolding apf by blast
  let ?apc = "fold collect_result rs ap"
  let ?Fc = "audioFiles ?apc"
  let ?G = "fingerprints ?apc"
  let ?fpc = "\<lambda>i. record_fingerprint (?Fc ! i)"
  have idx: "map r_index rs = order"
    using rs by (rule run_workers_indices)
  from order have d: "distinct order" and s: "set order = {0..<?n}"
    by (metis distinct_upt mset_eq_imp_distinct_iff, metis mset_eq_setD set_upt)
  have lenc: "length ?Fc = ?n"
    by (simp add: fold_collect_result_length apf)
  have len': "length (audioFiles ap') = ?n"
    using detectDuplicates_names [of giter ?apc] lenc
    by (metis ap' length_map)
  have col: "\<exists>r \<in> set rs. r_index r = i \<and>
               ?fpc i = (case result_key r of Some k \<Rightarrow> k | None \<Rightarrow> []) \<and>
               (\<forall>t \<in> set (Tags (?Fc ! i)). hd t \<noteq> CHR ''d'')" if "i < ?n" for i
    using collected_state [OF rs refl apf order that] .
  \<comment> \<open>the duplicate detection leaves the fingerprints of the records as they are\<close>
  have meta: "map AudioMeta (audioFiles ap') = map AudioMeta ?Fc"
    by (simp add: ap' detectDuplicates_def fold_detect_step_AudioMeta)
  have fp': "record_fingerprint (audioFiles ap' ! i) = ?fpc i" if "i < ?n" for i
  proof -
    from that have "map AudioMeta (audioFiles ap') ! i = AudioMeta (audioFiles ap' ! i)"
      "map AudioMeta ?Fc ! i = AudioMeta (?Fc ! i)"
      by (simp_all add: len' lenc)
    with meta show ?thesis
      by (simp add: record_fingerprint_def)
  qed
  \<comment> \<open>a result is filed under a key exactly when its record has that fingerprint\<close>
  have key: "result_key r = Some k \<longleftrightarrow> ?fpc (r_index r) = k" if "r \<in> set rs" "k \<noteq> []" for r k
  proof -
    from that(1) idx s have ri: "r_index r < ?n"
      by (metis atLeastLessThan_iff image_eqI set_map)
    from col [OF ri] obtain r' where r': "r' \<in> set rs" "r_index r' = r_index r"
      and fpr: "?fpc (r_index r) = (case result_key r' of Some k \<Rightarrow> k | None \<Rightarrow> [])"
      by blast
    from d idx have "distinct (map r_index rs)" by simp
    with r' that(1) have "r' = r"
      by (meson distinct_map inj_on_def)
    with fpr that(2) show ?thesis
      by (cases "result_key r") auto
  qed
  have ind: "indices_of k rs = filter (\<lambda>i. ?fpc i = k) order" if "k \<noteq> []" for k
    using indices_of_filter [of rs k ?fpc] key [OF _ that] idx by simp
  have keys_ne: "k \<noteq> []" if "indices_of k rs \<noteq> []" for k
  proof -
    from that obtain r where "r \<in> set rs" "result_key r = Some k"
      by (auto simp: indices_of_def filter_empty_conv)
    then show ?thesis
      by (auto simp: result_key_def split: option.splits if_splits)
  qed
  note G = fold_collect_result_fingerprints [OF apf(2), of rs]
  \<comment> \<open>the group of the shared fingerprint\<close>
  let ?D = "filter (\<lambda>i. ?fpc i = f) order"
  have setD: "set ?D = {i. i < ?n \<and> ?fpc i = f}"
    using s by auto
  have "{i. i < length (audioFiles ap') \<and> record_fingerprint (audioFiles ap' ! i) = f} = set ?D"
    unfolding setD len' using fp' by auto
  with N have cD: "card (set ?D) > 1" by simp
  have dD: "distinct ?D" using d by simp
  have lD: "length ?D > 1"
    using cD by (simp only: distinct_card [OF dD])
  then have "indices_of f rs \<noteq> []" "indices_of f rs = ?D"
    using ind [OF f] by auto
  with G have "map_of ?G f = Some ?D" by simp
  then have inG: "(f, ?D) \<in> set ?G"
    by (rule map_of_SomeD)
  \<comment> \<open>every other group has one member\<close>
  have others: "length (snd e) \<le> 1" if e: "e \<in> set ?G" "fst e \<noteq> f" for e
  proof -
    obtain k js where kjs: "e = (k, js)" by (cases e)
    with e G have "map_of ?G k = Some js"
      by (intro map_of_is_SomeI) simp_all
    with G have js: "js = indices_of k rs" "indices_of k rs \<noteq> []"
      by (simp_all split: if_splits)
    then have k: "k \<noteq> []" by (intro keys_ne)
    with js have js': "js = filter (\<lambda>i. ?fpc i = k) order"
      by (simp add: ind)
    have "i = j" if "i \<in> set js" "j \<in> set js" for i j
    proof (rule ccontr)
      assume "i \<noteq> j"
      from that js' s have ij: "i < ?n" "j < ?n" "?fpc i = k" "?fpc j = k"
        by auto
      from M have "?fpc i \<noteq> ?fpc j" if "i \<noteq> j" "?fpc i \<noteq> f" "?fpc i \<noteq> []"
        using that ij(1,2) by (simp add: len' fp')
      with ij \<open>i \<noteq> j\<close> k e(2) kjs show False
        by simp
    qed
    moreover have "distinct js" using d js' by simp
    ultimately have "length js \<le> 1"
      by (intro card_le_one_length) blast+
    with kjs show ?thesis by simp
  qed
  \<comment> \<open>so the loop tags that one group, whatever the order of the iteration\<close>
  have setg: "set (giter ?G) = set ?G"
    using giter [of ?G] by (rule mset_eq_setD)
  have "mset (map fst (giter ?G)) = mset (map fst ?G)"
    using giter [of ?G] by (metis mset_map)
  with G have dg: "distinct (map fst (giter ?G))"
    by (metis mset_eq_imp_distinct_iff)
  have "fold detect_step (giter ?G) (?Fc, 0) = (tag_group 1 ?D ?Fc, 1)"
    using dg inG lD others unfolding setg [symmetric]
    by (intro fold_detect_step_single) auto
  then have F': "audioFiles ap' = tag_group 1 ?D ?Fc"
    by (simp add: ap' detectDuplicates_def)
  have inr: "\<forall>j \<in> set ?D. j < length ?Fc"
    using s lenc by auto
  have one: "Itoa 1 = ''1''"
    by (simp add: Itoa_def digits.simps)
  have grp: "is_group_tag ''duplicate-group-1''" "\<not> is_group_tag ''duplicate''"
    by (simp_all add: is_group_tag_def)
  show ?thesis
  proof (intro allI impI)
    fix i assume "i < length (audioFiles ap')"
    then have i: "i < ?n" by (simp add: len')
    from col [OF i] have heads: "\<forall>t \<in> set (Tags (?Fc ! i)). hd t \<noteq> CHR ''d''"
      by blast
    then have nodup: "''duplicate'' \<notin> set (Tags (?Fc ! i))"
      and nogrp: "\<forall>t \<in> set (Tags (?Fc ! i)). \<not> is_group_tag t"
      using is_group_tag_head by fastforce+
    have mem: "i \<in> set ?D \<longleftrightarrow> record_fingerprint (audioFiles ap' ! i) = f"
      using i s fp' by auto
    have at: "audioFiles ap' ! i = (if i \<in> set ?D then tag_duplicate 1 ?D (?Fc ! i) else ?Fc ! i)"
      unfolding F' using dD inr i lenc by (intro tag_group_nth) simp_all
    show "(''duplicate'' \<in> set (Tags (audioFiles ap' ! i)) \<longleftrightarrow>
              record_fingerprint (audioFiles ap' ! i) = f) \<and>
           (record_fingerprint (audioFiles ap' ! i) = f \<longrightarrow>
              ''duplicate-group-1'' \<in> set (Tags (audioFiles ap' ! i))) \<and>
           (\<forall>t \<in> set (Tags (audioFiles ap' ! i)). is_group_tag t \<longrightarrow>
              t = ''duplicate-group-1'' \<and> record_fingerprint (audioFiles ap' ! i) = f)"
    proof (cases "i \<in> set ?D")
      case True
      then have "audioFiles ap' ! i = tag_duplicate 1 ?D (?Fc ! i)"
        by (simp only: at if_True)
      then have T: "Tags (audioFiles ap' ! i) = Tags (?Fc ! i) @ [''duplicate'', ''duplicate-group-1'']"
        using lD by (simp add: tag_duplicate_Tags one)
      from True mem have "record_fingerprint (audioFiles ap' ! i) = f" by blast
      with nogrp grp show ?thesis
        unfolding T by auto
    next
      case False
      then have T: "Tags (audioFiles ap' ! i) = Tags (?Fc ! i)"
        by (simp only: at if_False)
      from False mem have "record_fingerprint (audioFiles ap' ! i) \<noteq> f" by blast
      with nodup nogrp show ?thesis
        unfolding T by auto
    qed
  qed
qed
section \<open>A sample run\<close>

lemma generateFingerprint_nonempty: "generateFingerprint m \<noteq> []"
proof -
  have "length (generateFingerprint m) = 32"
    by (simp add: generateFingerprint_def length_EncodeToString length_Sum256)
  then show ?thesis by auto
qed

lemma sample_exts:
  "ToLower (Ext ''a/shot.wav'') = ''.wav''" "ToLower (Ext ''b/shot.wav'') = ''.wav''"
  "ToLower (Ext ''c/rain.mp3'') = ''.mp3''"
  by (simp_all add: Ext_def ToLower_def lower_char_def is_upper_def)

lemma sample_scan:
  "scanFiles sample_paths =
     [new_record ''a/shot.wav'', new_record ''b/shot.wav'', new_record ''c/rain.mp3'']"
  by (simp add: scanFiles_def sample_paths_def sample_exts extensions_def)

lemma AnalyzeFile_io_wav:
  assumes "ToLower (Ext p) = ''.wav''"
  shows "AnalyzeFile io_wav p = Inr sample_wav_meta"
proof -
  have w: "analyzeWAV io_wav zero_meta = Inr sample_wav_meta"
    by (simp add: analyzeWAV_def io_wav_def wav_duration_def sample_wav_meta_def Let_def)
  have s: "analyzeSpectral io_wav sample_wav_meta = Inl (Error NotEnoughSamples)"
    by (simp add: analyzeSpectral_def io_wav_def sample_wav_meta_def spectral_samples_def
        max_samples_def Let_def)
  have t: "readEmbeddedTags io_wav zero_meta = Inl TagReadFailed"
    by (simp add: readEmbeddedTags_def io_wav_def)
  have o: "open_ok io_wav" "seek_ok io_wav" "seek_again_ok io_wav"
    by (simp_all add: io_wav_def)
  show ?thesis
    by (simp add: AnalyzeFile_def assms w s t o)
qed

lemma AnalyzeFile_io_plain_mp3:
  assumes "ToLower (Ext p) = ''.mp3''"
  shows "AnalyzeFile io_plain p = Inr (zero_meta\<lparr>Format := ''mp3''\<rparr>)"
  by (simp add: AnalyzeFile_def assms io_plain_def readEmbeddedTags_def analyzeCompressed_def
      drop_dot_def)

lemma sample_wav_tags: "GenerateAudioTags sample_wav_meta = [''short'', ''1-5s'', ''mono'', ''8kHz'']"
proof -
  have "Itoa 8 = ''8''"
    by (simp add: Itoa_def digits.simps)
  then show ?thesis
    by (simp add: GenerateAudioTags_def duration_tags_def channel_tags_def rate_tags_def
        depth_tags_def bitrate_tags_def embedded_tag_tags_def sample_wav_meta_def Let_def
        zero_meta_def Second_def)
qed

lemma sample_mp3_tags: "GenerateAudioTags (zero_meta\<lparr>Format := ''mp3''\<rparr>) = []"
  by (simp add: GenerateAudioTags_def duration_tags_def channel_tags_def rate_tags_def
      depth_tags_def bitrate_tags_def embedded_tag_tags_def zero_meta_def)

lemma sample_fingerprints:
  "Fingerprint sample_wav_meta \<noteq> []" "Fingerprint (zero_meta\<lparr>Format := ''mp3''\<rparr>) = []"
  by (simp_all add: sample_wav_meta_def Let_def generateFingerprint_nonempty zero_meta_def)

text \<open>
  The analysis pass on the sample batch, the results arriving in the order 1, 2, 0: both WAV
  records get the audio tags and the two duplicate tags, the third record gets none.
\<close>

lemma sample_run:
  "\<exists>ap'. analyzeAudioFiles (\<lambda>i. id) id sample_fs [1, 2, 0]
            (NewAudioProcessor\<lparr>audioFiles := scanFiles sample_paths\<rparr>) = Inr ap' \<and>
         map Tags (audioFiles ap') =
           [[''short'', ''1-5s'', ''mono'', ''8kHz'', ''duplicate'', ''duplicate-group-1''],
            [''short'', ''1-5s'', ''mono'', ''8kHz'', ''duplicate'', ''duplicate-group-1''],
            []] \<and>
         map record_fingerprint (audioFiles ap') =
           [Fingerprint sample_wav_meta, Fingerprint sample_wav_meta, []] \<and>
         map name_fields (audioFiles ap') = map name_fields (scanFiles sample_paths)"
proof -
  let ?f0 = "new_record ''a/shot.wav''" and ?f1 = "new_record ''b/shot.wav''"
  let ?f2 = "new_record ''c/rain.mp3''"
  let ?ap = "NewAudioProcessor\<lparr>audioFiles := [?f0, ?f1, ?f2]\<rparr>"
  let ?wt = "[''short'', ''1-5s'', ''mono'', ''8kHz'']"
  have a: "AnalyzeFile (sample_fs ''a/shot.wav'') ''a/shot.wav'' = Inr sample_wav_meta"
    "AnalyzeFile (sample_fs ''b/shot.wav'') ''b/shot.wav'' = Inr sample_wav_meta"
    "AnalyzeFile (sample_fs ''c/rain.mp3'') ''c/rain.mp3'' = Inr (zero_meta\<lparr>Format := ''mp3''\<rparr>)"
    by (simp_all add: sample_fs_def sample_exts AnalyzeFile_io_wav AnalyzeFile_io_plain_mp3)
  obtain c0 c1 c2 where
    w: "worker id sample_fs 0 ?f0 =
          Inr \<lparr>r_index = 0, r_meta = Some sample_wav_meta, r_tags = ?wt, r_cat = c0, r_err = None\<rparr>"
       "worker id sample_fs 1 ?f1 =
          Inr \<lparr>r_index = 1, r_meta = Some sample_wav_meta, r_tags = ?wt, r_cat = c1, r_err = None\<rparr>"
       "worker id sample_fs 2 ?f2 =
          Inr \<lparr>r_index = 2, r_meta = Some (zero_meta\<lparr>Format := ''mp3''\<rparr>), r_tags = [], r_cat = c2,
               r_err = None\<rparr>"
    by (simp add: worker_def new_record_fields a InferCategoryWithConfidence_Some sample_wav_tags
        sample_mp3_tags)
  let ?r0 = "\<lparr>r_index = 0, r_meta = Some sample_wav_meta, r_tags = ?wt, r_cat = c0, r_err = None\<rparr>"
  let ?r1 = "\<lparr>r_index = 1, r_meta = Some sample_wav_meta, r_tags = ?wt, r_cat = c1, r_err = None\<rparr>"
  let ?r2 = "\<lparr>r_index = 2, r_meta = Some (zero_meta\<lparr>Format := ''mp3''\<rparr>), r_tags = [], r_cat = c2,
             r_err = None\<rparr>"
  from w(2) have w1: "worker id sample_fs (Suc 0) ?f1 = Inr ?r1"
    by simp
  have rw: "run_workers (\<lambda>i. id) sample_fs [?f0, ?f1, ?f2] [1, 2, 0] = Inr [?r1, ?r2, ?r0]"
    by (simp add: w w1)
  define apc where "apc = fold collect_result [?r1, ?r2, ?r0] ?ap"
  have fps: "fingerprints apc = [(Fingerprint sample_wav_meta, [1, 0])]"
    unfolding apc_def
    by (simp add: collect_result_fingerprints result_key_def sample_fingerprints
        append_index_def NewAudioProcessor_def)
  have files: "audioFiles apc = [apply_result ?r0 ?f0, apply_result ?r1 ?f1, apply_result ?r2 ?f2]"
    unfolding apc_def by (simp add: collect_result_def NewAudioProcessor_def)
  have one: "Itoa 1 = ''1''"
    by (simp add: Itoa_def digits.simps)
  define F where "F = fst (fold detect_step (fingerprints apc) (audioFiles apc, 0))"
  have F: "F = [tag_duplicate 1 [1, 0] (apply_result ?r0 ?f0),
                tag_duplicate 1 [1, 0] (apply_result ?r1 ?f1), apply_result ?r2 ?f2]"
    unfolding F_def fps files by (simp add: detect_step_def tag_group_def)
  have run: "analyzeAudioFiles (\<lambda>i. id) id sample_fs [1, 2, 0] ?ap = Inr (detectDuplicates id apc)"
    unfolding apc_def using rw by (simp add: analyzeAudioFiles_def del: run_workers.simps)
  have out: "audioFiles (detectDuplicates id apc) = F"
    by (simp add: detectDuplicates_def F_def)
  have tags: "map Tags F = [[''short'', ''1-5s'', ''mono'', ''8kHz'', ''duplicate'', ''duplicate-group-1''],
                            [''short'', ''1-5s'', ''mono'', ''8kHz'', ''duplicate'', ''duplicate-group-1''],
                            []]"
    unfolding F by (simp add: tag_duplicate_Tags apply_result_Tags new_record_fields one)
  have fp: "map record_fingerprint F = [Fingerprint sample_wav_meta, Fingerprint sample_wav_meta, []]"
    unfolding F
    by (simp add: record_fingerprint_def tag_duplicate_AudioMeta apply_result_AudioMeta
        sample_fingerprints)
  have "map name_fields (audioFiles (detectDuplicates id apc)) = map name_fields (audioFiles ?ap)"
    unfolding apc_def by (simp only: detectDuplicates_names fold_collect_result_names)
  then have names: "map name_fields F = map name_fields [?f0, ?f1, ?f2]"
    by (simp add: out)
  show ?thesis
    unfolding sample_scan
  proof (intro exI conjI)
    show "analyzeAudioFiles (\<lambda>i. id) id sample_fs [1, 2, 0] ?ap = Inr (detectDuplicates id apc)"
      by (rule run)
    show "map Tags (audioFiles (detectDuplicates id apc)) =
          [[''short'', ''1-5s'', ''mono'', ''8kHz'', ''duplicate'', ''duplicate-group-1''],
           [''short'', ''1-5s'', ''mono'', ''8kHz'', ''duplicate'', ''duplicate-group-1''],
           []]"
      unfolding out by (rule tags)
    show "map record_fingerprint (audioFiles (detectDuplicates id apc)) =
          [Fingerprint sample_wav_meta, Fingerprint sample_wav_meta, []]"
      unfolding out by (rule fp)
    show "map name_fields (audioFiles (detectDuplicates id apc)) = map name_fields [?f0, ?f1, ?f2]"
      unfolding out by (rule names)
  qed
qed
text \<open>The grouping theorem at the sample batch: two WAV files with the same format tuple and one MP3 file.\<close>

theorem detectDuplicates_grouping_witness:
  "\<exists>ap'. analyzeAudioFiles (\<lambda>i. id) id sample_fs [1, 2, 0]
            (NewAudioProcessor\<lparr>audioFiles := scanFiles sample_paths\<rparr>) = Inr ap' \<and>
         mset [1, 2, 0] = mset [0..<length (scanFiles sample_paths)] \<and>
         Fingerprint sample_wav_meta \<noteq> [] \<and>
         map record_fingerprint (audioFiles ap') =
           [Fingerprint sample_wav_meta, Fingerprint sample_wav_meta, []] \<and>
         card {i. i < length (audioFiles ap') \<and>
                  record_fingerprint (audioFiles ap' ! i) = Fingerprint sample_wav_meta} = 2 \<and>
         map (\<lambda>af. ''duplicate'' \<in> set (Tags af)) (audioFiles ap') = [True, True, False] \<and>
         map (\<lambda>af. ''duplicate-group-1'' \<in> set (Tags af)) (audioFiles ap') = [True, True, False]"
proof -
  let ?f = "Fingerprint sample_wav_meta"
  from sample_run obtain ap' where
    all: "analyzeAudioFiles (\<lambda>i. id) id sample_fs [1, 2, 0]
            (NewAudioProcessor\<lparr>audioFiles := scanFiles sample_paths\<rparr>) = Inr ap' \<and>
         map Tags (audioFiles ap') =
           [[''short'', ''1-5s'', ''mono'', ''8kHz'', ''duplicate'', ''duplicate-group-1''],
            [''short'', ''1-5s'', ''mono'', ''8kHz'', ''duplicate'', ''duplicate-group-1''],
            []] \<and>
         map record_fingerprint (audioFiles ap') = [?f, ?f, []] \<and>
         map name_fields (audioFiles ap') = map name_fields (scanFiles sample_paths)"
    ..
  from all have run: "analyzeAudioFiles (\<lambda>i. id) id sample_fs [1, 2, 0]
            (NewAudioProcessor\<lparr>audioFiles := scanFiles sample_paths\<rparr>) = Inr ap'"
    by (rule conjunct1)
  from all have fps: "map record_fingerprint (audioFiles ap') = [?f, ?f, []]"
    by (elim conjE)
  have f: "?f \<noteq> []"
    by (rule sample_fingerprints(1))
  from fps have len: "length (audioFiles ap') = 3"
    by (metis length_map length_Cons list.size(3) numeral_3_eq_3)
  from fps obtain x0 x1 x2 where xs: "audioFiles ap' = [x0, x1, x2]"
    and x: "record_fingerprint x0 = ?f" "record_fingerprint x1 = ?f" "record_fingerprint x2 = []"
    by auto
  have order: "mset [1, 2, 0] = mset [0..<length (scanFiles sample_paths)]"
    by (simp add: sample_scan upt_rec)
  have set: "{i. i < length (audioFiles ap') \<and> record_fingerprint (audioFiles ap' ! i) = ?f} = {0, 1}"
    using f x by (auto simp add: xs less_Suc_eq nth_Cons')
  have N: "card {i. i < length (audioFiles ap') \<and> record_fingerprint (audioFiles ap' ! i) = ?f} > 1"
    unfolding set by simp
  have M: "\<forall>i < length (audioFiles ap'). \<forall>j < length (audioFiles ap').
              i \<noteq> j \<and> record_fingerprint (audioFiles ap' ! i) \<noteq> ?f \<and>
              record_fingerprint (audioFiles ap' ! i) \<noteq> [] \<longrightarrow>
              record_fingerprint (audioFiles ap' ! i) \<noteq> record_fingerprint (audioFiles ap' ! j)"
    using x by (auto simp add: xs less_Suc_eq nth_Cons')
  have g: "\<And>G :: (string \<times> nat list) list. mset (id G) = mset G"
    by simp
  note t = detectDuplicates_grouping [OF run refl order g f N M]
  from t have t0: "''duplicate'' \<in> set (Tags x0)" "''duplicate-group-1'' \<in> set (Tags x0)"
    using x(1) by (auto simp add: xs)
  from t have t1: "''duplicate'' \<in> set (Tags x1)" "''duplicate-group-1'' \<in> set (Tags x1)"
    using x(2) by (auto simp add: xs)
  have g1: "is_group_tag ''duplicate-group-1''"
    by (simp add: is_group_tag_def)
  from t have t2: "''duplicate'' \<notin> set (Tags x2)" "''duplicate-group-1'' \<notin> set (Tags x2)"
    using x(3) f g1 by (auto simp add: xs)
  have card: "card {i. i < length (audioFiles ap') \<and> record_fingerprint (audioFiles ap' ! i) = ?f} = 2"
    unfolding set by simp
  show ?thesis
    using run order f fps card t0 t1 t2 by (intro exI [of _ ap']) (simp add: xs)
qed
section \<open>The parse stage on the sample batch\<close>

lemma sample_parse:
  "final_fields (parseFile (new_record ''a/shot.wav'')) =
     (''SFX_WEAPON'', ''shot'', [], [], [''SFX_WEAPON'', ''shot''])"
  "final_fields (parseFile (new_record ''b/shot.wav'')) =
     (''SFX_WEAPON'', ''shot'', [], [], [''SFX_WEAPON'', ''shot''])"
  "final_fields (parseFile (new_record ''c/rain.mp3'')) =
     (''Ambient'', ''rain'', [], [], [''Ambient'', ''rain''])"
  by code_simp+

lemma sample_parse_all:
  "map (final_fields \<circ> parseFile) (scanFiles sample_paths) =
     [(''SFX_WEAPON'', ''shot'', [], [], [''SFX_WEAPON'', ''shot'']),
      (''SFX_WEAPON'', ''shot'', [], [], [''SFX_WEAPON'', ''shot'']),
      (''Ambient'', ''rain'', [], [], [''Ambient'', ''rain''])]"
  by (simp add: sample_scan sample_parse)

lemma Tags_final_fields: "map Tags xs = map (\<lambda>t. snd (snd (snd (snd t)))) (map final_fields xs)"
  by (simp add: final_fields_def)

lemma AnalyzeFile_io_unreadable: "AnalyzeFile io_unreadable p = Inl (Error FailedToOpen)"
  by (simp add: AnalyzeFile_def io_unreadable_def)

lemma Process_records_Inr:
  assumes "analyzeAudioFiles iters giter fs order (NewAudioProcessor\<lparr>audioFiles := scanFiles paths\<rparr>) =
             Inr ap'"
  shows "Process_records iters giter fs order paths = Inr (audioFiles (parseFiles ap'))"
  using assms by (simp add: Process_records_def)

text \<open>
  Claim C3. On the sample batch the two WAV records leave the analysis stage with four audio
  tags and the two duplicate tags, and the parse stage that follows replaces the tags of every
  record by those of \<^verbatim>\<open>generateTags\<close>: the records go to the renaming and manifest steps
  without any of the tags appended before.
\<close>

theorem parseFiles_overwrites_Tags:
  "map_sum id (\<lambda>ap. map Tags (audioFiles ap))
     (analyzeAudioFiles (\<lambda>i. id) id sample_fs [1, 2, 0]
        (NewAudioProcessor\<lparr>audioFiles := scanFiles sample_paths\<rparr>)) =
     Inr [[''short'', ''1-5s'', ''mono'', ''8kHz'', ''duplicate'', ''duplicate-group-1''],
          [''short'', ''1-5s'', ''mono'', ''8kHz'', ''duplicate'', ''duplicate-group-1''],
          []] \<and>
   map_sum id (map Tags) (Process_records (\<lambda>i. id) id sample_fs [1, 2, 0] sample_paths) =
     Inr [[''SFX_WEAPON'', ''shot''], [''SFX_WEAPON'', ''shot''], [''Ambient'', ''rain'']]"
proof -
  from sample_run obtain ap' where
    all: "analyzeAudioFiles (\<lambda>i. id) id sample_fs [1, 2, 0]
            (NewAudioProcessor\<lparr>audioFiles := scanFiles sample_paths\<rparr>) = Inr ap' \<and>
         map Tags (audioFiles ap') =
           [[''short'', ''1-5s'', ''mono'', ''8kHz'', ''duplicate'', ''duplicate-group-1''],
            [''short'', ''1-5s'', ''mono'', ''8kHz'', ''duplicate'', ''duplicate-group-1''],
            []] \<and>
         map record_fingerprint (audioFiles ap') =
           [Fingerprint sample_wav_meta, Fingerprint sample_wav_meta, []] \<and>
         map name_fields (audioFiles ap') = map name_fields (scanFiles sample_paths)"
    ..
  from all have run: "analyzeAudioFiles (\<lambda>i. id) id sample_fs [1, 2, 0]
            (NewAudioProcessor\<lparr>audioFiles := scanFiles sample_paths\<rparr>) = Inr ap'"
    by (rule conjunct1)
  from all have tags: "map Tags (audioFiles ap') =
           [[''short'', ''1-5s'', ''mono'', ''8kHz'', ''duplicate'', ''duplicate-group-1''],
            [''short'', ''1-5s'', ''mono'', ''8kHz'', ''duplicate'', ''duplicate-group-1''],
            []]"
    by (elim conjE)
  from all have "map name_fields (audioFiles ap') = map name_fields (scanFiles sample_paths)"
    by (elim conjE)
  then have "map (final_fields \<circ> parseFile) (audioFiles ap') =
             map (final_fields \<circ> parseFile) (scanFiles sample_paths)"
    by (rule map_parse_final_fields)
  then have ff: "map final_fields (audioFiles (parseFiles ap')) =
      [(''SFX_WEAPON'', ''shot'', [], [], [''SFX_WEAPON'', ''shot'']),
       (''SFX_WEAPON'', ''shot'', [], [], [''SFX_WEAPON'', ''shot'']),
       (''Ambient'', ''rain'', [], [], [''Ambient'', ''rain''])]"
    unfolding sample_parse_all by (simp add: parseFiles_def)
  have parsed: "map Tags (audioFiles (parseFiles ap')) =
      [[''SFX_WEAPON'', ''shot''], [''SFX_WEAPON'', ''shot''], [''Ambient'', ''rain'']]"
    unfolding Tags_final_fields [of "audioFiles (parseFiles ap')"] ff by simp
  have p: "Process_records (\<lambda>i. id) id sample_fs [1, 2, 0] sample_paths =
           Inr (audioFiles (parseFiles ap'))"
    using run by (rule Process_records_Inr)
  show ?thesis
    unfolding run p by (simp add: tags parsed)
qed
text \<open>
  The noninterference theorem at the sample batch: one run in which the two WAV files are
  analysed, and one in which no file can be opened, with another order of arrival.
\<close>

theorem Process_records_noninterference_witness:
  "\<exists>out1 out2.
     Process_records (\<lambda>i. id) id sample_fs [1, 2, 0] sample_paths = Inr out1 \<and>
     Process_records (\<lambda>i. id) rev (\<lambda>p. io_unreadable) [0, 1, 2] sample_paths = Inr out2 \<and>
     map final_fields out1 = map final_fields out2 \<and>
     map final_fields out1 =
       [(''SFX_WEAPON'', ''shot'', [], [], [''SFX_WEAPON'', ''shot'']),
        (''SFX_WEAPON'', ''shot'', [], [], [''SFX_WEAPON'', ''shot'']),
        (''Ambient'', ''rain'', [], [], [''Ambient'', ''rain''])]"
proof -
  from sample_run obtain ap' where
    all: "analyzeAudioFiles (\<lambda>i. id) id sample_fs [1, 2, 0]
            (NewAudioProcessor\<lparr>audioFiles := scanFiles sample_paths\<rparr>) = Inr ap' \<and>
         map Tags (audioFiles ap') =
           [[''short'', ''1-5s'', ''mono'', ''8kHz'', ''duplicate'', ''duplicate-group-1''],
            [''short'', ''1-5s'', ''mono'', ''8kHz'', ''duplicate'', ''duplicate-group-1''],
            []] \<and>
         map record_fingerprint (audioFiles ap') =
           [Fingerprint sample_wav_meta, Fingerprint sample_wav_meta, []] \<and>
         map name_fields (audioFiles ap') = map name_fields (scanFiles sample_paths)"
    ..
  from all have "analyzeAudioFiles (\<lambda>i. id) id sample_fs [1, 2, 0]
            (NewAudioProcessor\<lparr>audioFiles := scanFiles sample_paths\<rparr>) = Inr ap'"
    by (rule conjunct1)
  then have p1: "Process_records (\<lambda>i. id) id sample_fs [1, 2, 0] sample_paths =
                 Inr (audioFiles (parseFiles ap'))"
    by (rule Process_records_Inr)
  have "\<exists>ap2. analyzeAudioFiles (\<lambda>i. id) rev (\<lambda>p. io_unreadable) [0, 1, 2]
            (NewAudioProcessor\<lparr>audioFiles := scanFiles sample_paths\<rparr>) = Inr ap2"
    unfolding sample_scan
    by (simp add: analyzeAudioFiles_def worker_def AnalyzeFile_io_unreadable)
  then obtain ap2 where "analyzeAudioFiles (\<lambda>i. id) rev (\<lambda>p. io_unreadable) [0, 1, 2]
            (NewAudioProcessor\<lparr>audioFiles := scanFiles sample_paths\<rparr>) = Inr ap2"
    ..
  then have p2: "Process_records (\<lambda>i. id) rev (\<lambda>p. io_unreadable) [0, 1, 2] sample_paths =
                 Inr (audioFiles (parseFiles ap2))"
    by (rule Process_records_Inr)
  note t = Process_records_noninterference [OF p1 p2]
  from t have e: "map final_fields (audioFiles (parseFiles ap')) =
                  map final_fields (audioFiles (parseFiles ap2))"
    by (rule conjunct1)
  from t have "map final_fields (audioFiles (parseFiles ap')) =
               map (final_fields \<circ> parseFile) (scanFiles sample_paths)"
    by (rule conjunct2)
  then have v: "map final_fields (audioFiles (parseFiles ap')) =
       [(''SFX_WEAPON'', ''shot'', [], [], [''SFX_WEAPON'', ''shot'']),
        (''SFX_WEAPON'', ''shot'', [], [], [''SFX_WEAPON'', ''shot'']),
        (''Ambient'', ''rain'', [], [], [''Ambient'', ''rain''])]"
    unfolding sample_parse_all .
  show ?thesis
  proof (intro exI conjI)
    show "Process_records (\<lambda>i. id) id sample_fs [1, 2, 0] sample_paths =
          Inr (audioFiles (parseFiles ap'))"
      by (rule p1)
    show "Process_records (\<lambda>i. id) rev (\<lambda>p. io_unreadable) [0, 1, 2] sample_paths =
          Inr (audioFiles (parseFiles ap2))"
      by (rule p2)
    show "map final_fields (audioFiles (parseFiles ap')) =
          map final_fields (audioFiles (parseFiles ap2))"
      by (rule e)
    show "map final_fields (audioFiles (parseFiles ap')) =
       [(''SFX_WEAPON'', ''shot'', [], [], [''SFX_WEAPON'', ''shot'']),
        (''SFX_WEAPON'', ''shot'', [], [], [''SFX_WEAPON'', ''shot'']),
        (''Ambient'', ''rain'', [], [], [''Ambient'', ''rain''])]"
      by (rule v)
  qed
qed
section \<open>Fingerprints and the file extension\<close>

lemma readEmbeddedTags_Fingerprint:
  "readEmbeddedTags io meta = Inr m \<Longrightarrow> Fingerprint m = Fingerprint meta"
  by (auto simp: readEmbeddedTags_def split: option.splits)

lemma analyzeCompressed_Fingerprint:
  "analyzeCompressed io meta = Inr m \<Longrightarrow> Fingerprint m = Fingerprint meta"
  by (auto simp: analyzeCompressed_def Let_def split: option.splits if_splits)

lemma tagged_meta_Fingerprint:
  "Fingerprint (case readEmbeddedTags io zero_meta of Inr m \<Rightarrow> m | Inl e \<Rightarrow> zero_meta) = []"
proof (cases "readEmbeddedTags io zero_meta")
  case (Inl e)
  then show ?thesis by (simp add: zero_meta_def)
next
  case (Inr m)
  then have "Fingerprint m = Fingerprint zero_meta"
    by (rule readEmbeddedTags_Fingerprint)
  also have "\<dots> = []"
    by (simp add: zero_meta_def)
  finally show ?thesis
    by (simp add: Inr)
qed

lemma AnalyzeFile_not_wav:
  assumes ext: "ToLower (Ext p) \<noteq> ''.wav''" and res: "AnalyzeFile io p = Inr m"
  shows "Fingerprint m = []"
proof -
  define meta where "meta = (case readEmbeddedTags io zero_meta of Inr m \<Rightarrow> m | Inl e \<Rightarrow> zero_meta)"
  have fp: "Fingerprint meta = []"
    unfolding meta_def by (rule tagged_meta_Fingerprint)
  define other where "other = (case drop_dot (ToLower (Ext p)) of
      Inl q \<Rightarrow> Inl (Panic q) | Inr f \<Rightarrow> Inr (meta\<lparr>Format := f\<rparr>))"
  have o: "Fingerprint m = []" if "other = Inr m"
    using that fp by (auto simp: other_def split: sum.splits)
  have "AnalyzeFile io p =
          (if \<not> open_ok io then Inl (Error FailedToOpen)
           else if \<not> seek_ok io then Inl (Error FailedToSeek)
           else if ToLower (Ext p) \<in> set [''.mp3'', ''.ogg'', ''.flac'', ''.aac'', ''.m4a'', ''.wma'']
           then (case analyzeCompressed io meta of Inr m \<Rightarrow> Inr m | Inl e \<Rightarrow> other)
           else other)"
    by (simp only: AnalyzeFile_def Let_def meta_def other_def ext if_False)
  with res have c:
    "(if ToLower (Ext p) \<in> set [''.mp3'', ''.ogg'', ''.flac'', ''.aac'', ''.m4a'', ''.wma'']
      then (case analyzeCompressed io meta of Inr m \<Rightarrow> Inr m | Inl e \<Rightarrow> other)
      else other) = Inr m"
    by (simp only: split: if_splits) simp_all
  show ?thesis
  proof (cases "analyzeCompressed io meta")
    case (Inl e)
    with c have "other = Inr m" by (simp split: if_splits)
    then show ?thesis by (rule o)
  next
    case (Inr m')
    from analyzeCompressed_Fingerprint [OF this] fp have m': "Fingerprint m' = []" by simp
    from c Inr have "m = m' \<or> other = Inr m" by (simp split: if_splits)
    with m' o show ?thesis by blast
  qed
qed

lemma AnalyzeFile_not_wav_returns:
  assumes ext: "ToLower (Ext p) \<noteq> ''.wav''" "ToLower (Ext p) \<noteq> []"
    and io: "open_ok io" "seek_ok io"
  shows "\<exists>m. AnalyzeFile io p = Inr m"
proof -
  define meta where "meta = (case readEmbeddedTags io zero_meta of Inr m \<Rightarrow> m | Inl e \<Rightarrow> zero_meta)"
  define other where "other = (case drop_dot (ToLower (Ext p)) of
      Inl q \<Rightarrow> Inl (Panic q) | Inr f \<Rightarrow> Inr (meta\<lparr>Format := f\<rparr>))"
  from ext(2) obtain f where "drop_dot (ToLower (Ext p)) = Inr f"
    by (cases "ToLower (Ext p)") (simp_all add: drop_dot_def)
  then have o: "other = Inr (meta\<lparr>Format := f\<rparr>)"
    by (simp add: other_def)
  have "AnalyzeFile io p =
          (if \<not> open_ok io then Inl (Error FailedToOpen)
           else if \<not> seek_ok io then Inl (Error FailedToSeek)
           else if ToLower (Ext p) \<in> set [''.mp3'', ''.ogg'', ''.flac'', ''.aac'', ''.m4a'', ''.wma'']
           then (case analyzeCompressed io meta of Inr m \<Rightarrow> Inr m | Inl e \<Rightarrow> other)
           else other)"
    by (simp only: AnalyzeFile_def Let_def meta_def other_def ext if_False)
  then have a: "AnalyzeFile io p =
          (if ToLower (Ext p) \<in> set [''.mp3'', ''.ogg'', ''.flac'', ''.aac'', ''.m4a'', ''.wma'']
           then (case analyzeCompressed io meta of Inr m \<Rightarrow> Inr m
                 | Inl e \<Rightarrow> Inr (meta\<lparr>Format := f\<rparr>))
           else Inr (meta\<lparr>Format := f\<rparr>))"
    by (simp only: io o not_True_eq_False if_False)
  show ?thesis
  proof (cases "analyzeCompressed io meta")
    case (Inl e)
    show ?thesis
      unfolding a Inl
      by (cases "ToLower (Ext p) \<in> set [''.mp3'', ''.ogg'', ''.flac'', ''.aac'', ''.m4a'', ''.wma'']")
        (simp_all only: if_True if_False sum.case sum.inject simp_thms)
  next
    case (Inr m')
    show ?thesis
      unfolding a Inr
      by (cases "ToLower (Ext p) \<in> set [''.mp3'', ''.ogg'', ''.flac'', ''.aac'', ''.m4a'', ''.wma'']")
        (simp_all only: if_True if_False sum.case sum.inject simp_thms)
  qed
qed

lemma update_fold_untouched:
  "i \<notin> set js \<Longrightarrow> fold (\<lambda>idx files. files[idx := g (files ! idx)]) js F ! i = F ! i"
  by (induction js arbitrary: F) simp_all

lemma fold_detect_step_untouched:
  "i \<notin> \<Union> (set ` snd ` set es) \<Longrightarrow> fst (fold detect_step es st) ! i = fst st ! i"
proof (induction es arbitrary: st)
  case Nil
  then show ?case by simp
next
  case (Cons e es)
  obtain k js where e: "e = (k, js)" by (cases e)
  obtain F c where st: "st = (F, c)" by (cases st)
  from Cons.prems e have i: "i \<notin> set js" "i \<notin> \<Union> (set ` snd ` set es)"
    by simp_all
  have "fst (detect_step e st) ! i = F ! i"
    using i(1) by (simp add: e st detect_step_def tag_group_def update_fold_untouched)
  with Cons.IH [OF i(2), of "detect_step e st"] show ?case
    by (simp add: st)
qed
text \<open>
  Claim C10, as the source has it. Take a path whose extension, in lower case, is not
  \<^verbatim>\<open>.wav\<close>. Whatever the file holds, the metadata that \<^verbatim>\<open>AnalyzeFile\<close> returns for it has an
  empty fingerprint, and \<^verbatim>\<open>AnalyzeFile\<close> does return metadata when the file opens and rewinds
  and the extension is not empty. So in a batch of freshly scanned records whose analysis pass
  completes, every job being answered once, a record with this path has an empty fingerprint
  when the pass with its duplicate detection ends, its index occurs under no key of the
  fingerprint map, and it does not carry the tag \<^verbatim>\<open>duplicate\<close> then.
\<close>

theorem AnalyzeFile_fingerprint_wav_only:
  assumes ext: "ToLower (Ext p) \<noteq> ''.wav''"
  shows "(\<forall>io m. AnalyzeFile io p = Inr m \<longrightarrow> Fingerprint m = []) \<and>
         (\<forall>io. open_ok io \<and> seek_ok io \<and> ToLower (Ext p) \<noteq> [] \<longrightarrow>
               (\<exists>m. AnalyzeFile io p = Inr m)) \<and>
         (\<forall>iters giter fs order paths ap' i.
            analyzeAudioFiles iters giter fs order
              (NewAudioProcessor\<lparr>audioFiles := scanFiles paths\<rparr>) = Inr ap' \<and>
            mset order = mset [0..<length (scanFiles paths)] \<and>
            (\<forall>G. mset (giter G) = mset G) \<and>
            i < length (scanFiles paths) \<and> OriginalPath (scanFiles paths ! i) = p \<longrightarrow>
            record_fingerprint (audioFiles ap' ! i) = [] \<and>
            i \<notin> \<Union> (set ` snd ` set (fingerprints ap')) \<and>
            ''duplicate'' \<notin> set (Tags (audioFiles ap' ! i)))"
proof -
  have A: "\<forall>io m. AnalyzeFile io p = Inr m \<longrightarrow> Fingerprint m = []"
    using ext AnalyzeFile_not_wav by blast
  have B: "\<forall>io. open_ok io \<and> seek_ok io \<and> ToLower (Ext p) \<noteq> [] \<longrightarrow>
               (\<exists>m. AnalyzeFile io p = Inr m)"
    using ext AnalyzeFile_not_wav_returns by blast
  have C: "record_fingerprint (audioFiles ap' ! i) = [] \<and>
           i \<notin> \<Union> (set ` snd ` set (fingerprints ap')) \<and>
           ''duplicate'' \<notin> set (Tags (audioFiles ap' ! i))"
    if a: "analyzeAudioFiles iters giter fs order
             (NewAudioProcessor\<lparr>audioFiles := scanFiles paths\<rparr>) = Inr ap' \<and>
           mset order = mset [0..<length (scanFiles paths)] \<and>
           (\<forall>G. mset (giter G) = mset G) \<and>
           i < length (scanFiles paths) \<and> OriginalPath (scanFiles paths ! i) = p"
    for iters giter fs order paths ap' i
  proof -
    let ?files = "scanFiles paths"
    let ?ap = "NewAudioProcessor\<lparr>audioFiles := ?files\<rparr>"
    from a have run: "analyzeAudioFiles iters giter fs order ?ap = Inr ap'"
      and order: "mset order = mset [0..<length ?files]"
      and giter: "\<And>G. mset (giter G) = mset G"
      and i: "i < length ?files" and p: "OriginalPath (?files ! i) = p"
      by simp_all
    have apf: "audioFiles ?ap = ?files" "fingerprints ?ap = []"
      by (simp_all add: NewAudioProcessor_def)
    from i have ne: "audioFiles ?ap \<noteq> []"
      unfolding apf by auto
    from analyzeAudioFiles_Inr [OF run ne] obtain rs
      where rs: "run_workers iters fs ?files order = Inr rs"
        and ap': "ap' = detectDuplicates giter (fold collect_result rs ?ap)"
      unfolding apf by blast
    let ?apc = "fold collect_result rs ?ap"
    let ?G = "fingerprints ?apc"
    have nokey: "result_key r = None" if r: "r \<in> set rs" "r_index r = i" for r
    proof (rule ccontr)
      assume "result_key r \<noteq> None"
      then obtain m where m: "r_err r = None" "r_meta r = Some m" "Fingerprint m \<noteq> []"
        by (auto simp: result_key_def split: option.splits if_splits)
      have w: "worker (iters i) fs i (?files ! i) = Inr r"
        using run_workers_member [OF rs r(1)] r(2) by simp
      from worker_Inr(2) [OF w] m(1,2) have "AnalyzeFile (fs p) p = Inr m"
        by (simp add: p)
      with ext have "Fingerprint m = []"
        by (rule AnalyzeFile_not_wav)
      with m(3) show False by simp
    qed
    have noidx: "i \<notin> set (indices_of k rs)" for k
      using nokey by (auto simp: indices_of_def)
    from fold_collect_result_fingerprints [OF apf(2), of rs]
    have d: "distinct (map fst ?G)"
      and mp: "\<And>k. map_of ?G k = (if indices_of k rs = [] then None else Some (indices_of k rs))"
      by simp_all
    have out: "i \<notin> \<Union> (set ` snd ` set ?G)"
    proof
      assume "i \<in> \<Union> (set ` snd ` set ?G)"
      then obtain k js where e: "(k, js) \<in> set ?G" "i \<in> set js"
        by auto
      from d e(1) have "map_of ?G k = Some js"
        by simp
      with mp [of k] have "js = indices_of k rs"
        by (simp split: if_splits)
      with e(2) noidx [of k] show False by simp
    qed
    from giter [of ?G] have "set (giter ?G) = set ?G"
      by (rule mset_eq_setD)
    with out have out': "i \<notin> \<Union> (set ` snd ` set (giter ?G))"
      by simp
    have same: "audioFiles ap' ! i = audioFiles ?apc ! i"
      using fold_detect_step_untouched [OF out', of "(audioFiles ?apc, 0)"]
      by (simp add: ap' detectDuplicates_def)
    from collected_state [OF rs refl apf order i] obtain r where r: "r \<in> set rs" "r_index r = i"
      and fp: "record_fingerprint (audioFiles ?apc ! i) =
                 (case result_key r of Some k \<Rightarrow> k | None \<Rightarrow> [])"
      and heads: "\<forall>t \<in> set (Tags (audioFiles ?apc ! i)). hd t \<noteq> CHR ''d''"
      by blast
    from fp nokey [OF r] have "record_fingerprint (audioFiles ap' ! i) = []"
      by (simp add: same)
    moreover have "i \<notin> \<Union> (set ` snd ` set (fingerprints ap'))"
      using out by (simp add: ap' detectDuplicates_def)
    moreover from heads have "''duplicate'' \<notin> set (Tags (audioFiles ap' ! i))"
      unfolding same by auto
    ultimately show ?thesis
      by (intro conjI)
  qed
  from A B C show ?thesis
    by blast
qed

text \<open>The theorem at the MP3 file of the sample batch, the third record.\<close>

theorem AnalyzeFile_fingerprint_wav_only_witness:
  "ToLower (Ext ''c/rain.mp3'') \<noteq> ''.wav'' \<and>
   (\<exists>m. AnalyzeFile io_plain ''c/rain.mp3'' = Inr m \<and> Fingerprint m = []) \<and>
   (\<exists>ap'. analyzeAudioFiles (\<lambda>i. id) id sample_fs [1, 2, 0]
            (NewAudioProcessor\<lparr>audioFiles := scanFiles sample_paths\<rparr>) = Inr ap' \<and>
          OriginalPath (scanFiles sample_paths ! 2) = ''c/rain.mp3'' \<and>
          record_fingerprint (audioFiles ap' ! 2) = [] \<and>
          2 \<notin> \<Union> (set ` snd ` set (fingerprints ap')) \<and>
          ''duplicate'' \<notin> set (Tags (audioFiles ap' ! 2)))"
proof -
  have ext: "ToLower (Ext ''c/rain.mp3'') \<noteq> ''.wav''" "ToLower (Ext ''c/rain.mp3'') \<noteq> []"
    by (simp_all add: sample_exts)
  note t = AnalyzeFile_fingerprint_wav_only [OF ext(1)]
  have io: "open_ok io_plain \<and> seek_ok io_plain \<and> ToLower (Ext ''c/rain.mp3'') \<noteq> []"
    using ext(2) by (simp add: io_plain_def)
  from t have "\<forall>io. open_ok io \<and> seek_ok io \<and> ToLower (Ext ''c/rain.mp3'') \<noteq> [] \<longrightarrow>
               (\<exists>m. AnalyzeFile io ''c/rain.mp3'' = Inr m)"
    by (elim conjE)
  with io obtain m where m: "AnalyzeFile io_plain ''c/rain.mp3'' = Inr m"
    by blast
  from t have "\<forall>io m. AnalyzeFile io ''c/rain.mp3'' = Inr m \<longrightarrow> Fingerprint m = []"
    by (elim conjE)
  with m have fm: "Fingerprint m = []"
    by blast
  from sample_run obtain ap' where
    all: "analyzeAudioFiles (\<lambda>i. id) id sample_fs [1, 2, 0]
            (NewAudioProcessor\<lparr>audioFiles := scanFiles sample_paths\<rparr>) = Inr ap' \<and>
         map Tags (audioFiles ap') =
           [[''short'', ''1-5s'', ''mono'', ''8kHz'', ''duplicate'', ''duplicate-group-1''],
            [''short'', ''1-5s'', ''mono'', ''8kHz'', ''duplicate'', ''duplicate-group-1''],
            []] \<and>
         map record_fingerprint (audioFiles ap') =
           [Fingerprint sample_wav_meta, Fingerprint sample_wav_meta, []] \<and>
         map name_fields (audioFiles ap') = map name_fields (scanFiles sample_paths)"
    ..
  from all have run: "analyzeAudioFiles (\<lambda>i. id) id sample_fs [1, 2, 0]
            (NewAudioProcessor\<lparr>audioFiles := scanFiles sample_paths\<rparr>) = Inr ap'"
    by (rule conjunct1)
  have order: "mset [1, 2, 0] = mset [0..<length (scanFiles sample_paths)]"
    by (simp add: sample_scan upt_rec)
  have g: "\<forall>G :: (string \<times> nat list) list. mset (id G) = mset G"
    by simp
  have i: "2 < length (scanFiles sample_paths)"
    and p: "OriginalPath (scanFiles sample_paths ! 2) = ''c/rain.mp3''"
    by (simp_all add: sample_scan new_record_fields)
  from t have "\<forall>iters giter fs order paths ap' i.
            analyzeAudioFiles iters giter fs order
              (NewAudioProcessor\<lparr>audioFiles := scanFiles paths\<rparr>) = Inr ap' \<and>
            mset order = mset [0..<length (scanFiles paths)] \<and>
            (\<forall>G. mset (giter G) = mset G) \<and>
            i < length (scanFiles paths) \<and> OriginalPath (scanFiles paths ! i) = ''c/rain.mp3'' \<longrightarrow>
            record_fingerprint (audioFiles ap' ! i) = [] \<and>
            i \<notin> \<Union> (set ` snd ` set (fingerprints ap')) \<and>
            ''duplicate'' \<notin> set (Tags (audioFiles ap' ! i))"
    by (elim conjE)
  with run order g i p have c: "record_fingerprint (audioFiles ap' ! 2) = [] \<and>
            2 \<notin> \<Union> (set ` snd ` set (fingerprints ap')) \<and>
            ''duplicate'' \<notin> set (Tags (audioFiles ap' ! 2))"
    by blast
  from m fm have "\<exists>m. AnalyzeFile io_plain ''c/rain.mp3'' = Inr m \<and> Fingerprint m = []"
    by blast
  moreover from run p c have "\<exists>ap'. analyzeAudioFiles (\<lambda>i. id) id sample_fs [1, 2, 0]
            (NewAudioProcessor\<lparr>audioFiles := scanFiles sample_paths\<rparr>) = Inr ap' \<and>
          OriginalPath (scanFiles sample_paths ! 2) = ''c/rain.mp3'' \<and>
          record_fingerprint (audioFiles ap' ! 2) = [] \<and>
          2 \<notin> \<Union> (set ` snd ` set (fingerprints ap')) \<and>
          ''duplicate'' \<notin> set (Tags (audioFiles ap' ! 2))"
    by blast
  ultimately show ?thesis
    using ext(1) by (intro conjI)
qed

text \<open>
  The claim as written fails for the tags at the end of the pipeline: the parse stage, which
  runs after the analysis, makes tags of the words of the filename, so a compressed file named
  \<^verbatim>\<open>duplicate.mp3\<close> goes to the renaming and manifest steps with the tag \<^verbatim>\<open>duplicate\<close>.
\<close>

theorem Process_records_duplicate_counterexample:
  "ToLower (Ext ''x/duplicate.mp3'') \<noteq> ''.wav'' \<and>
   map_sum id (map Tags)
     (Process_records (\<lambda>i. id) id (\<lambda>p. io_plain) [0] [''x/duplicate.mp3'']) =
     Inr [[''SFX'', ''duplicate'']]"
proof -
  let ?p = "''x/duplicate.mp3''"
  have ext: "ToLower (Ext ?p) = ''.mp3''"
    by (simp add: Ext_def ToLower_def lower_char_def is_upper_def)
  have scan: "scanFiles [?p] = [new_record ?p]"
    by (simp add: scanFiles_def ext extensions_def)
  have a: "AnalyzeFile io_plain ?p = Inr (zero_meta\<lparr>Format := ''mp3''\<rparr>)"
    using ext by (rule AnalyzeFile_io_plain_mp3)
  have "\<exists>ap'. analyzeAudioFiles (\<lambda>i. id) id (\<lambda>p. io_plain) [0]
                 (NewAudioProcessor\<lparr>audioFiles := scanFiles [?p]\<rparr>) = Inr ap'"
    unfolding scan
    by (simp add: analyzeAudioFiles_def worker_def new_record_fields a
        InferCategoryWithConfidence_Some)
  then obtain ap' where run: "analyzeAudioFiles (\<lambda>i. id) id (\<lambda>p. io_plain) [0]
                 (NewAudioProcessor\<lparr>audioFiles := scanFiles [?p]\<rparr>) = Inr ap'"
    ..
  then have p: "Process_records (\<lambda>i. id) id (\<lambda>p. io_plain) [0] [?p] =
                Inr (audioFiles (parseFiles ap'))"
    by (rule Process_records_Inr)
  have "map name_fields (audioFiles ap') =
        map name_fields (audioFiles (NewAudioProcessor\<lparr>audioFiles := scanFiles [?p]\<rparr>))"
    using run by (rule analyzeAudioFiles_names)
  then have "map name_fields (audioFiles ap') = map name_fields (scanFiles [?p])"
    by simp
  then have "map (final_fields \<circ> parseFile) (audioFiles ap') =
             map (final_fields \<circ> parseFile) (scanFiles [?p])"
    by (rule map_parse_final_fields)
  moreover have "final_fields (parseFile (new_record ?p)) =
                 (''SFX'', ''duplicate'', [], [], [''SFX'', ''duplicate''])"
    by code_simp
  ultimately have ff: "map final_fields (audioFiles (parseFiles ap')) =
                       [(''SFX'', ''duplicate'', [], [], [''SFX'', ''duplicate''])]"
    unfolding scan by (simp add: parseFiles_def)
  have "map Tags (audioFiles (parseFiles ap')) = [[''SFX'', ''duplicate'']]"
    unfolding Tags_final_fields [of "audioFiles (parseFiles ap')"] ff by simp
  with ext show ?thesis
    unfolding p by simp
qed
section \<open>The spectral pass\<close>










subsection \<open>The metadata pass leaves the spectral features absent\<close>









end
